(* ===== verification/Prelude.thy ===== *)
theory Prelude
  imports Main "HOL-Library.Word" "HOL-Library.Monad_Syntax"
begin

unbundle bit_operations_syntax

text \<open>
  What every component shares: names for the C integer types, the collections of
  rewrite rules the component proofs use, and the few facts on machine words, lists
  and the option monad that are not in the library.

  A call that may not return (it spins for ever, or the process dies of a signal) is
  a function into \<^typ>\<open>'a option\<close>; \<^const>\<open>None\<close> stands for not returning. The rules
  for the option monad below let the simplifier run such a call.
\<close>

type_synonym byte = "8 word"
type_synonym u32 = "32 word"
type_synonym u64 = "64 word"

named_theorems os_frame
  \<open>which fields of the operating system state a system call leaves alone\<close>
named_theorems os_eval
  \<open>results of system calls whose preconditions are known\<close>

section \<open>The option monad\<close>

lemma bind_Some_iff:
  "Option.bind m f = Some y \<longleftrightarrow> (\<exists>x. m = Some x \<and> f x = Some y)"
  by (cases m) auto

lemma bind_pair_Some_iff:
  "Option.bind m (\<lambda>(a, s). f a s) = Some y \<longleftrightarrow> (\<exists>a s. m = Some (a, s) \<and> f a s = Some y)"
  by (cases m) (auto split: prod.splits)

section \<open>Words read as natural numbers\<close>

lemma unat_add_no_wrap:
  fixes a b :: "'a::len word"
  assumes "unat a + unat b < 2 ^ LENGTH('a)"
  shows "unat (a + b) = unat a + unat b"
  using assms by (simp add: unat_word_ariths)

lemma unat_sub_le:
  fixes a b :: "'a::len word"
  assumes "unat b \<le> unat a"
  shows "unat (a - b) = unat a - unat b"
  using assms by (simp add: unat_sub_if')

lemma unat_mult_no_wrap:
  fixes a b :: "'a::len word"
  assumes "unat a * unat b < 2 ^ LENGTH('a)"
  shows "unat (a * b) = unat a * unat b"
  using assms by (simp add: unat_word_ariths)

lemma unat_ucast_32_64 [simp]: "unat (ucast (x :: u32) :: u64) = unat x"
proof -
  have "unat x < 2 ^ 64"
    using unsigned_less [where 'a = nat, of x] by simp
  then show ?thesis
    by (simp add: unsigned_ucast_eq take_bit_nat_eq_self)
qed

lemma unat_u32_lt [simp]: "unat (x :: u32) < 4294967296"
  using unsigned_less [where 'a = nat, of x] by simp

lemma unat_u64_lt [simp]: "unat (x :: u64) < 18446744073709551616"
  using unsigned_less [where 'a = nat, of x] by simp

text \<open>A word split by a mask: the selected bits and the others add up to the word.\<close>

lemma and_plus_and_not:
  fixes y m :: "'a::len word"
  shows "(y AND m) + (y AND NOT m) = y"
proof -
  have "(y AND m) + (y AND NOT m) = (y AND m) OR (y AND NOT m)"
    by (rule disjunctive_add) (auto simp: bit_simps)
  also have "\<dots> = y"
    by (rule bit_eqI) (auto simp: bit_simps)
  finally show ?thesis .
qed

lemma unat_and_le2: "unat (y AND m) \<le> unat (m :: 'a::len word)"
  using word_and_le1 [of y m] by (simp add: word_le_nat_alt ac_simps)

lemma unat_and_le1: "unat (y AND m) \<le> unat (y :: 'a::len word)"
  using word_and_le1 [of m y] by (simp add: word_le_nat_alt ac_simps)

lemma unat_and_not:
  fixes y m :: "'a::len word"
  shows "unat (y AND NOT m) = unat y - unat (y AND m)"
proof -
  have "y AND NOT m = y - (y AND m)"
    using and_plus_and_not [of y m] by (metis add_diff_cancel_left')
  then show ?thesis
    by (simp add: unat_sub_le unat_and_le1)
qed

text \<open>A 64-bit word below \<open>2 ^ 63\<close> is not negative, and its signed value is its unsigned one.\<close>

lemma sint_u64_small:
  fixes x :: u64
  assumes "unat x < 2 ^ 63"
  shows "sint x = int (unat x)"
proof -
  have "int (unat x) < int (2 ^ 63)"
    using assms by (simp only: of_nat_less_iff)
  then have u: "uint x < 2 ^ 63"
    by simp
  have "sint x = signed_take_bit 63 (uint x)"
    by (simp add: sint_uint)
  also have "\<dots> = uint x"
    using u by (intro signed_take_bit_int_eq_self) (auto intro: order_trans [of _ 0])
  finally show ?thesis by simp
qed

lemma sint_u64_nonneg: "unat (x :: u64) < 2 ^ 63 \<Longrightarrow> 0 \<le> sint x"
  by (simp add: sint_u64_small del: unsigned_less)

lemma unat_and_mask:
  fixes y :: u64
  assumes "n < 64"
  shows "unat (y AND mask n) = unat y mod 2 ^ n"
  by (simp only: take_bit_eq_mask [symmetric] unsigned_take_bit_eq) (simp add: take_bit_eq_mod)

lemma unat_pow2:
  assumes "n < LENGTH('a::len)"
  shows "unat (2 ^ n :: 'a word) = 2 ^ n"
proof -
  have "(2 :: nat) ^ n < 2 ^ LENGTH('a)" using assms by simp
  moreover have "(2 ^ n :: 'a word) = of_nat (2 ^ n)" by simp
  ultimately show ?thesis
    by (simp only: unsigned_of_nat take_bit_nat_eq_self of_nat_id)
qed

lemma unat_mask_u64:
  assumes "n < 64"
  shows "unat (mask n :: u64) = 2 ^ n - 1"
  using assms unat_sub_le [of 1 "2 ^ n :: u64"] by (simp add: mask_eq_exp_minus_1 unat_pow2)

section \<open>Arithmetic\<close>

lemma div_mult_le_nat: "(x div c) * c \<le> (x :: nat)"
  by simp

lemma lt_div_mult_plus: "0 < (c :: nat) \<Longrightarrow> x < (x div c) * c + c"
  by (metis add.commute add_less_cancel_left div_mult_mod_eq mod_less_divisor)

lemma chunk_unique:
  assumes "0 < (c :: nat)" and "k * c \<le> x" and "x < k * c + c"
  shows "x div c = k"
  using assms by (metis add.commute div_nat_eqI mult.commute mult_Suc_right)

end
