(* ===== verification/Posix.thy ===== *)
theory Posix
  imports Prelude
begin

text \<open>
  The part of the operating system the programs call: a directory of regular files,
  file descriptors and shared memory mappings of files. It is the environment of the
  modelled code, written after the manual pages of the system calls, and models no
  code of the repository.

  Every call that can fail for reasons outside the program (no memory, no space, a
  signal) first takes one decision from \<open>faults\<close>: \<open>Fail\<close> makes it fail, \<open>Short n\<close>
  lets a write stop after \<open>n\<close> bytes, \<open>Fine\<close> and exhausted faults let it proceed.
  A theorem for every list of faults is a theorem for every pattern of failures.

  A file descriptor or mapping that is not there is \<^const>\<open>None\<close>, the model of \<open>-1\<close>
  and of \<open>MAP_FAILED\<close>. Descriptor and mapping numbers are not reused.
\<close>

datatype fault = Fine | Fail | Short nat

record "file" =
  fsize :: nat
  fdata :: "nat \<Rightarrow> byte"

record vmap =
  vm_ino :: nat
  vm_off :: nat
  vm_len :: nat

record os =
  dir :: "string \<rightharpoonup> nat"
  inodes :: "nat \<Rightarrow> file"
  next_ino :: nat
  fdtab :: "nat \<rightharpoonup> nat"
  next_fd :: nat
  vmaps :: "nat \<rightharpoonup> vmap"
  next_map :: nat
  faults :: "fault list"

definition page :: nat where
  "page = 4096"

definition page_ceil :: "nat \<Rightarrow> nat" where
  "page_ceil n = (n + (page - 1)) div page * page"

section \<open>Files as byte sequences\<close>

definition empty_file :: "file" where
  "empty_file = \<lparr>fsize = 0, fdata = (\<lambda>_. 0)\<rparr>"

text \<open>Bytes at and beyond the size read as zero.\<close>

definition file_wf :: "file \<Rightarrow> bool" where
  "file_wf f \<longleftrightarrow> (\<forall>i \<ge> fsize f. fdata f i = 0)"

definition resize :: "nat \<Rightarrow> file \<Rightarrow> file" where
  "resize n f = \<lparr>fsize = n, fdata = (\<lambda>i. if i < n \<and> i < fsize f then fdata f i else 0)\<rparr>"

text \<open>\<open>write_at\<close> is a write through a descriptor: it extends the file.\<close>

definition write_at :: "nat \<Rightarrow> byte list \<Rightarrow> file \<Rightarrow> file" where
  "write_at off bs f =
     (if bs = [] then f
      else \<lparr>fsize = max (fsize f) (off + length bs),
            fdata = (\<lambda>i. if off \<le> i \<and> i < off + length bs then bs ! (i - off) else fdata f i)\<rparr>)"

text \<open>\<open>store_at\<close> is a store through a mapping: what lies beyond the end of file is lost.\<close>

definition store_at :: "nat \<Rightarrow> byte list \<Rightarrow> file \<Rightarrow> file" where
  "store_at off bs f =
     f\<lparr>fdata := (\<lambda>i. if off \<le> i \<and> i < off + length bs \<and> i < fsize f
                      then bs ! (i - off) else fdata f i)\<rparr>"

definition file_bytes :: "file \<Rightarrow> byte list" where
  "file_bytes f = map (fdata f) [0..<fsize f]"

section \<open>System calls\<close>

definition next_fault :: "'a os_scheme \<Rightarrow> fault \<times> 'a os_scheme" where
  "next_fault s = (case faults s of [] \<Rightarrow> (Fine, s) | f # fs \<Rightarrow> (f, s\<lparr>faults := fs\<rparr>))"

text \<open>\<open>malloc\<close> and \<open>calloc\<close>: whether there was memory.\<close>

definition sys_alloc :: "'a os_scheme \<Rightarrow> bool \<times> 'a os_scheme" where
  "sys_alloc s = (case next_fault s of (f, s) \<Rightarrow> (f \<noteq> Fail, s))"

definition new_fd :: "nat \<Rightarrow> 'a os_scheme \<Rightarrow> nat option \<times> 'a os_scheme" where
  "new_fd ino s =
     (Some (next_fd s), s\<lparr>fdtab := (fdtab s)(next_fd s \<mapsto> ino), next_fd := Suc (next_fd s)\<rparr>)"

definition new_file :: "string \<Rightarrow> 'a os_scheme \<Rightarrow> nat \<times> 'a os_scheme" where
  "new_file path s =
     (next_ino s, s\<lparr>dir := (dir s)(path \<mapsto> next_ino s),
                    inodes := (inodes s)(next_ino s := empty_file),
                    next_ino := Suc (next_ino s)\<rparr>)"

text \<open>\<open>open(path, O_RDWR)\<close>, with \<open>O_CREAT\<close>, and with \<open>O_CREAT | O_EXCL\<close>.\<close>

definition sys_open :: "string \<Rightarrow> 'a os_scheme \<Rightarrow> nat option \<times> 'a os_scheme" where
  "sys_open path s =
     (case next_fault s of (f, s) \<Rightarrow>
        if f = Fail then (None, s)
        else case dir s path of None \<Rightarrow> (None, s) | Some ino \<Rightarrow> new_fd ino s)"

definition sys_open_creat :: "string \<Rightarrow> 'a os_scheme \<Rightarrow> nat option \<times> 'a os_scheme" where
  "sys_open_creat path s =
     (case next_fault s of (f, s) \<Rightarrow>
        if f = Fail then (None, s)
        else case dir s path of
               None \<Rightarrow> (case new_file path s of (ino, s) \<Rightarrow> new_fd ino s)
             | Some ino \<Rightarrow> new_fd ino s)"

definition sys_open_excl :: "string \<Rightarrow> 'a os_scheme \<Rightarrow> nat option \<times> 'a os_scheme" where
  "sys_open_excl path s =
     (case next_fault s of (f, s) \<Rightarrow>
        if f = Fail then (None, s)
        else case dir s path of
               None \<Rightarrow> (case new_file path s of (ino, s) \<Rightarrow> new_fd ino s)
             | Some ino \<Rightarrow> (None, s))"

text \<open>\<open>unlink\<close>, and the whole contents of a file read through \<open>stdio\<close>.\<close>

definition sys_unlink :: "string \<Rightarrow> 'a os_scheme \<Rightarrow> 'a os_scheme" where
  "sys_unlink path s =
     (case next_fault s of (f, s) \<Rightarrow> if f = Fail then s else s\<lparr>dir := (dir s)(path := None)\<rparr>)"

definition read_file :: "string \<Rightarrow> 'a os_scheme \<Rightarrow> byte list option \<times> 'a os_scheme" where
  "read_file path s =
     (case next_fault s of (f, s) \<Rightarrow>
        (if f = Fail then None else map_option (\<lambda>ino. file_bytes (inodes s ino)) (dir s path), s))"

definition sys_close :: "nat \<Rightarrow> 'a os_scheme \<Rightarrow> 'a os_scheme" where
  "sys_close fd s = s\<lparr>fdtab := (fdtab s)(fd := None)\<rparr>"

definition sys_fstat :: "nat \<Rightarrow> 'a os_scheme \<Rightarrow> nat option \<times> 'a os_scheme" where
  "sys_fstat fd s =
     (case next_fault s of (f, s) \<Rightarrow>
        if f = Fail then (None, s)
        else (map_option (\<lambda>ino. fsize (inodes s ino)) (fdtab s fd), s))"

text \<open>\<open>off_t\<close> is signed: a length or offset with the top bit set is negative, and refused.\<close>

definition sys_ftruncate :: "nat \<Rightarrow> u64 \<Rightarrow> 'a os_scheme \<Rightarrow> bool \<times> 'a os_scheme" where
  "sys_ftruncate fd len s =
     (case next_fault s of (f, s) \<Rightarrow>
        if f = Fail \<or> sint len < 0 then (False, s)
        else case fdtab s fd of
               None \<Rightarrow> (False, s)
             | Some ino \<Rightarrow>
                 (True, s\<lparr>inodes := (inodes s)(ino := resize (unat len) (inodes s ino))\<rparr>))"

text \<open>\<open>pwrite\<close>: the number of bytes written, \<^const>\<open>None\<close> for \<open>-1\<close>.\<close>

definition sys_pwrite :: "nat \<Rightarrow> byte list \<Rightarrow> u64 \<Rightarrow> 'a os_scheme \<Rightarrow> nat option \<times> 'a os_scheme" where
  "sys_pwrite fd bs off s =
     (case next_fault s of (f, s) \<Rightarrow>
        if f = Fail \<or> sint off < 0 then (None, s)
        else case fdtab s fd of
               None \<Rightarrow> (None, s)
             | Some ino \<Rightarrow>
                 (let bs' = (case f of Short n \<Rightarrow> take n bs | _ \<Rightarrow> bs)
                  in (Some (length bs'),
                      s\<lparr>inodes := (inodes s)(ino := write_at (unat off) bs' (inodes s ino))\<rparr>)))"

text \<open>\<open>mmap(NULL, len, PROT_READ | PROT_WRITE, MAP_SHARED, fd, off)\<close>.\<close>

definition sys_mmap :: "nat \<Rightarrow> nat \<Rightarrow> u64 \<Rightarrow> 'a os_scheme \<Rightarrow> nat option \<times> 'a os_scheme" where
  "sys_mmap fd len off s =
     (case next_fault s of (f, s) \<Rightarrow>
        if f = Fail \<or> len = 0 \<or> sint off < 0 \<or> unat off mod page \<noteq> 0 then (None, s)
        else case fdtab s fd of
               None \<Rightarrow> (None, s)
             | Some ino \<Rightarrow>
                 (Some (next_map s),
                  s\<lparr>vmaps := (vmaps s)(next_map s \<mapsto>
                       \<lparr>vm_ino = ino, vm_off = unat off, vm_len = len\<rparr>),
                    next_map := Suc (next_map s)\<rparr>))"

definition sys_munmap :: "nat \<Rightarrow> 'a os_scheme \<Rightarrow> 'a os_scheme" where
  "sys_munmap m s = s\<lparr>vmaps := (vmaps s)(m := None)\<rparr>"

text \<open>
  \<open>memcpy\<close> into a mapping at an offset. It does not return when the mapping is gone or
  too short (\<open>SIGSEGV\<close>) and when it touches a page wholly beyond the end of the file
  (\<open>SIGBUS\<close>).
\<close>

definition map_store :: "nat \<Rightarrow> nat \<Rightarrow> byte list \<Rightarrow> 'a os_scheme \<Rightarrow> 'a os_scheme option" where
  "map_store m off bs s =
     (case vmaps s m of
        None \<Rightarrow> None
      | Some v \<Rightarrow>
          (let f = inodes s (vm_ino v); start = vm_off v + off
           in if off + length bs \<le> vm_len v \<and> start + length bs \<le> page_ceil (fsize f)
              then Some (s\<lparr>inodes := (inodes s)(vm_ino v := store_at start bs f)\<rparr>)
              else None))"

section \<open>Facts on files\<close>

lemma page_pos [simp]: "0 < page"
  by (simp add: page_def)

lemma le_page_ceil: "n \<le> page_ceil n"
  using lt_div_mult_plus [OF page_pos, of "n + (page - 1)"] by (simp add: page_ceil_def page_def)

lemma file_wf_empty [simp]: "file_wf empty_file"
  by (simp add: file_wf_def empty_file_def)

lemma file_wf_resize [simp]: "file_wf (resize n f)"
  by (simp add: file_wf_def resize_def)

lemma file_wf_write_at [simp]: "file_wf f \<Longrightarrow> file_wf (write_at off bs f)"
  by (simp add: file_wf_def write_at_def)

lemma file_wf_store_at [simp]: "file_wf f \<Longrightarrow> file_wf (store_at off bs f)"
  by (auto simp: file_wf_def store_at_def)

lemma fsize_resize [simp]: "fsize (resize n f) = n"
  by (simp add: resize_def)

lemma fsize_store_at [simp]: "fsize (store_at off bs f) = fsize f"
  by (simp add: store_at_def)

lemma fsize_write_at: "fsize (write_at off bs f) = (if bs = [] then fsize f else max (fsize f) (off + length bs))"
  by (simp add: write_at_def)

lemma fdata_resize: "file_wf f \<Longrightarrow> fdata (resize n f) i = (if i < n then fdata f i else 0)"
  by (auto simp: resize_def file_wf_def)

lemma fdata_write_at:
  "fdata (write_at off bs f) i =
     (if off \<le> i \<and> i < off + length bs then bs ! (i - off) else fdata f i)"
  by (auto simp: write_at_def)

text \<open>Inside the file, a store through a mapping and a write through a descriptor agree.\<close>

lemma store_at_eq_write_at:
  assumes "off + length bs \<le> fsize f"
  shows "store_at off bs f = write_at off bs f"
  using assms by (cases f) (auto simp: store_at_def write_at_def max_def fun_eq_iff)

text \<open>Two adjacent writes are one write.\<close>

lemma write_at_append:
  "write_at (off + length xs) ys (write_at off xs f) = write_at off (xs @ ys) f"
  by (auto simp: write_at_def nth_append fun_eq_iff max_def)

lemma write_at_split:
  assumes "m + b \<le> n" "n \<le> length bs"
  shows "write_at (c + b) (drop (m + b) (take n bs)) (write_at c (take b (drop m bs)) f) =
           write_at c (drop m (take n bs)) f"
proof -
  have "take b (drop m bs) = take b (drop m (take n bs))"
    using assms by (simp add: take_drop min_def add.commute)
  moreover have "drop (m + b) (take n bs) = drop b (drop m (take n bs))"
    by (simp add: add.commute)
  moreover have "length (take b (drop m (take n bs))) = b"
    using assms by simp
  ultimately show ?thesis
    using write_at_append [of c "take b (drop m (take n bs))" "drop b (drop m (take n bs))" f]
    by (simp only: append_take_drop_id)
qed

lemma length_file_bytes [simp]: "length (file_bytes f) = fsize f"
  by (simp add: file_bytes_def)

section \<open>What the system calls leave alone, and what they do without faults\<close>

lemma next_fault_none [simp]: "faults s = [] \<Longrightarrow> next_fault s = (Fine, s)"
  by (simp add: next_fault_def)

lemma next_fault_more [simp]: "faults s = f # fs \<Longrightarrow> next_fault s = (f, s\<lparr>faults := fs\<rparr>)"
  by (simp add: next_fault_def)

lemma sys_close_frame [simp, os_frame]:
  "dir (sys_close fd s) = dir s" "inodes (sys_close fd s) = inodes s"
  "next_ino (sys_close fd s) = next_ino s" "next_fd (sys_close fd s) = next_fd s"
  "vmaps (sys_close fd s) = vmaps s" "next_map (sys_close fd s) = next_map s"
  "faults (sys_close fd s) = faults s"
  by (simp_all add: sys_close_def)

lemma sys_munmap_frame [simp, os_frame]:
  "dir (sys_munmap m s) = dir s" "inodes (sys_munmap m s) = inodes s"
  "next_ino (sys_munmap m s) = next_ino s" "fdtab (sys_munmap m s) = fdtab s"
  "next_fd (sys_munmap m s) = next_fd s" "next_map (sys_munmap m s) = next_map s"
  "faults (sys_munmap m s) = faults s"
  by (simp_all add: sys_munmap_def)

lemma sys_alloc_fine [os_eval]: "faults s = [] \<Longrightarrow> sys_alloc s = (True, s)"
  by (simp add: sys_alloc_def)

lemma sys_ftruncate_fine [os_eval]:
  "faults s = [] \<Longrightarrow> 0 \<le> sint len \<Longrightarrow> fdtab s fd = Some ino \<Longrightarrow>
     sys_ftruncate fd len s =
       (True, s\<lparr>inodes := (inodes s)(ino := resize (unat len) (inodes s ino))\<rparr>)"
  by (simp add: sys_ftruncate_def)

lemma sys_pwrite_fine [os_eval]:
  "faults s = [] \<Longrightarrow> 0 \<le> sint off \<Longrightarrow> fdtab s fd = Some ino \<Longrightarrow>
     sys_pwrite fd bs off s =
       (Some (length bs), s\<lparr>inodes := (inodes s)(ino := write_at (unat off) bs (inodes s ino))\<rparr>)"
  by (simp add: sys_pwrite_def)

lemma sys_mmap_fine [os_eval]:
  "faults s = [] \<Longrightarrow> 0 < len \<Longrightarrow> 0 \<le> sint off \<Longrightarrow> page dvd unat off \<Longrightarrow> fdtab s fd = Some ino \<Longrightarrow>
     sys_mmap fd len off s =
       (Some (next_map s),
        s\<lparr>vmaps := (vmaps s)(next_map s \<mapsto> \<lparr>vm_ino = ino, vm_off = unat off, vm_len = len\<rparr>),
          next_map := Suc (next_map s)\<rparr>)"
  by (simp add: sys_mmap_def)

lemma sys_open_fine [os_eval]:
  "faults s = [] \<Longrightarrow> dir s path = Some ino \<Longrightarrow> sys_open path s = new_fd ino s"
  by (simp add: sys_open_def)

lemma sys_fstat_fine [os_eval]:
  "faults s = [] \<Longrightarrow> fdtab s fd = Some ino \<Longrightarrow> sys_fstat fd s = (Some (fsize (inodes s ino)), s)"
  by (simp add: sys_fstat_def)

lemma next_fault_frame:
  assumes "next_fault s = (f, s')"
  shows "dir s' = dir s" "inodes s' = inodes s" "fdtab s' = fdtab s" "next_fd s' = next_fd s"
    "vmaps s' = vmaps s" "next_map s' = next_map s" "os.more s' = os.more s"
  using assms by (auto simp: next_fault_def split: list.splits)

lemma sys_ftruncate_frame:
  assumes "sys_ftruncate fd len s = (b, s')"
  shows "dir s' = dir s" "fdtab s' = fdtab s" "next_fd s' = next_fd s"
    "vmaps s' = vmaps s" "next_map s' = next_map s" "os.more s' = os.more s"
  using assms by (auto simp: sys_ftruncate_def next_fault_frame split: prod.splits if_splits option.splits)

lemma sys_mmap_None_frame:
  assumes "sys_mmap fd len off s = (None, s')"
  shows "dir s' = dir s" "fdtab s' = fdtab s" "next_fd s' = next_fd s"
    "vmaps s' = vmaps s" "next_map s' = next_map s" "os.more s' = os.more s"
  using assms by (auto simp: sys_mmap_def next_fault_frame split: prod.splits if_splits option.splits)

lemma sys_mmap_Some_frame:
  assumes "sys_mmap fd len off s = (Some m, s')"
  shows "m = next_map s" "\<exists>ino. fdtab s fd = Some ino \<and>
      vmaps s' = (vmaps s)(m \<mapsto> \<lparr>vm_ino = ino, vm_off = unat off, vm_len = len\<rparr>)"
    "dir s' = dir s" "fdtab s' = fdtab s" "next_fd s' = next_fd s"
    "next_map s' = Suc (next_map s)" "os.more s' = os.more s"
  using assms by (auto simp: sys_mmap_def next_fault_frame split: prod.splits if_splits option.splits)

lemma sys_open_creat_None_frame:
  assumes "sys_open_creat path s = (None, s')"
  shows "fdtab s' = fdtab s" "vmaps s' = vmaps s" "os.more s' = os.more s"
  using assms by (auto simp: sys_open_creat_def next_fault_frame new_fd_def new_file_def
      split: prod.splits if_splits option.splits)

lemma sys_open_creat_Some_frame:
  assumes "sys_open_creat path s = (Some fd, s')"
  shows "fd = next_fd s" "\<exists>ino. fdtab s' = (fdtab s)(fd \<mapsto> ino)"
    "vmaps s' = vmaps s" "os.more s' = os.more s"
  using assms by (auto simp: sys_open_creat_def next_fault_frame new_fd_def new_file_def
      split: prod.splits if_splits option.splits)

end
