(* ===== verification/Mmlog_Error.thy ===== *)
theory Mmlog_Error
  imports Prelude
begin

text \<open>
  The error codes of \<^verbatim>\<open>fastlog/include/mmlog.h\<close>: the enumeration and the message table
  that the X-macro \<open>ERR_TABLE\<close> generates, and \<open>mmlog_strerror\<close>. The constructors of
  \<open>mmlog_err\<close> are the enumerators in the order of the table, \<open>mmlog_err_msg\<close> is the
  array of messages. The enumerator \<open>MMLOG_ERR__LENGTH\<close> is the last entry and carries
  the message for every code that is out of range.
\<close>

datatype mmlog_err =
  MMLOG_ERR_OK
| MMLOG_ERR_CLOCK_GETTIMEOFDAY
| MMLOG_ERR_FILES_CREATE_FTRUNCATE_MDATA
| MMLOG_ERR_FILES_CREATE_MMAP_MDATA
| MMLOG_ERR_FILES_CREATE_OPEN_DATA
| MMLOG_ERR_FILES_CREATE_FTRUNCATE_DATA
| MMLOG_ERR_TRY_CHECK_FILE_READY_OPEN
| MMLOG_ERR_TRY_CHECK_FILE_READY_FSTAT
| MMLOG_ERR_FILES_OPEN_MDATA_READY_OPEN
| MMLOG_ERR_FILES_OPEN_MDATA_READY_FSTAT
| MMLOG_ERR_FILES_OPEN_MDATA_MMAP
| MMLOG_ERR_FILES_OPEN_MDATA_READY
| MMLOG_ERR_FILES_OPEN_DATA_READY_OPEN
| MMLOG_ERR_FILES_OPEN_DATA_READY_FSTAT
| MMLOG_ERR_FILES_OPEN_DATA_MMAP
| MMLOG_ERR_FILES_OPEN_VERSION
| MMLOG_ERR_FILES_OPEN_OR_CREATE_EINVAL
| MMLOG_ERR_FILES_OPEN_OR_CREATE_SNPRINTF
| MMLOG_ERR_MMLOG_OPEN_EINVAL
| MMLOG_ERR_MMLOG_OPEN_ENOMEM
| MMLOG_ERR_MMLOG_OPEN_OR_CREATE_EINVAL
| MMLOG_ERR_FILE_EXPAND_INNER_PANICKED
| MMLOG_ERR_FILE_EXPAND_INNER_GROW
| MMLOG_ERR_FILE_EXPAND_INNER_LOCKED
| MMLOG_ERR_MMLOG_CHECKOUT_EINVAL
| MMLOG_ERR_CLEAN_CHUNKS_EINVAL
| MMLOG_ERR_CREATE_CHUNK_AT_CURSOR_ENOMEM
| MMLOG_ERR_CREATE_CHUNK_AT_CURSOR_MMAP
| MMLOG_ERR_ADD_NEW_CHUNK_EINVALID
| MMLOG_ERR_ADD_NEW_CHUNK_EWAIT
| MMLOG_ERR_MMLOG_RB_CHECKOUT_EINVAL
| MMLOG_ERR_MMLOG_RB_CHECKOUT_NOLOCK
| MMLOG_ERR_WRITE_TO_CHUNK_ECHUNK
| MMLOG_ERR_MMLOG_INSERT_EINVAL
| MMLOG_ERR_MMLOG_INSERT_PWRITE
| MMLOG_ERR_MMLOG_TRIM_EINVAL
| MMLOG_ERR_MMLOG_TRIM_FTRUNCATE
| MMLOG_ERR__LENGTH

definition mmlog_errs :: "mmlog_err list" where
  "mmlog_errs =
    [MMLOG_ERR_OK,
     MMLOG_ERR_CLOCK_GETTIMEOFDAY,
     MMLOG_ERR_FILES_CREATE_FTRUNCATE_MDATA,
     MMLOG_ERR_FILES_CREATE_MMAP_MDATA,
     MMLOG_ERR_FILES_CREATE_OPEN_DATA,
     MMLOG_ERR_FILES_CREATE_FTRUNCATE_DATA,
     MMLOG_ERR_TRY_CHECK_FILE_READY_OPEN,
     MMLOG_ERR_TRY_CHECK_FILE_READY_FSTAT,
     MMLOG_ERR_FILES_OPEN_MDATA_READY_OPEN,
     MMLOG_ERR_FILES_OPEN_MDATA_READY_FSTAT,
     MMLOG_ERR_FILES_OPEN_MDATA_MMAP,
     MMLOG_ERR_FILES_OPEN_MDATA_READY,
     MMLOG_ERR_FILES_OPEN_DATA_READY_OPEN,
     MMLOG_ERR_FILES_OPEN_DATA_READY_FSTAT,
     MMLOG_ERR_FILES_OPEN_DATA_MMAP,
     MMLOG_ERR_FILES_OPEN_VERSION,
     MMLOG_ERR_FILES_OPEN_OR_CREATE_EINVAL,
     MMLOG_ERR_FILES_OPEN_OR_CREATE_SNPRINTF,
     MMLOG_ERR_MMLOG_OPEN_EINVAL,
     MMLOG_ERR_MMLOG_OPEN_ENOMEM,
     MMLOG_ERR_MMLOG_OPEN_OR_CREATE_EINVAL,
     MMLOG_ERR_FILE_EXPAND_INNER_PANICKED,
     MMLOG_ERR_FILE_EXPAND_INNER_GROW,
     MMLOG_ERR_FILE_EXPAND_INNER_LOCKED,
     MMLOG_ERR_MMLOG_CHECKOUT_EINVAL,
     MMLOG_ERR_CLEAN_CHUNKS_EINVAL,
     MMLOG_ERR_CREATE_CHUNK_AT_CURSOR_ENOMEM,
     MMLOG_ERR_CREATE_CHUNK_AT_CURSOR_MMAP,
     MMLOG_ERR_ADD_NEW_CHUNK_EINVALID,
     MMLOG_ERR_ADD_NEW_CHUNK_EWAIT,
     MMLOG_ERR_MMLOG_RB_CHECKOUT_EINVAL,
     MMLOG_ERR_MMLOG_RB_CHECKOUT_NOLOCK,
     MMLOG_ERR_WRITE_TO_CHUNK_ECHUNK,
     MMLOG_ERR_MMLOG_INSERT_EINVAL,
     MMLOG_ERR_MMLOG_INSERT_PWRITE,
     MMLOG_ERR_MMLOG_TRIM_EINVAL,
     MMLOG_ERR_MMLOG_TRIM_FTRUNCATE,
     MMLOG_ERR__LENGTH]"

text \<open>The integer value of an enumerator is its position in the table.\<close>

primrec err_code :: "mmlog_err \<Rightarrow> nat" where
  "err_code MMLOG_ERR_OK = 0"
| "err_code MMLOG_ERR_CLOCK_GETTIMEOFDAY = 1"
| "err_code MMLOG_ERR_FILES_CREATE_FTRUNCATE_MDATA = 2"
| "err_code MMLOG_ERR_FILES_CREATE_MMAP_MDATA = 3"
| "err_code MMLOG_ERR_FILES_CREATE_OPEN_DATA = 4"
| "err_code MMLOG_ERR_FILES_CREATE_FTRUNCATE_DATA = 5"
| "err_code MMLOG_ERR_TRY_CHECK_FILE_READY_OPEN = 6"
| "err_code MMLOG_ERR_TRY_CHECK_FILE_READY_FSTAT = 7"
| "err_code MMLOG_ERR_FILES_OPEN_MDATA_READY_OPEN = 8"
| "err_code MMLOG_ERR_FILES_OPEN_MDATA_READY_FSTAT = 9"
| "err_code MMLOG_ERR_FILES_OPEN_MDATA_MMAP = 10"
| "err_code MMLOG_ERR_FILES_OPEN_MDATA_READY = 11"
| "err_code MMLOG_ERR_FILES_OPEN_DATA_READY_OPEN = 12"
| "err_code MMLOG_ERR_FILES_OPEN_DATA_READY_FSTAT = 13"
| "err_code MMLOG_ERR_FILES_OPEN_DATA_MMAP = 14"
| "err_code MMLOG_ERR_FILES_OPEN_VERSION = 15"
| "err_code MMLOG_ERR_FILES_OPEN_OR_CREATE_EINVAL = 16"
| "err_code MMLOG_ERR_FILES_OPEN_OR_CREATE_SNPRINTF = 17"
| "err_code MMLOG_ERR_MMLOG_OPEN_EINVAL = 18"
| "err_code MMLOG_ERR_MMLOG_OPEN_ENOMEM = 19"
| "err_code MMLOG_ERR_MMLOG_OPEN_OR_CREATE_EINVAL = 20"
| "err_code MMLOG_ERR_FILE_EXPAND_INNER_PANICKED = 21"
| "err_code MMLOG_ERR_FILE_EXPAND_INNER_GROW = 22"
| "err_code MMLOG_ERR_FILE_EXPAND_INNER_LOCKED = 23"
| "err_code MMLOG_ERR_MMLOG_CHECKOUT_EINVAL = 24"
| "err_code MMLOG_ERR_CLEAN_CHUNKS_EINVAL = 25"
| "err_code MMLOG_ERR_CREATE_CHUNK_AT_CURSOR_ENOMEM = 26"
| "err_code MMLOG_ERR_CREATE_CHUNK_AT_CURSOR_MMAP = 27"
| "err_code MMLOG_ERR_ADD_NEW_CHUNK_EINVALID = 28"
| "err_code MMLOG_ERR_ADD_NEW_CHUNK_EWAIT = 29"
| "err_code MMLOG_ERR_MMLOG_RB_CHECKOUT_EINVAL = 30"
| "err_code MMLOG_ERR_MMLOG_RB_CHECKOUT_NOLOCK = 31"
| "err_code MMLOG_ERR_WRITE_TO_CHUNK_ECHUNK = 32"
| "err_code MMLOG_ERR_MMLOG_INSERT_EINVAL = 33"
| "err_code MMLOG_ERR_MMLOG_INSERT_PWRITE = 34"
| "err_code MMLOG_ERR_MMLOG_TRIM_EINVAL = 35"
| "err_code MMLOG_ERR_MMLOG_TRIM_FTRUNCATE = 36"
| "err_code MMLOG_ERR__LENGTH = 37"

definition mmlog_err_msg :: "string list" where
  "mmlog_err_msg =
    [''mmlog success'',
     ''[ms_since_epoch] error in gettimeofday()'',
     ''[files_create] metadata ftruncate() failed'',
     ''[files_create] metadata mmap() failed'',
     ''[files_create] data open() failed on data file'',
     ''[files_create] data ftruncate() failed'',
     ''[try_check_file_ready] open() failed'',
     ''[try_check_file_ready] fstat() failed'',
     ''[files_open] metadata not ready (open)'',
     ''[files_open] metadata not ready (fstat)'',
     ''[files_open] metadata mmap() failed'',
     ''[files_open] metadata not ready'',
     ''[files_open] data not ready (open)'',
     ''[files_open] data not ready (fstat)'',
     ''[files_open] metadata mmap() failed'',
     ''[files_open] incompatible metadata version'',
     ''[files_open_or_create] invalid arguments'',
     ''[files_open_or_create] failed to intern string'',
     ''[mmlog_open] invalid arguments'',
     ''[mmlog_open] out of memory'',
     ''[mmlog_open_or_create] invalid arguments'',
     ''[file_expand_inner] log is in a panic state'',
     ''[file_expand_inner] ftruncate() failed'',
     ''[file_expand_inner] failed to acquire lock'',
     ''[mmlog_checkout] invalid arguments'',
     ''[clean_chunks] invalid arguments'',
     ''[create_chunk_at_cursor] out of memory'',
     ''[create_chunk_at_cursor] mmap() failed'',
     ''[add_new_chunk] invalid arguments'',
     ''[add_new_chunk] ringbuffer is full'',
     ''[mmlog_rb_checkout] invalid arguments'',
     ''[mmlog_rb_checkout] failed to acquire head lock'',
     ''[write_to_chunk] failed to checkout chunk'',
     ''[mmlog_insert] invalid arguments'',
     ''[mmlog_insert] pwrite() failed'',
     ''[mmlog_trim] invalid arguments'',
     ''[mmlog_trim] ftruncate() failed'',
     ''UNKNOWN ERROR'']"

text \<open>
  \<open>mmlog_strerror\<close> clamps its argument to the table. The argument is taken as an
  integer, since the foreign interface \<^verbatim>\<open>libmmlog.h\<close> declares it as one.
\<close>

definition mmlog_strerror :: "int \<Rightarrow> string" where
  "mmlog_strerror err =
     (let e = (if err < 0 \<or> err \<ge> int (err_code MMLOG_ERR__LENGTH)
               then int (err_code MMLOG_ERR__LENGTH) else err)
      in mmlog_err_msg ! nat e)"

lemma length_mmlog_err_msg: "length mmlog_err_msg = Suc (err_code MMLOG_ERR__LENGTH)"
  by (simp add: mmlog_err_msg_def)

lemma err_code_le: "err_code e \<le> err_code MMLOG_ERR__LENGTH"
  by (cases e) simp_all

lemma mmlog_errs_nth: "mmlog_errs ! err_code e = e"
  by (cases e) (simp_all add: mmlog_errs_def)

lemma err_code_inject: "err_code a = err_code b \<longleftrightarrow> a = b"
  by (metis mmlog_errs_nth)

lemma mmlog_err_msg_nth_eq:
  assumes "i < 38" "j < 38"
  shows "mmlog_err_msg ! i = mmlog_err_msg ! j \<longleftrightarrow> i = j \<or> {i, j} = {10, 14}"
proof -
  define m where "m = mmlog_err_msg [14 := ''#'']"
  have d: "distinct m" and len: "length m = 38"
    unfolding m_def by code_simp+
  have same: "mmlog_err_msg ! 14 = mmlog_err_msg ! 10" by code_simp
  define r where "r = (\<lambda>i :: nat. if i = 14 then 10 else i)"
  have r: "r i < length m" "mmlog_err_msg ! i = m ! r i" if "i < 38" for i
    using that len same by (auto simp: r_def m_def)
  have "m ! r i = m ! r j \<longleftrightarrow> r i = r j"
    using d r(1) assms by (intro nth_eq_iff_index_eq)
  with r(2) assms show ?thesis
    by (auto simp: r_def doubleton_eq_iff)
qed

text \<open>
  \<open>mmlog_strerror\<close> never reads outside its table: every code outside the enumeration gives
  the message of \<open>MMLOG_ERR__LENGTH\<close>. Inside it, two codes have the same message only if
  they are equal, with one exception: \<open>FILES_OPEN_MDATA_MMAP\<close> and \<open>FILES_OPEN_DATA_MMAP\<close>
  share theirs.
\<close>

theorem strerror_identifies_error:
  "(err < 0 \<or> int (err_code MMLOG_ERR__LENGTH) \<le> err \<longrightarrow> mmlog_strerror err = ''UNKNOWN ERROR'') \<and>
   (mmlog_strerror (int (err_code a)) = mmlog_strerror (int (err_code b)) \<longleftrightarrow>
      a = b \<or> {a, b} = {MMLOG_ERR_FILES_OPEN_MDATA_MMAP, MMLOG_ERR_FILES_OPEN_DATA_MMAP})"
proof
  show "err < 0 \<or> int (err_code MMLOG_ERR__LENGTH) \<le> err \<longrightarrow> mmlog_strerror err = ''UNKNOWN ERROR''"
    by (auto simp: mmlog_strerror_def mmlog_err_msg_def)
  have msg: "mmlog_strerror (int (err_code e)) = mmlog_err_msg ! err_code e" "err_code e < 38" for e
    using err_code_le [of e] by (auto simp: mmlog_strerror_def)
  have "{err_code a, err_code b} = {10, 14} \<longleftrightarrow>
      {err_code a, err_code b} = {err_code MMLOG_ERR_FILES_OPEN_MDATA_MMAP, err_code MMLOG_ERR_FILES_OPEN_DATA_MMAP}"
    by simp
  also have "\<dots> \<longleftrightarrow> {a, b} = {MMLOG_ERR_FILES_OPEN_MDATA_MMAP, MMLOG_ERR_FILES_OPEN_DATA_MMAP}"
    unfolding doubleton_eq_iff err_code_inject by (rule refl)
  finally show "mmlog_strerror (int (err_code a)) = mmlog_strerror (int (err_code b)) \<longleftrightarrow>
      a = b \<or> {a, b} = {MMLOG_ERR_FILES_OPEN_MDATA_MMAP, MMLOG_ERR_FILES_OPEN_DATA_MMAP}"
    by (simp add: msg mmlog_err_msg_nth_eq err_code_inject)
qed

theorem strerror_identifies_error_witness:
  "mmlog_strerror (-3) = ''UNKNOWN ERROR'' \<and> mmlog_strerror 99 = ''UNKNOWN ERROR'' \<and>
   mmlog_strerror 10 = mmlog_strerror 14"
  using strerror_identifies_error [of "-3" MMLOG_ERR_FILES_OPEN_MDATA_MMAP MMLOG_ERR_FILES_OPEN_DATA_MMAP]
    strerror_identifies_error [of 99] by simp

end
