(* ===== verification/Mmlog_State.thy ===== *)
theory Mmlog_State
  imports Posix Mmlog_Error
begin

text \<open>
  The data of the memory mapped log, \<^verbatim>\<open>fastlog/include/mmlog.h\<close>: the structures, the
  memory they live in, and the arithmetic helpers that need no state.

  A \<open>log_world\<close> is everything a call can read or write. It extends the operating
  system by the calling thread's \<open>mmlog_errno\<close>, the clock, the typed contents of the
  metadata files, and the heap objects of the library:
  \<^item> \<open>metas ino\<close> is the first \<open>sizeof(log_metadata_t)\<close> bytes of file \<open>ino\<close>, read as a
    \<open>log_metadata_t\<close>; a fresh file holds zeroes. A metadata pointer is a mapping of
    that file, so that all handles and processes share the structure;
  \<^item> \<open>chunk_heap\<close> holds the \<open>chunk_info_t\<close> objects by address and \<open>handles\<close> the
    \<open>log_handle_t\<close> objects; an address that is not there was freed.
  Pointers into the ring buffer (\<open>head\<close>, \<open>tail\<close>) are indices into \<open>buffer\<close>. The empty
  list stands for a \<open>buffer\<close> that is \<open>NULL\<close>: \<open>mmlog_open\<close> allocates at least two slots.
\<close>

section \<open>Structures\<close>

record log_metadata =
  version :: u32
  is_ready :: bool
  is_locked :: bool
  is_panicked :: bool
  file_size :: u64
  cursor :: u64
  page_size :: u32
  chunk_size :: u32

datatype chunk_ptr = Null | Pending | Ptr nat

record chunk_info =
  is_untracked :: bool
  start_offset :: u64
  csize :: u64
  mapping :: nat
  ref_count :: u32

record chunk_buffer =
  buffer :: "chunk_ptr list"
  capacity :: nat
  head :: "nat option"
  tail :: "nat option"
  head_locked :: bool

record log_handle =
  metadata_fd :: nat
  data_fd :: nat
  metadata :: "nat option"
  chunks :: chunk_buffer

text \<open>The two variables of \<open>files_open\<close> whose addresses are passed on.\<close>

datatype stack_var = FdMeta | FdData

record log_world = os +
  mmlog_errno :: mmlog_err
  cell :: "stack_var \<Rightarrow> nat option"
  clock :: "nat \<Rightarrow> (int \<times> int) option"
  ticks :: nat
  metas :: "nat \<Rightarrow> log_metadata"
  chunk_heap :: "nat \<rightharpoonup> chunk_info"
  next_chunk :: nat
  handles :: "nat \<rightharpoonup> log_handle"
  next_handle :: nat

type_synonym 'a log_act = "log_world \<Rightarrow> ('a \<times> log_world) option"

definition zero_metadata :: log_metadata where
  "zero_metadata = \<lparr>version = 0, is_ready = False, is_locked = False, is_panicked = False,
     file_size = 0, cursor = 0, page_size = 0, chunk_size = 0\<rparr>"

section \<open>Constants\<close>

definition LOG_PAGE_SIZE :: u64 where "LOG_PAGE_SIZE = 4096"
definition SLEEP_TIME_MAX_MS :: int where "SLEEP_TIME_MAX_MS = 10"
definition MMLOG_VERSION :: u32 where "MMLOG_VERSION = 1"
definition LOG_CURSOR_INVALID :: u64 where "LOG_CURSOR_INVALID = - 1"

text \<open>\<open>sizeof(log_metadata_t)\<close>: 4 + 3 bytes of flags, padded to 8, then 8 + 8 + 4 + 4.\<close>

definition sizeof_log_metadata :: nat where "sizeof_log_metadata = 32"

section \<open>Arithmetic\<close>

text \<open>
  The macro \<open>ALIGN(x, a)\<close> at its only use, \<open>ALIGN(end, metadata->chunk_size)\<close>: \<open>x\<close> is a
  \<open>uint64_t\<close> and \<open>a\<close> a \<open>uint32_t\<close>. The complement \<open>~((a) - 1)\<close> is therefore taken in
  32 bits and zero-extended before the conjunction.
\<close>

definition ALIGN :: "u64 \<Rightarrow> u32 \<Rightarrow> u64" where
  "ALIGN x a = (x + ucast a - 1) AND ucast (NOT (a - 1))"

definition mmlog_cross_count :: "u64 \<Rightarrow> u64 \<Rightarrow> u32 \<Rightarrow> u32" where
  "mmlog_cross_count start sz chunk_sz =
     (let end = start + sz;
          start_chunk_index = start div ucast chunk_sz;
          end_chunk_index = end div ucast chunk_sz
      in ucast (end_chunk_index - start_chunk_index))"

text \<open>\<open>is_cursor_in_chunk\<close>; reading a freed chunk does not return.\<close>

definition is_cursor_in_chunk :: "chunk_ptr \<Rightarrow> u64 \<Rightarrow> log_world \<Rightarrow> bool option" where
  "is_cursor_in_chunk p cur w =
     (case p of
        Null \<Rightarrow> Some False
      | Pending \<Rightarrow> Some False
      | Ptr a \<Rightarrow> map_option (\<lambda>c. start_offset c \<le> cur \<and> cur < start_offset c + csize c)
                  (chunk_heap w a))"

definition get_next_head_ptr :: "chunk_buffer \<Rightarrow> nat \<Rightarrow> nat" where
  "get_next_head_ptr cb head_ptr = (head_ptr + 1) mod capacity cb"

section \<open>Access to shared memory\<close>

text \<open>
  Dereferencing \<open>handle->metadata\<close>: the file behind the mapping. \<^const>\<open>None\<close> is a
  segmentation fault.
\<close>

definition meta_ino :: "nat option \<Rightarrow> log_world \<Rightarrow> nat option" where
  "meta_ino p w = (case p of None \<Rightarrow> None | Some m \<Rightarrow> map_option vm_ino (vmaps w m))"

definition set_errno :: "mmlog_err \<Rightarrow> log_world \<Rightarrow> log_world" where
  "set_errno e w = w\<lparr>mmlog_errno := e\<rparr>"

definition upd_meta :: "nat \<Rightarrow> (log_metadata \<Rightarrow> log_metadata) \<Rightarrow> log_world \<Rightarrow> log_world" where
  "upd_meta ino f w = w\<lparr>metas := (metas w)(ino := f (metas w ino))\<rparr>"

definition upd_chunks :: "nat \<Rightarrow> (chunk_buffer \<Rightarrow> chunk_buffer) \<Rightarrow> log_world \<Rightarrow> log_world" where
  "upd_chunks h f w =
     (case handles w h of
        None \<Rightarrow> w
      | Some hn \<Rightarrow> w\<lparr>handles := (handles w)(h \<mapsto> hn\<lparr>chunks := f (chunks hn)\<rparr>)\<rparr>)"

definition upd_chunk :: "nat \<Rightarrow> (chunk_info \<Rightarrow> chunk_info) \<Rightarrow> log_world \<Rightarrow> log_world" where
  "upd_chunk a f w =
     (case chunk_heap w a of
        None \<Rightarrow> w
      | Some c \<Rightarrow> w\<lparr>chunk_heap := (chunk_heap w)(a \<mapsto> f c)\<rparr>)"

section \<open>What the updates leave alone\<close>

lemma set_errno_frame [simp]:
  "dir (set_errno e w) = dir w" "inodes (set_errno e w) = inodes w"
  "next_ino (set_errno e w) = next_ino w" "fdtab (set_errno e w) = fdtab w"
  "next_fd (set_errno e w) = next_fd w" "vmaps (set_errno e w) = vmaps w"
  "next_map (set_errno e w) = next_map w" "faults (set_errno e w) = faults w"
  "cell (set_errno e w) = cell w" "clock (set_errno e w) = clock w"
  "ticks (set_errno e w) = ticks w" "metas (set_errno e w) = metas w"
  "chunk_heap (set_errno e w) = chunk_heap w" "next_chunk (set_errno e w) = next_chunk w"
  "handles (set_errno e w) = handles w" "next_handle (set_errno e w) = next_handle w"
  by (simp_all add: set_errno_def)

lemma upd_meta_frame [simp]:
  "dir (upd_meta i f w) = dir w" "inodes (upd_meta i f w) = inodes w"
  "next_ino (upd_meta i f w) = next_ino w" "fdtab (upd_meta i f w) = fdtab w"
  "next_fd (upd_meta i f w) = next_fd w" "vmaps (upd_meta i f w) = vmaps w"
  "next_map (upd_meta i f w) = next_map w" "faults (upd_meta i f w) = faults w"
  "mmlog_errno (upd_meta i f w) = mmlog_errno w" "cell (upd_meta i f w) = cell w"
  "clock (upd_meta i f w) = clock w" "ticks (upd_meta i f w) = ticks w"
  "chunk_heap (upd_meta i f w) = chunk_heap w" "next_chunk (upd_meta i f w) = next_chunk w"
  "handles (upd_meta i f w) = handles w" "next_handle (upd_meta i f w) = next_handle w"
  by (simp_all add: upd_meta_def)

lemma upd_chunks_frame [simp]:
  "dir (upd_chunks h f w) = dir w" "inodes (upd_chunks h f w) = inodes w"
  "next_ino (upd_chunks h f w) = next_ino w" "fdtab (upd_chunks h f w) = fdtab w"
  "next_fd (upd_chunks h f w) = next_fd w" "vmaps (upd_chunks h f w) = vmaps w"
  "next_map (upd_chunks h f w) = next_map w" "faults (upd_chunks h f w) = faults w"
  "mmlog_errno (upd_chunks h f w) = mmlog_errno w" "cell (upd_chunks h f w) = cell w"
  "clock (upd_chunks h f w) = clock w" "ticks (upd_chunks h f w) = ticks w"
  "metas (upd_chunks h f w) = metas w" "chunk_heap (upd_chunks h f w) = chunk_heap w"
  "next_chunk (upd_chunks h f w) = next_chunk w"
  "next_handle (upd_chunks h f w) = next_handle w"
  by (simp_all add: upd_chunks_def split: option.split)

lemma upd_chunk_frame [simp]:
  "dir (upd_chunk a f w) = dir w" "inodes (upd_chunk a f w) = inodes w"
  "next_ino (upd_chunk a f w) = next_ino w" "fdtab (upd_chunk a f w) = fdtab w"
  "next_fd (upd_chunk a f w) = next_fd w" "vmaps (upd_chunk a f w) = vmaps w"
  "next_map (upd_chunk a f w) = next_map w" "faults (upd_chunk a f w) = faults w"
  "mmlog_errno (upd_chunk a f w) = mmlog_errno w" "cell (upd_chunk a f w) = cell w"
  "clock (upd_chunk a f w) = clock w" "ticks (upd_chunk a f w) = ticks w"
  "metas (upd_chunk a f w) = metas w" "next_chunk (upd_chunk a f w) = next_chunk w"
  "handles (upd_chunk a f w) = handles w" "next_handle (upd_chunk a f w) = next_handle w"
  by (simp_all add: upd_chunk_def split: option.split)

lemma sys_close_world_frame [simp]:
  "mmlog_errno (sys_close fd w) = mmlog_errno w" "cell (sys_close fd w) = cell w"
  "clock (sys_close fd w) = clock w" "ticks (sys_close fd w) = ticks w"
  "metas (sys_close fd w) = metas w" "chunk_heap (sys_close fd w) = chunk_heap w"
  "next_chunk (sys_close fd w) = next_chunk w" "handles (sys_close fd w) = handles w"
  "next_handle (sys_close fd w) = next_handle w"
  by (simp_all add: sys_close_def)

lemma sys_munmap_world_frame [simp]:
  "mmlog_errno (sys_munmap m w) = mmlog_errno w" "cell (sys_munmap m w) = cell w"
  "clock (sys_munmap m w) = clock w" "ticks (sys_munmap m w) = ticks w"
  "metas (sys_munmap m w) = metas w" "chunk_heap (sys_munmap m w) = chunk_heap w"
  "next_chunk (sys_munmap m w) = next_chunk w" "handles (sys_munmap m w) = handles w"
  "next_handle (sys_munmap m w) = next_handle w"
  by (simp_all add: sys_munmap_def)

lemma mmlog_errno_set [simp]: "mmlog_errno (set_errno e w) = e"
  by (simp add: set_errno_def)

lemma metas_upd_meta [simp]: "metas (upd_meta i f w) = (metas w)(i := f (metas w i))"
  by (simp add: upd_meta_def)

lemma handles_upd_chunks [simp]:
  "handles w h = Some hn \<Longrightarrow>
     handles (upd_chunks h f w) = (handles w)(h \<mapsto> hn\<lparr>chunks := f (chunks hn)\<rparr>)"
  by (simp add: upd_chunks_def)

lemma chunk_heap_upd_chunk [simp]:
  "chunk_heap w a = Some c \<Longrightarrow> chunk_heap (upd_chunk a f w) = (chunk_heap w)(a \<mapsto> f c)"
  by (simp add: upd_chunk_def)

lemma meta_ino_cong: "vmaps w = vmaps w' \<Longrightarrow> meta_ino p w = meta_ino p w'"
  by (cases p) (simp_all add: meta_ino_def)

lemma meta_ino_frame [simp]:
  "meta_ino p (set_errno e w) = meta_ino p w"
  "meta_ino p (upd_meta i f w) = meta_ino p w"
  "meta_ino p (upd_chunks h g w) = meta_ino p w"
  "meta_ino p (upd_chunk a k w) = meta_ino p w"
  "meta_ino p (w\<lparr>inodes := x1\<rparr>) = meta_ino p w"
  "meta_ino p (w\<lparr>metas := x2\<rparr>) = meta_ino p w"
  "meta_ino p (w\<lparr>faults := x3\<rparr>) = meta_ino p w"
  "meta_ino p (w\<lparr>handles := x4\<rparr>) = meta_ino p w"
  "meta_ino p (w\<lparr>chunk_heap := x5\<rparr>) = meta_ino p w"
  "meta_ino p (w\<lparr>cell := x6\<rparr>) = meta_ino p w"
  by (rule meta_ino_cong; simp)+

lemma more_world_cong:
  assumes "os.more (w :: log_world) = os.more w'"
  shows "mmlog_errno w = mmlog_errno w'" "cell w = cell w'" "clock w = clock w'" "ticks w = ticks w'"
    "metas w = metas w'" "chunk_heap w = chunk_heap w'" "next_chunk w = next_chunk w'"
    "handles w = handles w'" "next_handle w = next_handle w'"
  using assms by (cases w; cases w'; simp)+

lemma sys_ftruncate_world:
  assumes "sys_ftruncate fd len (w :: log_world) = (b, w')"
  shows "clock w' = clock w" "ticks w' = ticks w" "handles w' = handles w" "metas w' = metas w"
    "meta_ino p w' = meta_ino p w" "mmlog_errno w' = mmlog_errno w"
  using sys_ftruncate_frame [OF assms] more_world_cong [of w' w] meta_ino_cong [of w' w] by simp_all

section \<open>Worlds up to the error number and the clock\<close>

text \<open>A world without what a call may change freely: the error number and the clock position.\<close>

definition core :: "log_world \<Rightarrow> log_world" where
  "core w = w\<lparr>mmlog_errno := MMLOG_ERR_OK, ticks := 0\<rparr>"

lemma core_set_errno [simp]: "core (set_errno e w) = core w"
  by (simp add: core_def set_errno_def)

lemma core_frame [simp]:
  "dir (core w) = dir w" "inodes (core w) = inodes w" "next_ino (core w) = next_ino w"
  "fdtab (core w) = fdtab w" "next_fd (core w) = next_fd w" "vmaps (core w) = vmaps w"
  "next_map (core w) = next_map w" "faults (core w) = faults w" "cell (core w) = cell w"
  "clock (core w) = clock w" "metas (core w) = metas w" "chunk_heap (core w) = chunk_heap w"
  "next_chunk (core w) = next_chunk w" "handles (core w) = handles w"
  "next_handle (core w) = next_handle w" "meta_ino p (core w) = meta_ino p w"
  by (simp_all add: core_def meta_ino_def split: option.splits)

lemma core_updates [simp]:
  "core (w\<lparr>inodes := x1\<rparr>) = (core w)\<lparr>inodes := x1\<rparr>"
  "core (w\<lparr>vmaps := x2\<rparr>) = (core w)\<lparr>vmaps := x2\<rparr>"
  "core (w\<lparr>next_map := x3\<rparr>) = (core w)\<lparr>next_map := x3\<rparr>"
  "core (w\<lparr>metas := x4\<rparr>) = (core w)\<lparr>metas := x4\<rparr>"
  "core (w\<lparr>chunk_heap := x5\<rparr>) = (core w)\<lparr>chunk_heap := x5\<rparr>"
  "core (w\<lparr>next_chunk := x6\<rparr>) = (core w)\<lparr>next_chunk := x6\<rparr>"
  "core (w\<lparr>handles := x7\<rparr>) = (core w)\<lparr>handles := x7\<rparr>"
  "core (upd_meta i f w) = upd_meta i f (core w)"
  "core (upd_chunks h g w) = upd_chunks h g (core w)"
  "core (upd_chunk a k w) = upd_chunk a k (core w)"
  by (simp_all add: core_def upd_meta_def upd_chunks_def upd_chunk_def split: option.splits)

lemma core_eqD:
  assumes "core w = core v"
  shows "inodes w = inodes v" "metas w = metas v" "fdtab w = fdtab v" "faults w = faults v"
    "handles w = handles v" "vmaps w = vmaps v" "chunk_heap w = chunk_heap v"
  by (metis assms core_frame)+

section \<open>Properties of the arithmetic\<close>

lemma unat_cross_count:
  assumes "unat start + unat sz < 2 ^ 64" and "0 < unat cs"
    and "(unat start + unat sz) div unat cs - unat start div unat cs < 2 ^ 32"
  shows "unat (mmlog_cross_count start sz cs) =
           (unat start + unat sz) div unat cs - unat start div unat cs"
proof -
  have e: "unat (start + sz) = unat start + unat sz"
    using assms(1) by (intro unat_add_no_wrap) simp
  have "unat start div unat cs \<le> (unat start + unat sz) div unat cs"
    by (rule div_le_mono) simp
  then have "unat ((start + sz) div ucast cs - start div ucast cs) =
      (unat start + unat sz) div unat cs - unat start div unat cs"
    by (subst unat_sub_le) (simp_all add: unat_div e)
  with assms(3) show ?thesis
    by (simp add: mmlog_cross_count_def Let_def unsigned_ucast_eq take_bit_nat_eq_self)
qed

text \<open>
  As long as the sum stays below \<open>2 ^ 32\<close>, \<open>ALIGN\<close> rounds up: the result is at least
  \<open>x\<close> and less than \<open>x + a\<close>, for every non-zero \<open>a\<close>.
\<close>

lemma ALIGN_sum:
  fixes x :: u64 and a :: u32
  assumes "0 < unat a" and "unat x + unat a - 1 < 2 ^ 32"
  shows "unat (x + ucast a - 1) = unat x + unat a - 1"
proof -
  have s: "unat (x + ucast a) = unat x + unat a"
    using assms(2) by (intro trans [OF unat_add_no_wrap]) simp_all
  have "unat (x + ucast a - 1) = unat (x + ucast a) - unat (1 :: u64)"
    using assms(1) by (intro unat_sub_le) (simp add: s)
  then show ?thesis by (simp add: s)
qed

lemma ALIGN_low:
  fixes y :: u64 and m :: u32
  assumes "unat y < 2 ^ 32"
  shows "y AND ucast (NOT m) = y AND NOT (ucast m)"
proof (rule bit_eqI)
  fix n
  have "\<not> bit y n" if "32 \<le> n"
  proof -
    have "take_bit 32 y = y"
      using assms by (simp add: word_unat_eq_iff unsigned_take_bit_eq take_bit_nat_eq_self)
    then show ?thesis
      using that by (metis bit_take_bit_iff linorder_not_less)
  qed
  then show "bit (y AND ucast (NOT m)) n \<longleftrightarrow> bit (y AND NOT (ucast m)) n"
    by (cases "n < 32") (auto simp: bit_simps)
qed

lemma ALIGN_bounds:
  assumes "0 < unat a" and "unat x + unat a - 1 < 2 ^ 32"
  shows "unat x \<le> unat (ALIGN x a) \<and> unat (ALIGN x a) < unat x + unat a"
proof -
  let ?y = "x + ucast a - 1"
  have y: "unat ?y = unat x + unat a - 1"
    using assms by (rule ALIGN_sum)
  have m: "unat (ucast (a - 1) :: u64) = unat a - 1"
    using assms(1) by (simp add: unat_sub_le)
  have "ALIGN x a = ?y AND NOT (ucast (a - 1))"
    using assms(2) by (simp add: ALIGN_def ALIGN_low y)
  then have "unat (ALIGN x a) = unat ?y - unat (?y AND ucast (a - 1))"
    by (simp add: unat_and_not)
  moreover have "unat (?y AND ucast (a - 1)) \<le> unat a - 1"
    using unat_and_le2 [of ?y "ucast (a - 1)"] by (simp only: m)
  ultimately show ?thesis
    using assms(1) y by arith
qed

lemma ALIGN_eq_low:
  assumes "0 < unat a" and "unat x + unat a - 1 < 2 ^ 32"
  shows "ALIGN x a = (x + ucast a - 1) AND NOT (ucast (a - 1))"
  using ALIGN_low [of "x + ucast a - 1" "a - 1"] ALIGN_sum [OF assms] assms(2) by (simp add: ALIGN_def)

lemma ALIGN_lt: "unat (ALIGN x a) < 2 ^ 32"
proof -
  have "unat (ALIGN x a) \<le> unat (ucast (NOT (a - 1)) :: u64)"
    unfolding ALIGN_def by (rule unat_and_le2)
  also have "\<dots> < 2 ^ 32" by simp
  finally show ?thesis .
qed

end
