(* ===== verification/Mmlog_Wait.thy ===== *)
theory Mmlog_Wait
  imports Mmlog_State
begin

text \<open>
  Waiting with a deadline: \<open>ms_since_epoch_monotonic\<close> and \<open>hot_wait_for_cond\<close>, the polling
  loop behind every lock and every readiness check of the log.

  The clock of a world is the sequence of all future readings of \<open>clock_gettime\<close>
  (seconds and nanoseconds, \<^const>\<open>None\<close> when the call fails) and \<open>ticks\<close> says how many
  were taken. \<open>sched_yield\<close> lets everybody else run: the parameter \<open>env\<close> is what they do
  meanwhile to all that is shared, that is to everything but the calling thread's
  error number, its stack variables and its view of the clock. The loop may not end, so its result is an
  option. The locale \<open>polling\<close> is the contract between the loop and the conditions it
  is used with: a condition that always answers, under an invariant that others
  respect, makes the loop return as soon as the clock passes the deadline.
\<close>

section \<open>Definitions\<close>

definition ms_since_epoch_monotonic :: "log_world \<Rightarrow> int \<times> log_world" where
  "ms_since_epoch_monotonic w =
     (let w' = w\<lparr>ticks := Suc (ticks w)\<rparr>
      in case clock w (ticks w) of
           None \<Rightarrow> (-1, set_errno MMLOG_ERR_CLOCK_GETTIMEOFDAY w')
         | Some (tv_sec, tv_nsec) \<Rightarrow> (tv_sec * 1000 + tv_nsec div 1000000, w'))"

definition sched_yield :: "(log_world \<Rightarrow> log_world) \<Rightarrow> log_world \<Rightarrow> log_world" where
  "sched_yield env w =
     (env w)\<lparr>mmlog_errno := mmlog_errno w, cell := cell w, clock := clock w, ticks := ticks w\<rparr>"

partial_function (option) hot_wait_loop ::
  "bool log_act \<Rightarrow> (log_world \<Rightarrow> log_world) \<Rightarrow> int \<Rightarrow> int \<Rightarrow> int \<Rightarrow> bool log_act" where
  "hot_wait_loop cond env start_time timeout_ms cur_time w =
     (if cur_time - start_time < timeout_ms
      then Option.bind (cond w) (\<lambda>(b, w).
             if b then Some (True, w)
             else (case ms_since_epoch_monotonic (sched_yield env w) of
                     (cur_time, w) \<Rightarrow> hot_wait_loop cond env start_time timeout_ms cur_time w))
      else Some (False, w))"

definition hot_wait_for_cond ::
  "bool log_act \<Rightarrow> (log_world \<Rightarrow> log_world) \<Rightarrow> int \<Rightarrow> bool log_act" where
  "hot_wait_for_cond cond env timeout_ms w =
     (case ms_since_epoch_monotonic w of
        (start_time, w) \<Rightarrow> hot_wait_loop cond env start_time timeout_ms start_time w)"

text \<open>The reading that the \<open>n\<close>-th call of the clock returns.\<close>

definition ms_at :: "log_world \<Rightarrow> nat \<Rightarrow> int" where
  "ms_at w n = (case clock w n of None \<Rightarrow> -1
                | Some (tv_sec, tv_nsec) \<Rightarrow> tv_sec * 1000 + tv_nsec div 1000000)"

definition tick :: "log_world \<Rightarrow> log_world" where
  "tick w = (case clock w (ticks w) of
       None \<Rightarrow> set_errno MMLOG_ERR_CLOCK_GETTIMEOFDAY (w\<lparr>ticks := Suc (ticks w)\<rparr>)
     | Some _ \<Rightarrow> w\<lparr>ticks := Suc (ticks w)\<rparr>)"

section \<open>Reading the clock\<close>

lemma ms_since_epoch_eq: "ms_since_epoch_monotonic w = (ms_at w (ticks w), tick w)"
  by (auto simp: ms_since_epoch_monotonic_def ms_at_def tick_def Let_def split: option.splits)

lemma tick_simps [simp]:
  "cell (tick w) = cell w" "clock (tick w) = clock w" "ticks (tick w) = Suc (ticks w)"
  "dir (tick w) = dir w" "inodes (tick w) = inodes w" "next_ino (tick w) = next_ino w"
  "fdtab (tick w) = fdtab w" "next_fd (tick w) = next_fd w" "vmaps (tick w) = vmaps w"
  "next_map (tick w) = next_map w" "faults (tick w) = faults w" "metas (tick w) = metas w"
  "chunk_heap (tick w) = chunk_heap w" "next_chunk (tick w) = next_chunk w"
  "handles (tick w) = handles w" "next_handle (tick w) = next_handle w"
  by (auto simp: tick_def set_errno_def split: option.splits)

lemma meta_ino_tick [simp]: "meta_ino p (tick w) = meta_ino p w"
  by (rule meta_ino_cong) simp

lemma core_tick [simp]: "core (tick w) = core w"
  by (simp add: core_def tick_def set_errno_def split: option.splits)

lemma sched_yield_clock [simp]:
  "clock (sched_yield env w) = clock w" "ticks (sched_yield env w) = ticks w"
  "mmlog_errno (sched_yield env w) = mmlog_errno w" "cell (sched_yield env w) = cell w"
  by (simp_all add: sched_yield_def)

lemma hot_wait_loop_unfold:
  "hot_wait_loop cond env t0 tmo cur w =
     (if cur - t0 < tmo
      then Option.bind (cond w) (\<lambda>(b, w').
             if b then Some (True, w')
             else hot_wait_loop cond env t0 tmo (ms_at w' (ticks w')) (tick (sched_yield env w')))
      else Some (False, w))"
  by (subst hot_wait_loop.simps) (simp add: ms_since_epoch_eq ms_at_def cong: if_cong)

lemma hot_wait_for_cond_eq:
  "hot_wait_for_cond cond env tmo w =
     hot_wait_loop cond env (ms_at w (ticks w)) tmo (ms_at w (ticks w)) (tick w)"
  by (simp add: hot_wait_for_cond_def ms_since_epoch_eq)

text \<open>
  The condition is evaluated at least once, before any deadline: one that holds at
  once makes the wait succeed whatever the clock says and whoever else runs.
\<close>

lemma hot_wait_first:
  assumes "0 < tmo" and "cond (tick w) = Some (True, w')"
  shows "hot_wait_for_cond cond env tmo w = Some (True, w')"
  using assms by (simp add: hot_wait_for_cond_eq hot_wait_loop_unfold [of _ _ _ _ _ "tick w"])

lemma hot_wait_crash:
  assumes "0 < tmo" and "cond (tick w) = None"
  shows "hot_wait_for_cond cond env tmo w = None"
  using assms by (simp add: hot_wait_for_cond_eq hot_wait_loop_unfold [of _ _ _ _ _ "tick w"])

text \<open>A wait that says yes ends in a poll that said yes.\<close>

lemma hot_wait_loop_True:
  assumes "hot_wait_loop cond env t0 tmo cur w = Some (b, w')" and b
  shows "\<exists>v. cond v = Some (True, w')"
proof -
  have "fst (b, w') \<longrightarrow> (\<exists>v. cond v = Some (True, snd (b, w')))"
    by (rule hot_wait_loop.raw_induct
          [where P = "\<lambda>c e t0 tmo cur w r. fst r \<longrightarrow> (\<exists>v. c v = Some (True, snd r))",
           OF _ assms(1)])
      (auto simp: bind_Some_iff ms_since_epoch_eq split: if_splits)
  with assms(2) show ?thesis by auto
qed

lemma hot_wait_True:
  assumes "hot_wait_for_cond cond env tmo w = Some (True, w')"
  shows "\<exists>v. cond v = Some (True, w')"
  using assms hot_wait_loop_True by (auto simp: hot_wait_for_cond_eq)

section \<open>The contract between the loop and its conditions\<close>

text \<open>The poll answered, keeping the invariant and not touching the clock.\<close>

definition answers :: "(log_world \<Rightarrow> bool) \<Rightarrow> log_world \<Rightarrow> (bool \<times> log_world) option \<Rightarrow> bool" where
  "answers I w r \<longleftrightarrow>
     (case r of None \<Rightarrow> False | Some (b, w') \<Rightarrow> I w' \<and> clock w' = clock w \<and> ticks w' = ticks w)"

lemma answersE:
  assumes "answers I w r"
  obtains b w' where "r = Some (b, w')" "I w'" "clock w' = clock w" "ticks w' = ticks w"
  using assms by (auto simp: answers_def split: option.splits)

locale polling =
  fixes cond :: "bool log_act"
    and env :: "log_world \<Rightarrow> log_world"
    and inv :: "log_world \<Rightarrow> bool"
  assumes cond_answers: "inv w \<Longrightarrow> answers inv w (cond w)"
    and env_inv: "inv w \<Longrightarrow> inv (sched_yield env w)"
    and tick_inv: "inv w \<Longrightarrow> inv (tick w)"
begin

lemma loop_returns:
  assumes "inv w" and "tmo \<le> ms_at w (ticks w + n) - t0"
  shows "\<exists>b w'. hot_wait_loop cond env t0 tmo cur w = Some (b, w') \<and> inv w'"
  using assms
proof (induction n arbitrary: w cur)
  case (0 w cur)
  obtain b w1 where c: "cond w = Some (b, w1)" "inv w1" "clock w1 = clock w" "ticks w1 = ticks w"
    using cond_answers [OF "0.prems"(1)] by (rule answersE)
  have "hot_wait_loop cond env t0 tmo (ms_at w1 (ticks w1)) v = Some (False, v)" for v
    using "0.prems"(2) c by (subst hot_wait_loop_unfold) (simp add: ms_at_def)
  with c "0.prems"(1) show ?case
    by (subst hot_wait_loop_unfold) (auto intro: env_inv tick_inv)
next
  case (Suc n w cur)
  obtain b w1 where c: "cond w = Some (b, w1)" "inv w1" "clock w1 = clock w" "ticks w1 = ticks w"
    using cond_answers [OF Suc.prems(1)] by (rule answersE)
  let ?w2 = "tick (sched_yield env w1)"
  have "inv ?w2" and "tmo \<le> ms_at ?w2 (ticks ?w2 + n) - t0"
    using c Suc.prems(2) by (auto intro: env_inv tick_inv simp: ms_at_def)
  from Suc.IH [OF this] c(1,2) Suc.prems(1) show ?case
    by (subst hot_wait_loop_unfold) auto
qed

lemma wait_returns:
  assumes "inv w" and "ms_at w (ticks w) + tmo \<le> ms_at w (ticks w + n)"
  shows "\<exists>b w'. hot_wait_for_cond cond env tmo w = Some (b, w') \<and> inv w'"
proof (cases n)
  case 0
  with assms have "\<not> 0 < tmo" by simp
  with assms(1) show ?thesis
    by (auto simp: hot_wait_for_cond_eq hot_wait_loop_unfold [of _ _ _ _ _ "tick w"] intro: tick_inv)
next
  case (Suc k)
  have "tmo \<le> ms_at (tick w) (ticks (tick w) + k) - ms_at w (ticks w)"
    using assms(2) Suc by (simp add: ms_at_def)
  with assms(1) show ?thesis
    unfolding hot_wait_for_cond_eq by (blast intro: loop_returns tick_inv)
qed

end

text \<open>A condition that is never true makes the wait end in failure at the deadline.\<close>

locale polling_refused = polling +
  assumes refused: "inv w \<Longrightarrow> cond w = Some (b, w') \<Longrightarrow> \<not> b"
begin

lemma refusedE:
  assumes "inv w"
  obtains w' where "cond w = Some (False, w')" "inv w'" "clock w' = clock w" "ticks w' = ticks w"
  using cond_answers [OF assms] refused [OF assms] by (fastforce elim: answersE)

lemma loop_refused:
  assumes "inv w" and "tmo \<le> ms_at w (ticks w + n) - t0"
  shows "\<exists>w'. hot_wait_loop cond env t0 tmo cur w = Some (False, w') \<and> inv w'"
  using assms
proof (induction n arbitrary: w cur)
  case (0 w cur)
  obtain w1 where c: "cond w = Some (False, w1)" "inv w1" "clock w1 = clock w" "ticks w1 = ticks w"
    using "0.prems"(1) by (rule refusedE)
  have "hot_wait_loop cond env t0 tmo (ms_at w1 (ticks w1)) v = Some (False, v)" for v
    using "0.prems"(2) c by (subst hot_wait_loop_unfold) (simp add: ms_at_def)
  with c "0.prems"(1) show ?case
    by (subst hot_wait_loop_unfold) (auto intro: env_inv tick_inv)
next
  case (Suc n w cur)
  obtain w1 where c: "cond w = Some (False, w1)" "inv w1" "clock w1 = clock w" "ticks w1 = ticks w"
    using Suc.prems(1) by (rule refusedE)
  let ?w2 = "tick (sched_yield env w1)"
  have "inv ?w2" and "tmo \<le> ms_at ?w2 (ticks ?w2 + n) - t0"
    using c Suc.prems(2) by (auto intro: env_inv tick_inv simp: ms_at_def)
  from Suc.IH [OF this] c(1,2) Suc.prems(1) show ?case
    by (subst hot_wait_loop_unfold) auto
qed

lemma wait_refused:
  assumes "inv w" and "0 < tmo" and "ms_at w (ticks w) + tmo \<le> ms_at w (ticks w + n)"
  shows "\<exists>w'. hot_wait_for_cond cond env tmo w = Some (False, w') \<and> inv w'"
proof (cases n)
  case 0
  with assms show ?thesis by simp
next
  case (Suc k)
  have "tmo \<le> ms_at (tick w) (ticks (tick w) + k) - ms_at w (ticks w)"
    using assms(3) Suc by (simp add: ms_at_def)
  with assms(1) show ?thesis
    unfolding hot_wait_for_cond_eq by (blast intro: loop_refused tick_inv)
qed

end

section \<open>Environments\<close>

text \<open>An environment cut down to the steps that keep \<open>I\<close>; one that always keeps it is not changed.\<close>

definition respect :: "(log_world \<Rightarrow> bool) \<Rightarrow> (log_world \<Rightarrow> log_world) \<Rightarrow> log_world \<Rightarrow> log_world" where
  "respect I e w = (if I (sched_yield e w) then e w else w)"

lemma respect_inv: "I w \<Longrightarrow> I (sched_yield (respect I e) w)"
  by (simp add: sched_yield_def respect_def)

section \<open>A clock that fails for ever\<close>

text \<open>
  When \<open>clock_gettime\<close> keeps failing, every reading is \<open>-1\<close>, no time ever passes and a
  condition that stays false makes the loop spin for ever.
\<close>

context polling_refused
begin

lemma loop_stuck:
  assumes "hot_wait_loop cond env t0 tmo cur w = Some r"
    and "inv w" and "\<forall>n. clock w n = None" and "0 < tmo" and "t0 = -1" and "cur = -1"
  shows False
proof -
  have "cond = cond \<longrightarrow> env = env \<longrightarrow> inv w \<longrightarrow> (\<forall>n. clock w n = None) \<longrightarrow> 0 < tmo \<longrightarrow> t0 = -1 \<longrightarrow> cur = -1 \<longrightarrow> False"
  proof (rule hot_wait_loop.raw_induct
      [where P = "\<lambda>c e t0 tmo cur w r. c = cond \<longrightarrow> e = env \<longrightarrow> inv w \<longrightarrow>
          (\<forall>n. clock w n = None) \<longrightarrow> 0 < tmo \<longrightarrow> t0 = -1 \<longrightarrow> cur = -1 \<longrightarrow> False",
       OF _ assms(1)], intro impI)
    fix f c e w r and t0 tmo cur :: int
    assume IH: "\<And>c e t0 tmo cur w r. f c e t0 tmo cur w = Some r \<Longrightarrow>
        c = cond \<longrightarrow> e = env \<longrightarrow> inv w \<longrightarrow>
        (\<forall>n. clock w n = None) \<longrightarrow> 0 < tmo \<longrightarrow> t0 = -1 \<longrightarrow> cur = -1 \<longrightarrow> False"
      and eq: "(if cur - t0 < tmo
        then Option.bind (c w) (\<lambda>(b, w). if b then Some (True, w)
               else case ms_since_epoch_monotonic (sched_yield e w) of
                      (cur, w) \<Rightarrow> f c e t0 tmo cur w)
        else Some (False, w)) = Some r"
      and ce: "c = cond" "e = env" and iw: "inv w"
      and clk: "\<forall>n. clock w n = None" and t: "0 < tmo" "t0 = -1" "cur = -1"
    obtain w1 where w1: "cond w = Some (False, w1)" "inv w1" "clock w1 = clock w"
      using iw by (rule refusedE)
    have "cur - t0 < tmo" using t by simp
    then have "f c e t0 tmo (-1) (tick (sched_yield e w1)) = Some r"
      using eq by (simp add: w1 ce clk ms_since_epoch_eq ms_at_def)
    then show False
      by (rule IH [rule_format]) (use ce clk t w1 in \<open>auto intro: tick_inv env_inv\<close>)
  qed
  with assms(2-) show False by blast
qed

lemma wait_stuck:
  assumes "inv w" and "\<forall>n. clock w n = None" and "0 < tmo"
  shows "hot_wait_for_cond cond env tmo w = None"
proof (rule ccontr)
  assume "hot_wait_for_cond cond env tmo w \<noteq> None"
  then obtain r where "hot_wait_loop cond env (-1) tmo (-1) (tick w) = Some r"
    using assms(2) by (auto simp: hot_wait_for_cond_eq ms_at_def)
  then show False
    using loop_stuck assms by (metis tick_inv tick_simps(2))
qed

end

end
