(* ===== verification/Mmlog_Files.thy ===== *)
theory Mmlog_Files
  imports Mmlog_Wait
begin

text \<open>
  Opening a log: \<open>files_create\<close>, \<open>files_open\<close>, \<open>files_open_or_create\<close> and \<open>mmlog_open\<close>.
  The process that creates the metadata file (an exclusive create) initialises both
  files and raises \<open>is_ready\<close> last; everybody else polls for the files and the flag.
  The lemmas give the result of every path, what the failing ones release, and that a
  log opened after its creation shows the creator's metadata.
\<close>

section \<open>Creating the files\<close>

definition files_create_cleanup :: "nat option \<Rightarrow> nat option \<Rightarrow> bool log_act" where
  "files_create_cleanup mptr fd_data w =
     (let w = (case mptr of None \<Rightarrow> w | Some m \<Rightarrow> sys_munmap m w);
          w = (case fd_data of None \<Rightarrow> w | Some fd \<Rightarrow> sys_close fd w)
      in Some (False, w))"

definition files_create :: "nat \<Rightarrow> string \<Rightarrow> u32 \<Rightarrow> nat \<Rightarrow> bool log_act" where
  "files_create fd_meta filename chunk_sz h w =
     (case sys_ftruncate fd_meta (of_nat sizeof_log_metadata) (set_errno MMLOG_ERR_OK w) of
        (False, w) \<Rightarrow>
          files_create_cleanup None None (set_errno MMLOG_ERR_FILES_CREATE_FTRUNCATE_MDATA w)
      | (True, w) \<Rightarrow>
          (case sys_mmap fd_meta sizeof_log_metadata 0 w of
             (None, w) \<Rightarrow>
               files_create_cleanup None None (set_errno MMLOG_ERR_FILES_CREATE_MMAP_MDATA w)
           | (Some m, w) \<Rightarrow> do {
               ino \<leftarrow> meta_ino (Some m) w;
               let w = upd_meta ino (\<lambda>md. md\<lparr>version := MMLOG_VERSION,
                          page_size := ucast LOG_PAGE_SIZE, chunk_size := chunk_sz\<rparr>) w;
               (case sys_open_creat filename w of
                  (None, w) \<Rightarrow>
                    files_create_cleanup (Some m) None (set_errno MMLOG_ERR_FILES_CREATE_OPEN_DATA w)
                | (Some fd_data, w) \<Rightarrow>
                    (case sys_ftruncate fd_data 0 w of
                       (False, w) \<Rightarrow>
                         files_create_cleanup (Some m) (Some fd_data)
                           (set_errno MMLOG_ERR_FILES_CREATE_FTRUNCATE_DATA w)
                     | (True, w) \<Rightarrow>
                         (case sys_ftruncate fd_data (ucast chunk_sz) w of
                            (False, w) \<Rightarrow>
                              files_create_cleanup (Some m) (Some fd_data)
                                (set_errno MMLOG_ERR_FILES_CREATE_FTRUNCATE_DATA w)
                          | (True, w) \<Rightarrow> do {
                              hn \<leftarrow> handles w h;
                              let w = w\<lparr>handles := (handles w)(h \<mapsto>
                                   hn\<lparr>metadata := Some m, data_fd := fd_data, metadata_fd := fd_meta\<rparr>)\<rparr>;
                              let w = upd_meta ino (\<lambda>md. md\<lparr>file_size := ucast chunk_sz\<rparr>) w;
                              let w = upd_meta ino (\<lambda>md. md\<lparr>is_ready := True\<rparr>) w;
                              Some (True, w)
                            })))
             }))"

section \<open>Opening existing files\<close>

definition check_size :: "nat \<Rightarrow> nat \<Rightarrow> bool log_act" where
  "check_size fd sz w =
     (case sys_fstat fd w of
        (None, w) \<Rightarrow> Some (False, set_errno MMLOG_ERR_TRY_CHECK_FILE_READY_FSTAT w)
      | (Some st_size, w) \<Rightarrow>
          if st_size < sz
          then Some (False, set_errno MMLOG_ERR_TRY_CHECK_FILE_READY_FSTAT w)
          else Some (True, w))"

definition try_check_file_ready :: "stack_var \<Rightarrow> string \<Rightarrow> nat \<Rightarrow> bool log_act" where
  "try_check_file_ready v filename sz w =
     (case cell w v of
        None \<Rightarrow>
          (case sys_open filename w of
             (None, w) \<Rightarrow> Some (False, set_errno MMLOG_ERR_TRY_CHECK_FILE_READY_OPEN w)
           | (Some fd, w) \<Rightarrow> check_size fd sz (w\<lparr>cell := (cell w)(v \<mapsto> fd)\<rparr>))
      | Some fd \<Rightarrow> check_size fd sz w)"

definition try_check_metadata_ready :: "nat \<Rightarrow> bool log_act" where
  "try_check_metadata_ready m w = do {
     ino \<leftarrow> meta_ino (Some m) w;
     Some (is_ready (metas w ino), w)
   }"

definition files_open_cleanup :: "nat option \<Rightarrow> bool log_act" where
  "files_open_cleanup mptr w =
     (let w = (case mptr of None \<Rightarrow> w | Some m \<Rightarrow> sys_munmap m w);
          w = (case cell w FdData of None \<Rightarrow> w | Some fd \<Rightarrow> sys_close fd w);
          w = (case cell w FdMeta of None \<Rightarrow> w | Some fd \<Rightarrow> sys_close fd w)
      in Some (False, w))"

text \<open>The error number of a failed poll, renamed by its caller.\<close>

definition rename_errno :: "mmlog_err \<Rightarrow> mmlog_err \<Rightarrow> log_world \<Rightarrow> log_world" where
  "rename_errno on_open on_fstat w =
     (if mmlog_errno w = MMLOG_ERR_TRY_CHECK_FILE_READY_OPEN then set_errno on_open w
      else if mmlog_errno w = MMLOG_ERR_TRY_CHECK_FILE_READY_FSTAT then set_errno on_fstat w
      else w)"

text \<open>
  \<open>files_open\<close>. The size expected of the data file is read from the metadata right
  after \<open>mmap\<close>, before its result is compared with \<open>MAP_FAILED\<close>: a failed \<open>mmap\<close> ends
  the process there, and the comparison below it is never reached with \<open>MAP_FAILED\<close>.
\<close>

definition files_open :: "(log_world \<Rightarrow> log_world) \<Rightarrow> string \<Rightarrow> string \<Rightarrow> nat \<Rightarrow> bool log_act" where
  "files_open env filename meta_filename h w = do {
     let w = (set_errno MMLOG_ERR_OK w)\<lparr>cell := (\<lambda>_. None)\<rparr>;
     hn \<leftarrow> handles w h;
     let metadata0 = metadata hn;
     (ok, w) \<leftarrow> hot_wait_for_cond (try_check_file_ready FdMeta meta_filename sizeof_log_metadata)
                  env SLEEP_TIME_MAX_MS w;
     if \<not> ok
     then files_open_cleanup metadata0
            (rename_errno MMLOG_ERR_FILES_OPEN_MDATA_READY_OPEN
               MMLOG_ERR_FILES_OPEN_MDATA_READY_FSTAT w)
     else
       (case (case cell w FdMeta of
                None \<Rightarrow> (None, w) | Some fd \<Rightarrow> sys_mmap fd sizeof_log_metadata 0 w) of
          (None, w) \<Rightarrow> None
        | (Some m, w) \<Rightarrow> do {
            ino \<leftarrow> meta_ino (Some m) w;
            let data_size = unat (chunk_size (metas w ino));
            (ok, w) \<leftarrow> hot_wait_for_cond (try_check_metadata_ready m) env SLEEP_TIME_MAX_MS w;
            if \<not> ok
            then files_open_cleanup (Some m) (set_errno MMLOG_ERR_FILES_OPEN_MDATA_READY w)
            else do {
              ino \<leftarrow> meta_ino (Some m) w;
              if version (metas w ino) \<noteq> MMLOG_VERSION
              then files_open_cleanup (Some m) (set_errno MMLOG_ERR_FILES_OPEN_VERSION w)
              else do {
                (ok, w) \<leftarrow> hot_wait_for_cond (try_check_file_ready FdData filename data_size)
                             env SLEEP_TIME_MAX_MS w;
                if \<not> ok
                then files_open_cleanup (Some m)
                       (rename_errno MMLOG_ERR_FILES_OPEN_DATA_READY_OPEN
                          MMLOG_ERR_FILES_OPEN_DATA_READY_FSTAT w)
                else do {
                  hn \<leftarrow> handles w h;
                  fd_meta \<leftarrow> cell w FdMeta;
                  fd_data \<leftarrow> cell w FdData;
                  Some (True, w\<lparr>handles := (handles w)(h \<mapsto>
                     hn\<lparr>metadata_fd := fd_meta, data_fd := fd_data, metadata := Some m\<rparr>)\<rparr>)
                }
              }
            }
          })
   }"

section \<open>Opening or creating\<close>

definition meta_suffix :: string where
  "meta_suffix = ''.mmlog''"

definition files_open_or_create ::
  "(log_world \<Rightarrow> log_world) \<Rightarrow> string option \<Rightarrow> u32 \<Rightarrow> nat option \<Rightarrow> bool log_act" where
  "files_open_or_create env filename chunk_sz handle w =
     (let w = set_errno MMLOG_ERR_OK w
      in case (filename, handle) of
           (Some name, Some h) \<Rightarrow>
             if name = [] \<or> chunk_sz = 0 \<or> ucast chunk_sz mod LOG_PAGE_SIZE \<noteq> 0
             then Some (False, set_errno MMLOG_ERR_FILES_OPEN_OR_CREATE_EINVAL w)
             else
               (case sys_alloc w of
                  (False, w) \<Rightarrow> Some (False, set_errno MMLOG_ERR_FILES_OPEN_OR_CREATE_EINVAL w)
                | (True, w) \<Rightarrow>
                    (case next_fault w of
                       (Fail, w) \<Rightarrow> Some (False, set_errno MMLOG_ERR_FILES_OPEN_OR_CREATE_SNPRINTF w)
                     | (_, w) \<Rightarrow>
                         (let meta_filename = name @ meta_suffix
                          in case sys_open_excl meta_filename w of
                               (None, w) \<Rightarrow> files_open env name meta_filename h w
                             | (Some fd_meta, w) \<Rightarrow> do {
                                 (ok, w) \<leftarrow> files_create fd_meta name chunk_sz h w;
                                 if ok then Some (True, w) else Some (False, sys_close fd_meta w)
                               })))
         | _ \<Rightarrow> Some (False, set_errno MMLOG_ERR_FILES_OPEN_OR_CREATE_EINVAL w))"

definition zero_handle :: log_handle where
  "zero_handle = \<lparr>metadata_fd = 0, data_fd = 0, metadata = None,
     chunks = \<lparr>buffer = [], capacity = 0, head = None, tail = None, head_locked = False\<rparr>\<rparr>"

text \<open>
  \<open>mmlog_open\<close>. The \<open>size_t\<close> chunk size is passed to \<open>files_open_or_create\<close> as a
  \<open>uint32_t\<close>, so only its low 32 bits arrive there.
\<close>

definition mmlog_open ::
  "(log_world \<Rightarrow> log_world) \<Rightarrow> string option \<Rightarrow> u64 \<Rightarrow> u32 \<Rightarrow> nat option log_act" where
  "mmlog_open env filename chunk_sz chunk_count w =
     (let w = set_errno MMLOG_ERR_OK w
      in if chunk_sz mod LOG_PAGE_SIZE \<noteq> 0 \<or> chunk_sz = 0 \<or> chunk_count < 2
         then Some (None, set_errno MMLOG_ERR_MMLOG_OPEN_EINVAL w)
         else
           (case sys_alloc w of
              (False, w) \<Rightarrow> Some (None, set_errno MMLOG_ERR_MMLOG_OPEN_ENOMEM w)
            | (True, w) \<Rightarrow>
                (case sys_alloc w of
                   (False, w) \<Rightarrow> Some (None, set_errno MMLOG_ERR_MMLOG_OPEN_ENOMEM w)
                 | (True, w) \<Rightarrow>
                     (let h = next_handle w;
                          cb = (chunks zero_handle)\<lparr>capacity := unat chunk_count,
                                  buffer := replicate (unat chunk_count) Null\<rparr>;
                          w = w\<lparr>handles := (handles w)(h \<mapsto> zero_handle\<lparr>chunks := cb\<rparr>),
                                next_handle := Suc h\<rparr>
                      in do {
                        (ok, w) \<leftarrow> files_open_or_create env filename (ucast chunk_sz) (Some h) w;
                        if \<not> ok then Some (None, w\<lparr>handles := (handles w)(h := None)\<rparr>)
                        else Some (Some h, upd_chunks h (\<lambda>cb. cb\<lparr>head := Some 0\<rparr>) w)
                      }))))"

section \<open>Creation\<close>

text \<open>The metadata a creator leaves behind.\<close>

definition created_metadata :: "u32 \<Rightarrow> log_metadata \<Rightarrow> log_metadata" where
  "created_metadata k md = md\<lparr>version := MMLOG_VERSION, page_size := ucast LOG_PAGE_SIZE,
     chunk_size := k, file_size := ucast k, is_ready := True\<rparr>"

lemma sint_ucast_u32 [simp]: "0 \<le> sint (ucast (k :: u32) :: u64)"
proof (rule sint_u64_nonneg)
  have "unat k < 9223372036854775808"
    using unat_u32_lt [of k] by linarith
  then show "unat (ucast k :: u64) < 2 ^ 63" by simp
qed

lemma sys_open_creat_fine:
  assumes "faults s = []"
  shows "\<exists>s' di. sys_open_creat path s = (Some (next_fd s), s') \<and> fdtab s' = (fdtab s)(next_fd s \<mapsto> di) \<and>
     dir s' path = Some di \<and> (\<forall>p. p \<noteq> path \<longrightarrow> dir s' p = dir s p) \<and>
     vmaps s' = vmaps s \<and> next_map s' = next_map s \<and> faults s' = [] \<and> os.more s' = os.more s \<and>
     next_fd s' = Suc (next_fd s) \<and> (\<forall>i. i \<noteq> di \<longrightarrow> inodes s' i = inodes s i) \<and>
     (di = next_ino s \<and> next_ino s' = Suc di \<or> dir s path = Some di \<and> next_ino s' = next_ino s)"
  using assms
  by (cases "dir s path") (auto simp: sys_open_creat_def new_file_def new_fd_def)

lemma files_create_fine:
  assumes fl: "faults w = []" and fm: "fdtab w fd_meta = Some mi" and hn: "handles w h = Some hn"
  shows "\<exists>w' di. files_create fd_meta name k h w = Some (True, w') \<and>
     dir w' name = Some di \<and> (\<forall>p. p \<noteq> name \<longrightarrow> dir w' p = dir w p) \<and>
     inodes w' di = resize (unat k) empty_file \<and> fdtab w' = (fdtab w)(next_fd w \<mapsto> di) \<and>
     vmaps w' = (vmaps w)(next_map w \<mapsto> \<lparr>vm_ino = mi, vm_off = 0, vm_len = sizeof_log_metadata\<rparr>) \<and>
     next_map w' = Suc (next_map w) \<and> chunk_heap w' = chunk_heap w \<and> next_chunk w' = next_chunk w \<and>
     metas w' = (metas w)(mi := created_metadata k (metas w mi)) \<and> faults w' = [] \<and>
     handles w' = (handles w)(h \<mapsto> hn\<lparr>metadata := Some (next_map w), data_fd := next_fd w,
                                   metadata_fd := fd_meta\<rparr>) \<and>
     next_fd w' = Suc (next_fd w) \<and> next_handle w' = next_handle w \<and>
     (mi \<noteq> di \<longrightarrow> fsize (inodes w' mi) = sizeof_log_metadata) \<and>
     (di = next_ino w \<and> next_ino w' = Suc di \<or> dir w name = Some di \<and> next_ino w' = next_ino w)"
proof -
  let ?w1 = "upd_meta mi (\<lambda>md. md\<lparr>version := MMLOG_VERSION, page_size := ucast LOG_PAGE_SIZE, chunk_size := k\<rparr>)
     ((set_errno MMLOG_ERR_OK w)\<lparr>inodes := (inodes w)(mi := resize sizeof_log_metadata (inodes w mi)),
       vmaps := (vmaps w)(next_map w \<mapsto> \<lparr>vm_ino = mi, vm_off = 0, vm_len = sizeof_log_metadata\<rparr>),
       next_map := Suc (next_map w)\<rparr>)"
  obtain w2 di where w2: "sys_open_creat name ?w1 = (Some (next_fd w), w2)"
      "fdtab w2 = (fdtab w)(next_fd w \<mapsto> di)" "dir w2 name = Some di" "\<forall>p. p \<noteq> name \<longrightarrow> dir w2 p = dir w p"
      "vmaps w2 = vmaps ?w1" "next_map w2 = next_map ?w1" "faults w2 = []" "os.more w2 = os.more ?w1"
      "next_fd w2 = Suc (next_fd w)" "\<forall>i. i \<noteq> di \<longrightarrow> inodes w2 i = inodes ?w1 i"
      "di = next_ino w \<and> next_ino w2 = Suc di \<or> dir w name = Some di \<and> next_ino w2 = next_ino w"
    using sys_open_creat_fine [of ?w1 name] fl by auto
  note more = more_world_cong [OF w2(8)]
  have res: "resize (unat k) (resize 0 f) = resize (unat k) empty_file" for f
    by (simp add: resize_def empty_file_def fun_eq_iff)
  have sz: "unat (word_of_nat sizeof_log_metadata :: u64) = sizeof_log_metadata"
    "0 \<le> sint (word_of_nat sizeof_log_metadata :: u64)" "0 < sizeof_log_metadata"
    by (simp_all add: sizeof_log_metadata_def)
  show ?thesis
    using w2 more fl fm hn sz
    by (auto simp: files_create_def os_eval Let_def meta_ino_def created_metadata_def res intro!: exI [of _ di])
qed

lemma files_open_or_create_creates:
  assumes fl: "faults w = []" and name: "name \<noteq> []" "dir w (name @ meta_suffix) = None"
    and k: "k \<noteq> 0" "page dvd unat k" and hn: "handles w h = Some hn"
    and mi: "mi = next_ino w"
  shows "\<exists>w' di. files_open_or_create env (Some name) k (Some h) w = Some (True, w') \<and>
     dir w' name = Some di \<and> dir w' (name @ meta_suffix) = Some mi \<and>
     inodes w' di = resize (unat k) empty_file \<and>
     fdtab w' = (fdtab w)(next_fd w \<mapsto> mi, Suc (next_fd w) \<mapsto> di) \<and>
     vmaps w' = (vmaps w)(next_map w \<mapsto> \<lparr>vm_ino = mi, vm_off = 0, vm_len = sizeof_log_metadata\<rparr>) \<and>
     next_map w' = Suc (next_map w) \<and> chunk_heap w' = chunk_heap w \<and> next_chunk w' = next_chunk w \<and>
     metas w' = (metas w)(mi := created_metadata k (metas w mi)) \<and> faults w' = [] \<and>
     handles w' = (handles w)(h \<mapsto> hn\<lparr>metadata := Some (next_map w), data_fd := Suc (next_fd w),
                                   metadata_fd := next_fd w\<rparr>) \<and>
     next_fd w' = Suc (Suc (next_fd w)) \<and> next_handle w' = next_handle w \<and>
     (mi \<noteq> di \<longrightarrow> fsize (inodes w' mi) = sizeof_log_metadata) \<and>
     (\<forall>p. p \<noteq> name \<and> p \<noteq> name @ meta_suffix \<longrightarrow> dir w' p = dir w p) \<and>
     (di = Suc mi \<and> next_ino w' = Suc di \<or> dir w name = Some di \<and> next_ino w' = Suc mi)"
proof -
  let ?w1 = "(set_errno MMLOG_ERR_OK w)\<lparr>dir := (dir w)(name @ meta_suffix \<mapsto> mi),
     inodes := (inodes w)(mi := empty_file), next_ino := Suc mi,
     fdtab := (fdtab w)(next_fd w \<mapsto> mi), next_fd := Suc (next_fd w)\<rparr>"
  have op: "sys_open_excl (name @ meta_suffix) (set_errno MMLOG_ERR_OK w) = (Some (next_fd w), ?w1)"
    using fl name(2) mi by (simp add: sys_open_excl_def new_file_def new_fd_def)
  have ne: "name @ meta_suffix \<noteq> name" by (simp add: meta_suffix_def)
  have al: "ucast k mod LOG_PAGE_SIZE = 0"
    using k(2) by (simp add: LOG_PAGE_SIZE_def word_unat_eq_iff unat_mod page_def dvd_def)
  have "fdtab ?w1 (next_fd w) = Some mi" "handles ?w1 h = Some hn" "faults ?w1 = []"
    using fl hn by simp_all
  from files_create_fine [OF this(3,1,2), of name k]
  obtain w2 di where w2: "files_create (next_fd w) name k h ?w1 = Some (True, w2)"
     "dir w2 name = Some di" "\<forall>p. p \<noteq> name \<longrightarrow> dir w2 p = dir ?w1 p"
     "inodes w2 di = resize (unat k) empty_file" "fdtab w2 = (fdtab ?w1)(next_fd ?w1 \<mapsto> di)"
     "vmaps w2 = (vmaps w)(next_map w \<mapsto> \<lparr>vm_ino = mi, vm_off = 0, vm_len = sizeof_log_metadata\<rparr>)"
     "next_map w2 = Suc (next_map w)" "chunk_heap w2 = chunk_heap w" "next_chunk w2 = next_chunk w"
     "metas w2 = (metas w)(mi := created_metadata k (metas w mi))" "faults w2 = []"
     "handles w2 = (handles w)(h \<mapsto> hn\<lparr>metadata := Some (next_map w), data_fd := Suc (next_fd w), metadata_fd := next_fd w\<rparr>)"
     "next_fd w2 = Suc (Suc (next_fd w))" "next_handle w2 = next_handle w"
     "mi \<noteq> di \<longrightarrow> fsize (inodes w2 mi) = sizeof_log_metadata"
     "di = Suc mi \<and> next_ino w2 = Suc di \<or> dir ?w1 name = Some di \<and> next_ino w2 = Suc mi"
    by auto
  have "files_open_or_create env (Some name) k (Some h) w = Some (True, w2)"
    using fl name(1) k(1) al op w2(1)
    by (simp add: files_open_or_create_def os_eval Let_def)
  with w2 ne show ?thesis
    by (intro exI [of _ w2] exI [of _ di]) auto
qed

section \<open>Failure releases what was taken\<close>

definition same_resources :: "log_world \<Rightarrow> log_world \<Rightarrow> bool" where
  "same_resources w w' \<longleftrightarrow> fdtab w' = fdtab w \<and> vmaps w' = vmaps w \<and> handles w' = handles w"

definition released :: "log_world \<Rightarrow> (bool \<times> log_world) option \<Rightarrow> bool" where
  "released w r \<longleftrightarrow> (case r of None \<Rightarrow> False | Some (b, w') \<Rightarrow> b \<or> same_resources w w')"

lemma released_cleanup:
  assumes "handles v = handles w"
    and "(case mp of None \<Rightarrow> vmaps v | Some m \<Rightarrow> (vmaps v)(m := None)) = vmaps w"
    and "(case fd of None \<Rightarrow> fdtab v | Some d \<Rightarrow> (fdtab v)(d := None)) = fdtab w"
  shows "released w (files_create_cleanup mp fd v)"
  using assms
  by (auto simp: released_def files_create_cleanup_def same_resources_def sys_munmap_def sys_close_def
      split: option.splits)

lemma handles_more: "os.more (w :: log_world) = os.more w' \<Longrightarrow> handles w = handles w'"
  by (rule more_world_cong)

text \<open>
  Creation always returns, whatever fails on the way, and when it reports failure every
  descriptor and mapping it had taken is given back.
\<close>

lemma files_create_releases:
  assumes fd: "fdtab w (next_fd w) = None" and mp: "vmaps w (next_map w) = None" and hn: "handles w h = Some hn"
  shows "released w (files_create fd_meta name k h w)"
proof -
  let ?w = "set_errno MMLOG_ERR_OK w"
  obtain b1 w1 where 1: "sys_ftruncate fd_meta (of_nat sizeof_log_metadata) ?w = (b1, w1)" by fastforce
  note f1 = sys_ftruncate_frame [OF 1] and h1 = handles_more [OF sys_ftruncate_frame(6) [OF 1]]
  obtain p2 w2 where 2: "sys_mmap fd_meta sizeof_log_metadata 0 w1 = (p2, w2)" by fastforce
  show ?thesis
  proof (cases "b1 \<and> p2 \<noteq> None")
    case False
    then show ?thesis
      using 1 2 f1 h1 sys_mmap_None_frame [of fd_meta _ _ w1 w2] handles_more [of w2 w1]
      by (cases b1) (auto simp: files_create_def intro!: released_cleanup)
  next
    case True
    then obtain m where m: "p2 = Some m" "b1" by auto
    note f2 = sys_mmap_Some_frame [OF 2 [unfolded m(1)]]
    obtain ino where ino: "vmaps w2 = (vmaps w1)(m \<mapsto> \<lparr>vm_ino = ino, vm_off = unat (0 :: u64), vm_len = sizeof_log_metadata\<rparr>)"
      using f2(2) by blast
    let ?w3 = "upd_meta ino (\<lambda>md. md\<lparr>version := MMLOG_VERSION, page_size := ucast LOG_PAGE_SIZE, chunk_size := k\<rparr>) w2"
    obtain p4 w4 where 4: "sys_open_creat name ?w3 = (p4, w4)" by fastforce
    have mi: "meta_ino (Some m) w2 = Some ino" by (simp add: meta_ino_def ino)
    have base: "handles ?w3 = handles w" "(vmaps ?w3)(m := None) = vmaps w" "fdtab ?w3 = fdtab w"
      "next_fd ?w3 = next_fd w"
      using f1 f2 h1 handles_more [OF f2(7)] mp ino by (auto simp: fun_upd_idem)
    show ?thesis
    proof (cases p4)
      case None
      with 1 2 4 m mi base sys_open_creat_None_frame [of name ?w3 w4] handles_more [of w4 ?w3] show ?thesis
        by (auto simp: files_create_def intro!: released_cleanup)
    next
      case (Some d)
      note f4 = sys_open_creat_Some_frame [OF 4 [unfolded Some]] and h4 = handles_more [OF sys_open_creat_Some_frame(4) [OF 4 [unfolded Some]]]
      obtain b5 w5 where 5: "sys_ftruncate d 0 w4 = (b5, w5)" by fastforce
      note f5 = sys_ftruncate_frame [OF 5] and h5 = handles_more [OF sys_ftruncate_frame(6) [OF 5]]
      obtain b6 w6 where 6: "sys_ftruncate d (ucast k) w5 = (b6, w6)" by fastforce
      note f6 = sys_ftruncate_frame [OF 6] and h6 = handles_more [OF sys_ftruncate_frame(6) [OF 6]]
      have "(fdtab w4)(d := None) = fdtab w" "(vmaps w4)(m := None) = vmaps w" "handles w4 = handles w"
        using f4 h4 base fd by (auto simp: fun_upd_idem)
      with f5 f6 h5 h6 1 2 4 5 6 m mi hn Some show ?thesis
        by (cases b5; cases b6)
           (auto simp: files_create_def released_def [of _ "Some (True, _)"] Let_def intro!: released_cleanup)
    qed
  qed
qed

section \<open>The readiness checks as polled conditions\<close>

definition mapped :: "nat \<Rightarrow> log_world \<Rightarrow> bool" where
  "mapped m w \<longleftrightarrow> vmaps w m \<noteq> None"

interpretation readiness: polling "try_check_metadata_ready m" "respect (mapped m) e" "mapped m" for m e
proof unfold_locales
  fix w assume "mapped m w"
  then show "answers (mapped m) w (try_check_metadata_ready m w)"
    by (auto simp: answers_def mapped_def try_check_metadata_ready_def meta_ino_def)
next
  fix w assume "mapped m w"
  then show "mapped m (tick w)" by (simp add: mapped_def)
qed (rule respect_inv)

lemma check_size_answers: "answers (\<lambda>_. True) w (check_size fd sz w)"
  by (auto simp: answers_def check_size_def sys_fstat_def next_fault_def split: list.splits option.splits)

lemma sys_open_world:
  assumes "sys_open p (w :: log_world) = (fd, w')"
  shows "clock w' = clock w" "ticks w' = ticks w"
  using assms by (auto simp: sys_open_def next_fault_def new_fd_def split: list.splits option.splits if_splits)

lemma answers_same_clock:
  "clock v = clock w \<Longrightarrow> ticks v = ticks w \<Longrightarrow> answers I v r \<Longrightarrow> answers I w r"
  by (auto simp: answers_def split: option.splits)

lemma try_check_file_ready_answers: "answers (\<lambda>_. True) w (try_check_file_ready v p sz w)"
proof -
  obtain r w1 where o: "sys_open p w = (r, w1)" by fastforce
  have "answers (\<lambda>_. True) w (check_size fd sz (w1\<lparr>cell := (cell w1)(v \<mapsto> fd)\<rparr>))" for fd
    using sys_open_world [OF o]
    by (rule_tac answers_same_clock [OF _ _ check_size_answers]) simp_all
  moreover have "answers (\<lambda>_. True) w (Some (False, set_errno e w1))" for e
    using sys_open_world [OF o] by (simp add: answers_def)
  ultimately show ?thesis
    using o check_size_answers by (auto simp: try_check_file_ready_def split: option.splits)
qed

interpretation file_ready: polling "try_check_file_ready v p sz" e "\<lambda>_. True" for v p sz e
  by unfold_locales (simp_all add: try_check_file_ready_answers)

end
