(* ===== verification/Mmlog_Expand.thy ===== *)
theory Mmlog_Expand
  imports Mmlog_Wait
begin

text \<open>
  Reserving space: \<open>file_expand_inner\<close>, \<open>data_file_expand\<close> and \<open>mmlog_checkout\<close>. A
  writer takes its range by one atomic addition to the shared cursor and, when the
  range ends beyond the recorded file size, grows the data file under the lock in the
  metadata. The atomic operations of one call are run without interference here; the
  interleavings of several callers are the subject of \<open>Mmlog_Concurrent\<close>.
\<close>

section \<open>Definitions\<close>

definition file_expand_inner :: "nat \<Rightarrow> u64 \<Rightarrow> bool log_act" where
  "file_expand_inner h endp w = do {
     let w = set_errno MMLOG_ERR_OK w;
     hn \<leftarrow> handles w h;
     ino \<leftarrow> meta_ino (metadata hn) w;
     if \<not> is_locked (metas w ino)
     then
       (let w = upd_meta ino (\<lambda>md. md\<lparr>is_locked := True\<rparr>) w
        in if is_panicked (metas w ino)
           then Some (False, set_errno MMLOG_ERR_FILE_EXPAND_INNER_PANICKED w)
           else if file_size (metas w ino) < endp
           then
             (let new_size = ALIGN endp (chunk_size (metas w ino))
              in case sys_ftruncate (data_fd hn) new_size w of
                   (False, w) \<Rightarrow>
                     (let w = upd_meta ino (\<lambda>md. md\<lparr>is_panicked := True\<rparr>) w;
                          w = upd_meta ino (\<lambda>md. md\<lparr>is_locked := False\<rparr>) w
                      in Some (True, set_errno MMLOG_ERR_FILE_EXPAND_INNER_GROW w))
                 | (True, w) \<Rightarrow>
                     (let w = upd_meta ino (\<lambda>md. md\<lparr>file_size := new_size\<rparr>) w;
                          w = upd_meta ino (\<lambda>md. md\<lparr>is_locked := False\<rparr>) w
                      in Some (True, w)))
           else Some (True, upd_meta ino (\<lambda>md. md\<lparr>is_locked := False\<rparr>) w))
     else Some (False, set_errno MMLOG_ERR_FILE_EXPAND_INNER_LOCKED w)
   }"

definition data_file_expand :: "(log_world \<Rightarrow> log_world) \<Rightarrow> nat \<Rightarrow> u64 \<Rightarrow> bool log_act" where
  "data_file_expand env h endp w = do {
     let w = set_errno MMLOG_ERR_OK w;
     (done, w) \<leftarrow> hot_wait_for_cond (file_expand_inner h endp) env SLEEP_TIME_MAX_MS w;
     if done
     then do {
       hn \<leftarrow> handles w h;
       ino \<leftarrow> meta_ino (metadata hn) w;
       Some (\<not> is_panicked (metas w ino), w)
     }
     else Some (False, w)
   }"

definition mmlog_checkout ::
  "(log_world \<Rightarrow> log_world) \<Rightarrow> nat option \<Rightarrow> u64 \<Rightarrow> u64 log_act" where
  "mmlog_checkout env handle sz w =
     (let w = set_errno MMLOG_ERR_OK w
      in case handle of
           None \<Rightarrow> Some (LOG_CURSOR_INVALID, set_errno MMLOG_ERR_MMLOG_CHECKOUT_EINVAL w)
         | Some h \<Rightarrow> do {
             hn \<leftarrow> handles w h;
             if metadata hn = None
             then Some (LOG_CURSOR_INVALID, set_errno MMLOG_ERR_MMLOG_CHECKOUT_EINVAL w)
             else do {
               ino \<leftarrow> meta_ino (metadata hn) w;
               let start = cursor (metas w ino);
               let w = upd_meta ino (\<lambda>md. md\<lparr>cursor := start + sz\<rparr>) w;
               let endp = start + sz;
               if file_size (metas w ino) < endp
               then do {
                 (ok, w) \<leftarrow> data_file_expand env h endp w;
                 if ok then Some (start, w) else Some (LOG_CURSOR_INVALID, w)
               }
               else Some (start, w)
             }
           })"

section \<open>Growing the file\<close>

text \<open>The world after a successful extension of the data file to hold \<open>endp\<close>.\<close>

definition grown :: "nat \<Rightarrow> nat \<Rightarrow> u64 \<Rightarrow> log_world \<Rightarrow> log_world" where
  "grown mi di endp w =
     (let n = ALIGN endp (chunk_size (metas w mi))
      in w\<lparr>inodes := (inodes w)(di := resize (unat n) (inodes w di)),
           metas := (metas w)(mi := (metas w mi)\<lparr>file_size := n\<rparr>)\<rparr>)"

lemma core_grown [simp]: "core (grown mi di endp w) = grown mi di endp (core w)"
  by (simp add: grown_def Let_def)

lemma metadata_unlock [simp]: "\<not> is_locked md \<Longrightarrow> md\<lparr>is_locked := False\<rparr> = md"
  by (cases md) simp

lemma file_expand_inner_grows:
  assumes "handles w h = Some hn" "meta_ino (metadata hn) w = Some mi" "fdtab w (data_fd hn) = Some di"
    and "\<not> is_locked (metas w mi)" "\<not> is_panicked (metas w mi)" "file_size (metas w mi) < endp"
    and "0 \<le> sint (ALIGN endp (chunk_size (metas w mi)))" and "faults w = []"
  shows "file_expand_inner h endp w = Some (True, grown mi di endp (set_errno MMLOG_ERR_OK w))"
  using assms
  by (simp add: file_expand_inner_def os_eval grown_def Let_def upd_meta_def)

lemma grown_frame [simp]:
  "handles (grown mi di endp w) = handles w" "meta_ino p (grown mi di endp w) = meta_ino p w"
  "is_panicked (metas (grown mi di endp w) i) = is_panicked (metas w i)"
  by (simp_all add: grown_def Let_def)

lemma data_file_expand_grows:
  assumes "handles w h = Some hn" "meta_ino (metadata hn) w = Some mi" "fdtab w (data_fd hn) = Some di"
    and "\<not> is_locked (metas w mi)" "\<not> is_panicked (metas w mi)" "file_size (metas w mi) < endp"
    and "0 \<le> sint (ALIGN endp (chunk_size (metas w mi)))" and "faults w = []"
  shows "\<exists>w'. data_file_expand env h endp w = Some (True, w') \<and> core w' = core (grown mi di endp w)"
proof -
  have "hot_wait_for_cond (file_expand_inner h endp) env SLEEP_TIME_MAX_MS (set_errno MMLOG_ERR_OK w)
     = Some (True, grown mi di endp (set_errno MMLOG_ERR_OK (tick (set_errno MMLOG_ERR_OK w))))"
    using assms by (intro hot_wait_first file_expand_inner_grows) (simp_all add: SLEEP_TIME_MAX_MS_def)
  then show ?thesis
    using assms by (auto simp: data_file_expand_def)
qed

section \<open>Reserving a range\<close>

text \<open>
  What holds of the metadata and the data file between calls: a page-multiple chunk
  size, no lock held and no panic, the recorded size is the file's, and the cursor lies
  within it.
\<close>

definition meta_ok :: "log_metadata \<Rightarrow> file \<Rightarrow> bool" where
  "meta_ok md f \<longleftrightarrow> 0 < unat (chunk_size md) \<and> page dvd unat (chunk_size md) \<and>
     \<not> is_locked md \<and> \<not> is_panicked md \<and> unat (file_size md) = fsize f \<and>
     unat (cursor md) \<le> fsize f \<and> file_wf f"

text \<open>The world after a successful reservation of \<open>sz\<close> bytes.\<close>

definition reserved :: "nat \<Rightarrow> nat \<Rightarrow> u64 \<Rightarrow> log_world \<Rightarrow> log_world" where
  "reserved mi di sz w =
     (let endp = cursor (metas w mi) + sz;
          w' = upd_meta mi (\<lambda>md. md\<lparr>cursor := endp\<rparr>) w
      in if file_size (metas w mi) < endp then grown mi di endp w' else w')"

lemma core_reserved [simp]: "core (reserved mi di sz w) = reserved mi di sz (core w)"
  by (simp add: reserved_def Let_def)

lemma mmlog_checkout_reserves:
  assumes "handles w h = Some hn" "meta_ino (metadata hn) w = Some mi" "fdtab w (data_fd hn) = Some di"
    and md: "meta_ok (metas w mi) (inodes w di)" and "faults w = []"
    and small: "unat (cursor (metas w mi)) + unat sz + unat (chunk_size (metas w mi)) \<le> 2 ^ 32"
  shows "\<exists>w'. mmlog_checkout env (Some h) sz w = Some (cursor (metas w mi), w') \<and>
           core w' = core (reserved mi di sz w)"
proof -
  let ?md = "metas w mi" and ?e = "cursor (metas w mi) + sz"
  let ?w1 = "upd_meta mi (\<lambda>md. md\<lparr>cursor := ?e\<rparr>) (set_errno MMLOG_ERR_OK w)"
  from assms(2) obtain m where m: "metadata hn = Some m"
    by (cases "metadata hn") (auto simp: meta_ino_def)
  have e: "unat ?e = unat (cursor ?md) + unat sz"
    using small by (intro unat_add_no_wrap) simp
  show ?thesis
  proof (cases "file_size ?md < ?e")
    case True
    have "unat (ALIGN ?e (chunk_size ?md)) < unat ?e + unat (chunk_size ?md)"
      using md small e by (intro ALIGN_bounds [THEN conjunct2]) (auto simp: meta_ok_def)
    then have "0 \<le> sint (ALIGN ?e (chunk_size ?md))"
      using small e by (intro sint_u64_nonneg) simp
    then have "\<exists>w'. data_file_expand env h ?e ?w1 = Some (True, w') \<and> core w' = core (grown mi di ?e ?w1)"
      using assms True by (intro data_file_expand_grows) (auto simp: meta_ok_def)
    then show ?thesis
      using assms True m by (auto simp: mmlog_checkout_def reserved_def Let_def)
  next
    case False
    then show ?thesis
      using assms m by (auto simp: mmlog_checkout_def reserved_def Let_def)
  qed
qed

lemma reserved_meta:
  assumes md: "meta_ok (metas w mi) (inodes w di)"
    and small: "unat (cursor (metas w mi)) + unat sz + unat (chunk_size (metas w mi)) \<le> 2 ^ 32"
  shows "meta_ok (metas (reserved mi di sz w) mi) (inodes (reserved mi di sz w) di)"
    and "chunk_size (metas (reserved mi di sz w) mi) = chunk_size (metas w mi)"
    and "unat (cursor (metas (reserved mi di sz w) mi)) = unat (cursor (metas w mi)) + unat sz"
    and "i < fsize (inodes w di) \<Longrightarrow> fdata (inodes (reserved mi di sz w) di) i = fdata (inodes w di) i"
proof -
  let ?md = "metas w mi" and ?e = "cursor (metas w mi) + sz"
  have e: "unat ?e = unat (cursor ?md) + unat sz"
    using small by (intro unat_add_no_wrap) simp
  have "unat ?e \<le> unat (ALIGN ?e (chunk_size ?md))"
    using md small e by (intro ALIGN_bounds [THEN conjunct1]) (auto simp: meta_ok_def)
  then show "meta_ok (metas (reserved mi di sz w) mi) (inodes (reserved mi di sz w) di)"
    using md e by (auto simp: meta_ok_def reserved_def grown_def Let_def word_less_nat_alt)
  show "chunk_size (metas (reserved mi di sz w) mi) = chunk_size (metas w mi)"
    and "unat (cursor (metas (reserved mi di sz w) mi)) = unat (cursor (metas w mi)) + unat sz"
    using e by (simp_all add: reserved_def grown_def Let_def)
  show "fdata (inodes (reserved mi di sz w) di) i = fdata (inodes w di) i" if "i < fsize (inodes w di)"
    using md that \<open>unat ?e \<le> unat (ALIGN ?e (chunk_size ?md))\<close>
    by (auto simp: reserved_def grown_def Let_def meta_ok_def fdata_resize word_less_nat_alt)
qed

lemma reserved_fsize:
  assumes md: "meta_ok (metas w mi) (inodes w di)"
    and small: "unat (cursor (metas w mi)) + unat sz + unat (chunk_size (metas w mi)) \<le> 2 ^ 32"
  shows "fsize (inodes w di) \<le> fsize (inodes (reserved mi di sz w) di)"
proof -
  let ?e = "cursor (metas w mi) + sz"
  have "unat ?e = unat (cursor (metas w mi)) + unat sz"
    using small by (intro unat_add_no_wrap) simp
  then have "unat ?e \<le> unat (ALIGN ?e (chunk_size (metas w mi)))"
    using md small by (intro ALIGN_bounds [THEN conjunct1]) (auto simp: meta_ok_def)
  then show ?thesis
    using md by (auto simp: meta_ok_def reserved_def grown_def Let_def word_less_nat_alt)
qed

lemma reserved_metas [simp]:
  "i \<noteq> mi \<Longrightarrow> metas (reserved mi di sz w) i = metas w i"
  "version (metas (reserved mi di sz w) mi) = version (metas w mi)"
  "is_ready (metas (reserved mi di sz w) mi) = is_ready (metas w mi)"
  "chunk_size (metas (reserved mi di sz w) mi) = chunk_size (metas w mi)"
  by (simp_all add: reserved_def grown_def Let_def)

lemma meta_ok_write_at:
  assumes "meta_ok md f" "off + length bs \<le> fsize f"
  shows "meta_ok md (write_at off bs f)"
  using assms by (auto simp: meta_ok_def fsize_write_at)

section \<open>Failures\<close>

text \<open>A failed \<open>ftruncate\<close>: the log is marked as panicked and the lock released.\<close>

lemma data_file_expand_fails:
  assumes "handles w h = Some hn" "meta_ino (metadata hn) w = Some mi"
    and "\<not> is_locked (metas w mi)" "\<not> is_panicked (metas w mi)" "file_size (metas w mi) < endp"
    and "faults w = Fail # fs"
  shows "\<exists>w'. data_file_expand env h endp w = Some (False, w') \<and>
           mmlog_errno w' = MMLOG_ERR_FILE_EXPAND_INNER_GROW \<and>
           core w' = upd_meta mi (\<lambda>md. md\<lparr>is_panicked := True\<rparr>) ((core w)\<lparr>faults := fs\<rparr>)"
proof -
  have "file_expand_inner h endp v = Some (True, set_errno MMLOG_ERR_FILE_EXPAND_INNER_GROW
      (upd_meta mi (\<lambda>md. md\<lparr>is_panicked := True\<rparr>) ((set_errno MMLOG_ERR_OK v)\<lparr>faults := fs\<rparr>)))"
    if "core v = core w" for v
    using assms core_eqD [OF that] arg_cong [OF that, of "meta_ino (metadata hn)"]
    by (simp add: file_expand_inner_def sys_ftruncate_def Let_def upd_meta_def)
  then have "hot_wait_for_cond (file_expand_inner h endp) env SLEEP_TIME_MAX_MS (set_errno MMLOG_ERR_OK w) =
     Some (True, set_errno MMLOG_ERR_FILE_EXPAND_INNER_GROW
      (upd_meta mi (\<lambda>md. md\<lparr>is_panicked := True\<rparr>) ((set_errno MMLOG_ERR_OK (tick (set_errno MMLOG_ERR_OK w)))\<lparr>faults := fs\<rparr>)))"
    by (intro hot_wait_first) (simp_all add: SLEEP_TIME_MAX_MS_def)
  then show ?thesis
    using assms by (auto simp: data_file_expand_def Let_def core_def)
qed

section \<open>Expansion as a polled condition\<close>

text \<open>The handle's metadata is mapped.\<close>

definition attached :: "nat \<Rightarrow> log_world \<Rightarrow> bool" where
  "attached h w \<longleftrightarrow> (case handles w h of None \<Rightarrow> False | Some hn \<Rightarrow> meta_ino (metadata hn) w \<noteq> None)"

definition panicked :: "nat \<Rightarrow> log_world \<Rightarrow> bool" where
  "panicked h w \<longleftrightarrow> (case handles w h of None \<Rightarrow> False | Some hn \<Rightarrow>
     (case meta_ino (metadata hn) w of None \<Rightarrow> False | Some ino \<Rightarrow> is_panicked (metas w ino)))"

lemma attachedE:
  assumes "attached h w"
  obtains hn mi where "handles w h = Some hn" "meta_ino (metadata hn) w = Some mi"
  using assms by (auto simp: attached_def split: option.splits)

lemma file_expand_inner_answers:
  assumes "attached h w"
  shows "answers (attached h) w (file_expand_inner h endp w)"
proof -
  obtain hn mi where hn: "handles w h = Some hn" "meta_ino (metadata hn) w = Some mi"
    using assms by (rule attachedE)
  obtain b v where v: "sys_ftruncate (data_fd hn) (ALIGN endp (chunk_size (metas w mi)))
      (upd_meta mi (\<lambda>md. md\<lparr>is_locked := True\<rparr>) (set_errno MMLOG_ERR_OK w)) = (b, v)"
    by fastforce
  show ?thesis
    using hn v sys_ftruncate_world [OF v]
    by (cases b) (simp_all add: answers_def attached_def file_expand_inner_def Let_def)
qed

interpretation expansion: polling "file_expand_inner h endp" "respect (attached h) e" "attached h" for h endp e
proof unfold_locales
  fix w assume "attached h w"
  then show "attached h (tick w)" by (simp add: attached_def split: option.splits)
qed (rule file_expand_inner_answers respect_inv, assumption)+

lemma file_expand_inner_panicked:
  assumes "panicked h w" "file_expand_inner h endp w = Some (b, w')"
  shows "\<not> b \<and> panicked h w' \<and> clock w' = clock w \<and> ticks w' = ticks w"
  using assms
  by (auto simp: panicked_def file_expand_inner_def Let_def split: option.splits if_splits)

interpretation panicked_expansion: polling_refused "file_expand_inner h endp" "respect (panicked h) e" "panicked h" for h endp e
proof unfold_locales
  fix w assume p: "panicked h w"
  then have "attached h w" by (auto simp: panicked_def attached_def split: option.splits)
  with p file_expand_inner_answers [of h w endp] file_expand_inner_panicked [of h w endp]
  show "answers (panicked h) w (file_expand_inner h endp w)"
    by (auto simp: answers_def split: option.splits)
next
  fix w assume "panicked h w"
  then show "panicked h (tick w)" by (auto simp: panicked_def split: option.splits)
next
  fix w b w' assume "panicked h w" "file_expand_inner h endp w = Some (b, w')"
  then show "\<not> b" using file_expand_inner_panicked by blast
qed (rule respect_inv)

end
