(* ===== verification/Mmlog_Ring.thy ===== *)
theory Mmlog_Ring
  imports Mmlog_Wait
begin

text \<open>
  The ring buffer of mapped chunks: \<open>clean_chunks\<close>, \<open>create_chunk_at_cursor\<close>, the head
  lock, \<open>add_new_chunk\<close> and \<open>mmlog_rb_checkout\<close>. Slots are indices into \<open>buffer\<close>; a slot
  index outside the array and a chunk that was freed are undefined behaviour and make
  the call not return. A compare-and-exchange is the comparison and the store in one
  step, as the processor does it.
\<close>

section \<open>Cleaning\<close>

partial_function (option) clean_loop :: "nat \<Rightarrow> bool log_act" where
  "clean_loop h w =
     Option.bind (handles w h) (\<lambda>hn.
       (case tail (chunks hn) of
          None \<Rightarrow> Some (True, w)
        | Some t \<Rightarrow>
            if length (buffer (chunks hn)) \<le> t then None
            else if head (chunks hn) = Some t then Some (True, w)
            else
              (case buffer (chunks hn) ! t of
                 Null \<Rightarrow> Some (True, w)
               | Pending \<Rightarrow> Some (True, w)
               | Ptr a \<Rightarrow>
                   Option.bind (chunk_heap w a) (\<lambda>c.
                     if \<not> is_untracked c \<and> 0 < ref_count c then Some (True, w)
                     else if tail (chunks hn) = Some t
                     then clean_loop h
                            ((sys_munmap (mapping c)
                               (upd_chunks h (\<lambda>cb. cb\<lparr>tail := Some ((t + 1) mod capacity cb)\<rparr>) w))
                              \<lparr>chunk_heap := (chunk_heap w)(a := None)\<rparr>)
                     else clean_loop h w))))"

definition clean_chunks :: "nat option \<Rightarrow> bool log_act" where
  "clean_chunks handle w =
     (let w = set_errno MMLOG_ERR_OK w
      in case handle of
           None \<Rightarrow> Some (False, set_errno MMLOG_ERR_CLEAN_CHUNKS_EINVAL w)
         | Some h \<Rightarrow> do {
             hn \<leftarrow> handles w h;
             if buffer (chunks hn) = []
             then Some (False, set_errno MMLOG_ERR_CLEAN_CHUNKS_EINVAL w)
             else clean_loop h w
           })"

section \<open>Creating a chunk\<close>

text \<open>\<open>create_chunk_at_cursor\<close>; a chunk size of zero is a division by zero.\<close>

definition create_chunk_at_cursor :: "nat \<Rightarrow> u64 \<Rightarrow> nat option log_act" where
  "create_chunk_at_cursor h cur w =
     (case sys_alloc (set_errno MMLOG_ERR_OK w) of
        (False, w) \<Rightarrow> Some (None, set_errno MMLOG_ERR_CREATE_CHUNK_AT_CURSOR_ENOMEM w)
      | (True, w) \<Rightarrow> do {
          hn \<leftarrow> handles w h;
          ino \<leftarrow> meta_ino (metadata hn) w;
          let cs = (ucast (chunk_size (metas w ino)) :: u64);
          if cs = 0 then None
          else
            (let start = cur div cs * cs
             in case sys_mmap (data_fd hn) (unat cs) start w of
                  (None, w) \<Rightarrow> Some (None, set_errno MMLOG_ERR_CREATE_CHUNK_AT_CURSOR_MMAP w)
                | (Some m, w) \<Rightarrow>
                    (let a = next_chunk w;
                         c = \<lparr>is_untracked = False, start_offset = start, csize = cs,
                              mapping = m, ref_count = 1\<rparr>
                     in Some (Some a, w\<lparr>chunk_heap := (chunk_heap w)(a \<mapsto> c), next_chunk := Suc a\<rparr>)))
        })"

section \<open>The head lock\<close>

definition lock_head_inner :: "nat \<Rightarrow> bool log_act" where
  "lock_head_inner h w = do {
     hn \<leftarrow> handles w h;
     if head_locked (chunks hn) then Some (False, w)
     else Some (True, upd_chunks h (\<lambda>cb. cb\<lparr>head_locked := True\<rparr>) w)
   }"

definition lock_head :: "(log_world \<Rightarrow> log_world) \<Rightarrow> nat \<Rightarrow> bool log_act" where
  "lock_head env h = hot_wait_for_cond (lock_head_inner h) env SLEEP_TIME_MAX_MS"

definition unlock_head :: "nat \<Rightarrow> log_world \<Rightarrow> log_world" where
  "unlock_head h w = upd_chunks h (\<lambda>cb. cb\<lparr>head_locked := False\<rparr>) w"

section \<open>Adding and checking out a chunk\<close>

definition set_slot :: "nat \<Rightarrow> nat \<Rightarrow> chunk_ptr \<Rightarrow> log_world \<Rightarrow> log_world" where
  "set_slot h i p w = upd_chunks h (\<lambda>cb. cb\<lparr>buffer := (buffer cb)[i := p]\<rparr>) w"

text \<open>
  The end of \<open>add_new_chunk\<close>, from the creation of the chunk on: \<open>hp\<close> is the expected
  head and \<open>next\<close> the slot to fill.
\<close>

definition store_new_chunk :: "nat \<Rightarrow> nat \<Rightarrow> nat \<Rightarrow> u64 \<Rightarrow> nat option log_act" where
  "store_new_chunk h hp next cur w = do {
     (new_chunk, w) \<leftarrow> create_chunk_at_cursor h cur w;
     hn \<leftarrow> handles w h;
     if length (buffer (chunks hn)) \<le> next then None
     else
       (case new_chunk of
          None \<Rightarrow> Some (None, set_slot h next Null w)
        | Some a \<Rightarrow>
            (let w = set_slot h next (Ptr a) w;
                 w = upd_chunks h (\<lambda>cb. if head cb = Some hp then cb\<lparr>head := Some next\<rparr> else cb) w
             in Some (Some a, w)))
   }"

definition add_new_chunk :: "nat \<Rightarrow> nat option \<Rightarrow> nat option \<Rightarrow> u64 \<Rightarrow> nat option log_act" where
  "add_new_chunk h head_ptr tail_ptr cur w =
     (let w = set_errno MMLOG_ERR_OK w
      in case head_ptr of
           None \<Rightarrow> Some (None, set_errno MMLOG_ERR_ADD_NEW_CHUNK_EINVALID w)
         | Some hp \<Rightarrow> do {
             hn \<leftarrow> handles w h;
             let cb = chunks hn;
             let next = get_next_head_ptr cb hp;
             let next = (if capacity cb \<le> next then 0 else next);
             if Some next = tail_ptr
             then do {
               (_, w) \<leftarrow> clean_chunks (Some h) w;
               hn \<leftarrow> handles w h;
               hp \<leftarrow> head (chunks hn);
               let next = get_next_head_ptr (chunks hn) hp;
               if Some next = tail (chunks hn)
               then Some (None, set_errno MMLOG_ERR_ADD_NEW_CHUNK_EWAIT w)
               else store_new_chunk h hp next cur w
             }
             else store_new_chunk h hp next cur w
           })"

definition incr_ref :: "nat \<Rightarrow> log_world \<Rightarrow> log_world option" where
  "incr_ref a w =
     (if chunk_heap w a = None then None
      else Some (upd_chunk a (\<lambda>c. c\<lparr>ref_count := ref_count c + 1\<rparr>) w))"

definition decr_ref :: "nat \<Rightarrow> log_world \<Rightarrow> log_world option" where
  "decr_ref a w =
     (if chunk_heap w a = None then None
      else Some (upd_chunk a (\<lambda>c. c\<lparr>ref_count := ref_count c - 1\<rparr>) w))"

definition mmlog_rb_checkout ::
  "(log_world \<Rightarrow> log_world) \<Rightarrow> nat option \<Rightarrow> u64 \<Rightarrow> nat option log_act" where
  "mmlog_rb_checkout env handle cur w =
     (let w = set_errno MMLOG_ERR_OK w
      in case handle of
           None \<Rightarrow> Some (None, set_errno MMLOG_ERR_MMLOG_RB_CHECKOUT_EINVAL w)
         | Some h \<Rightarrow> do {
             hn \<leftarrow> handles w h;
             if buffer (chunks hn) = []
             then Some (None, set_errno MMLOG_ERR_MMLOG_RB_CHECKOUT_EINVAL w)
             else do {
               (locked, w) \<leftarrow> lock_head env h w;
               if \<not> locked
               then Some (None, set_errno MMLOG_ERR_MMLOG_RB_CHECKOUT_NOLOCK w)
               else do {
                 hn \<leftarrow> handles w h;
                 let cb = chunks hn;
                 let head_ptr = (case head cb of None \<Rightarrow> 0 | Some i \<Rightarrow> i);
                 if length (buffer cb) \<le> head_ptr then None
                 else do {
                   let head_chunk = buffer cb ! head_ptr;
                   fits \<leftarrow> is_cursor_in_chunk head_chunk cur w;
                   (case (fits, head_chunk) of
                      (True, Ptr a) \<Rightarrow> do {
                        w \<leftarrow> incr_ref a w;
                        Some (Some a, unlock_head h w)
                      }
                    | _ \<Rightarrow> do {
                        (new, w) \<leftarrow> add_new_chunk h (Some head_ptr) (tail cb) cur w;
                        (case new of
                           None \<Rightarrow> Some (None, unlock_head h w)
                         | Some a \<Rightarrow> do {
                             w \<leftarrow> incr_ref a (unlock_head h w);
                             Some (Some a, w)
                           })
                      })
                 }
               }
             }
           })"

section \<open>The invariant of the ring\<close>

text \<open>
  What the ring is between calls: every slot is empty or holds a chunk that maps one
  whole, aligned chunk of the data file \<open>di\<close>; the head is inside the array; nobody holds
  the head lock; and, since no code ever stores to \<open>tail\<close>, the tail is still \<open>NULL\<close>.
  Addresses not handed out yet are free.
\<close>

definition chunk_ok :: "nat \<Rightarrow> nat \<Rightarrow> chunk_info \<Rightarrow> log_world \<Rightarrow> bool" where
  "chunk_ok di cs c w \<longleftrightarrow>
     cs dvd unat (start_offset c) \<and> unat (csize c) = cs \<and> unat (start_offset c) + cs < 2 ^ 64 \<and>
     vmaps w (mapping c) = Some \<lparr>vm_ino = di, vm_off = unat (start_offset c), vm_len = cs\<rparr> \<and>
     \<not> is_untracked c \<and> ref_count c = 1"

fun slot_ok :: "nat \<Rightarrow> nat \<Rightarrow> log_world \<Rightarrow> chunk_ptr \<Rightarrow> bool" where
  "slot_ok di cs w Null = True"
| "slot_ok di cs w Pending = False"
| "slot_ok di cs w (Ptr a) = (case chunk_heap w a of None \<Rightarrow> False | Some c \<Rightarrow> chunk_ok di cs c w)"

definition fresh_ok :: "log_world \<Rightarrow> bool" where
  "fresh_ok w \<longleftrightarrow> (\<forall>a \<ge> next_chunk w. chunk_heap w a = None) \<and> (\<forall>m \<ge> next_map w. vmaps w m = None)"

definition ring_ok :: "nat \<Rightarrow> nat \<Rightarrow> chunk_buffer \<Rightarrow> log_world \<Rightarrow> bool" where
  "ring_ok di cs cb w \<longleftrightarrow>
     2 \<le> capacity cb \<and> length (buffer cb) = capacity cb \<and>
     (\<exists>i < capacity cb. head cb = Some i) \<and> tail cb = None \<and> \<not> head_locked cb \<and>
     (\<forall>p \<in> set (buffer cb). slot_ok di cs w p) \<and> fresh_ok w"

text \<open>The chunk holds the byte at \<open>cur\<close>; the new chunk made for a cursor; the world after \<open>mmap\<close> made it.\<close>

definition covers :: "chunk_info \<Rightarrow> u64 \<Rightarrow> bool" where
  "covers c cur \<longleftrightarrow> unat (start_offset c) \<le> unat cur \<and> unat cur < unat (start_offset c) + unat (csize c)"

definition new_chunk :: "u32 \<Rightarrow> u64 \<Rightarrow> nat \<Rightarrow> chunk_info" where
  "new_chunk cs cur m = \<lparr>is_untracked = False, start_offset = cur div ucast cs * ucast cs,
     csize = ucast cs, mapping = m, ref_count = 1\<rparr>"

definition with_chunk :: "nat \<Rightarrow> u32 \<Rightarrow> u64 \<Rightarrow> log_world \<Rightarrow> log_world" where
  "with_chunk di cs cur w =
     w\<lparr>vmaps := (vmaps w)(next_map w \<mapsto>
          \<lparr>vm_ino = di, vm_off = unat (start_offset (new_chunk cs cur (next_map w))), vm_len = unat cs\<rparr>),
       next_map := Suc (next_map w),
       chunk_heap := (chunk_heap w)(next_chunk w \<mapsto> new_chunk cs cur (next_map w)),
       next_chunk := Suc (next_chunk w)\<rparr>"

lemma ring_ok_cong:
  assumes "chunk_heap w = chunk_heap w'" "next_chunk w = next_chunk w'"
    and "vmaps w = vmaps w'" "next_map w = next_map w'"
  shows "ring_ok di cs cb w = ring_ok di cs cb w'"
proof -
  have "slot_ok di cs w p = slot_ok di cs w' p" for p
    using assms by (cases p) (auto simp: chunk_ok_def split: option.splits)
  with assms show ?thesis
    by (simp add: ring_ok_def fresh_ok_def)
qed

lemma clean_chunks_no_tail:
  assumes "handles w h = Some hn" "tail (chunks hn) = None" "buffer (chunks hn) \<noteq> []"
  shows "clean_chunks (Some h) w = Some (True, set_errno MMLOG_ERR_OK w)"
  using assms by (simp add: clean_chunks_def clean_loop.simps)

section \<open>Creating, locking, adding\<close>

lemma core_with_chunk [simp]: "core (with_chunk di cs cur w) = with_chunk di cs cur (core w)"
  by (simp add: with_chunk_def)

lemma new_chunk_start:
  assumes "0 < unat cs"
  shows "unat (start_offset (new_chunk cs cur m)) = unat cur div unat cs * unat cs"
proof -
  have "unat cur div unat cs * unat cs \<le> unat cur" by simp
  also have "\<dots> < 2 ^ 64"
    using unat_u64_lt [of cur] by simp
  finally have "unat cur div unat cs * unat cs < 2 ^ 64" .
  then show ?thesis
    by (simp add: new_chunk_def unat_mult_no_wrap unat_div)
qed

lemma covers_new_chunk: "0 < unat cs \<Longrightarrow> covers (new_chunk cs cur m) cur"
  using lt_div_mult_plus [of "unat cs" "unat cur"]
  by (simp add: covers_def new_chunk_start) (simp add: new_chunk_def)

lemma create_chunk_at_cursor_fine:
  assumes "handles w h = Some hn" "meta_ino (metadata hn) w = Some mi" "fdtab w (data_fd hn) = Some di"
    and cs: "cs = chunk_size (metas w mi)" "0 < unat cs" "page dvd unat cs"
    and "faults w = []" and "unat cur < 2 ^ 63"
  shows "create_chunk_at_cursor h cur w =
           Some (Some (next_chunk w), with_chunk di cs cur (set_errno MMLOG_ERR_OK w))"
proof -
  let ?s = "cur div ucast cs * ucast cs"
  have s: "unat ?s = unat cur div unat cs * unat cs"
    using new_chunk_start [OF cs(2), of cur 0] by (simp add: new_chunk_def)
  then have "unat ?s \<le> unat cur" by simp
  then have "0 \<le> sint ?s"
    using assms(8) by (intro sint_u64_nonneg) simp
  moreover have "page dvd unat ?s"
    using cs(3) by (simp add: s)
  moreover have "(ucast cs :: u64) \<noteq> 0"
    using cs(2) by (metis unat_ucast_32_64 unat_0 less_irrefl)
  ultimately show ?thesis
    using assms
    by (simp add: create_chunk_at_cursor_def os_eval Let_def with_chunk_def new_chunk_def)
qed

lemma chunk_ok_new:
  assumes "0 < unat cs" "unat cur < 2 ^ 63"
  shows "chunk_ok di (unat cs) (new_chunk cs cur (next_map w)) (with_chunk di cs cur w)"
proof -
  have "unat cur div unat cs * unat cs + unat cs \<le> unat cur + unat cs" by simp
  also have "\<dots> < 9223372036854775808 + 4294967296"
    using assms(2) by (intro add_strict_mono) simp_all
  finally have "unat cur div unat cs * unat cs + unat cs < 2 ^ 64" by simp
  then show ?thesis
    using assms by (simp add: chunk_ok_def new_chunk_start with_chunk_def) (simp add: new_chunk_def)
qed

lemma slot_ok_mono:
  assumes "slot_ok di cs w p" and "fresh_ok w"
  shows "slot_ok di cs (with_chunk di' cs' cur w) p"
  using assms
  by (cases p) (auto simp: chunk_ok_def fresh_ok_def with_chunk_def split: option.splits)

lemma fresh_ok_with_chunk: "fresh_ok w \<Longrightarrow> fresh_ok (with_chunk di cs cur w)"
  by (auto simp: fresh_ok_def with_chunk_def)


text \<open>Locking succeeds at the first attempt when nobody holds the lock.\<close>

lemma lock_head_free:
  assumes "handles w h = Some hn" "\<not> head_locked (chunks hn)"
  shows "lock_head env h w =
           Some (True, upd_chunks h (\<lambda>cb. cb\<lparr>head_locked := True\<rparr>) (tick w))"
  unfolding lock_head_def
  using assms by (intro hot_wait_first) (simp_all add: SLEEP_TIME_MAX_MS_def lock_head_inner_def)

lemma chunk_buffer_relock [simp]:
  "\<not> head_locked cb \<Longrightarrow> cb\<lparr>head_locked := False\<rparr> = cb"
  by (cases cb) simp

lemma unlock_relock [simp]:
  assumes "handles w h = Some hn" "\<not> head_locked (chunks hn)"
  shows "upd_chunks h (\<lambda>cb. cb\<lparr>head_locked := False\<rparr>) (upd_chunks h (\<lambda>cb. cb\<lparr>head_locked := True\<rparr>) w) = w"
  using assms by (simp add: upd_chunks_def) (cases w, cases hn, simp add: fun_upd_idem)

lemma covers_iff:
  assumes "chunk_ok di cs c w"
  shows "start_offset c \<le> cur \<and> cur < start_offset c + csize c \<longleftrightarrow> covers c cur"
  using assms by (simp add: chunk_ok_def covers_def word_le_nat_alt word_less_nat_alt unat_add_no_wrap)

lemma get_next_lt: "2 \<le> capacity cb \<Longrightarrow> get_next_head_ptr cb i < capacity cb"
  by (simp add: get_next_head_ptr_def)

lemma add_new_chunk_fine:
  assumes "handles w h = Some hn" "meta_ino (metadata hn) w = Some mi" "fdtab w (data_fd hn) = Some di"
    and cs: "cs = chunk_size (metas w mi)" "0 < unat cs" "page dvd unat cs"
    and "faults w = []" and "unat cur < 2 ^ 63"
    and "2 \<le> capacity (chunks hn)" "length (buffer (chunks hn)) = capacity (chunks hn)"
    and "head (chunks hn) = Some i" and tl: "tail (chunks hn) = None"
  shows "\<exists>w'. add_new_chunk h (Some i) None cur w = Some (Some (next_chunk w), w') \<and>
           core w' = upd_chunks h (\<lambda>cb. cb\<lparr>buffer := (buffer cb)[get_next_head_ptr cb i := Ptr (next_chunk w)],
                        head := Some (get_next_head_ptr cb i)\<rparr>) (with_chunk di cs cur (core w))"
proof -
  let ?w = "set_errno MMLOG_ERR_OK w"
  have "create_chunk_at_cursor h cur ?w =
           Some (Some (next_chunk ?w), with_chunk di cs cur (set_errno MMLOG_ERR_OK ?w))"
    using assms by (intro create_chunk_at_cursor_fine) simp_all
  moreover have "get_next_head_ptr (chunks hn) i < capacity (chunks hn)"
    using assms by (intro get_next_lt)
  ultimately show ?thesis
    using assms
    by (simp add: add_new_chunk_def store_new_chunk_def Let_def with_chunk_def set_slot_def)
qed

section \<open>Checking out a chunk\<close>

definition head_at :: "nat \<Rightarrow> chunk_ptr \<Rightarrow> chunk_buffer \<Rightarrow> chunk_buffer" where
  "head_at i p cb = cb\<lparr>buffer := (buffer cb)[i := p], head := Some i\<rparr>"

lemma upd_chunk_chunks [simp]: "upd_chunk a f (upd_chunks h g w) = upd_chunks h g (upd_chunk a f w)"
  by (auto simp: upd_chunk_def upd_chunks_def split: option.splits)

lemma with_chunk_chunks [simp]:
  "with_chunk di cs cur (upd_chunks h g w) = upd_chunks h g (with_chunk di cs cur w)"
  by (auto simp: with_chunk_def upd_chunks_def split: option.splits)

lemma upd_chunks_comp [simp]: "upd_chunks h f (upd_chunks h g w) = upd_chunks h (\<lambda>cb. f (g cb)) w"
  by (auto simp: upd_chunks_def split: option.splits)

lemma upd_chunks_cong:
  assumes "handles w h = Some hn" "f (chunks hn) = g (chunks hn)"
  shows "upd_chunks h f w = upd_chunks h g w"
  using assms by (simp add: upd_chunks_def)

lemma upd_chunks_same:
  assumes "handles w h = Some hn" "f (chunks hn) = chunks hn"
  shows "upd_chunks h f w = w"
  using assms by (cases w, cases hn) (simp add: upd_chunks_def fun_upd_idem)

lemma with_chunk_frame [simp]:
  "dir (with_chunk di cs cur w) = dir w" "inodes (with_chunk di cs cur w) = inodes w"
  "fdtab (with_chunk di cs cur w) = fdtab w" "faults (with_chunk di cs cur w) = faults w"
  "metas (with_chunk di cs cur w) = metas w" "handles (with_chunk di cs cur w) = handles w"
  "chunk_heap (with_chunk di cs cur w) (next_chunk w) = Some (new_chunk cs cur (next_map w))"
  by (simp_all add: with_chunk_def)

lemma meta_ino_with_chunk:
  assumes "meta_ino p w = Some mi" "fresh_ok w"
  shows "meta_ino p (with_chunk di cs cur w) = Some mi"
  using assms by (cases p) (auto simp: meta_ino_def with_chunk_def fresh_ok_def)

text \<open>
  What an operation on handle \<open>h\<close> leaves to the others: the other handles are as they were,
  descriptors, chunks and mappings that exist stay as they are. An operation on an open
  handle also leaves alone the directory and the descriptors.
\<close>

definition spares :: "nat \<Rightarrow> log_world \<Rightarrow> log_world \<Rightarrow> bool" where
  "spares h w w' \<longleftrightarrow> (\<forall>g. g \<noteq> h \<longrightarrow> handles w' g = handles w g) \<and> fdtab w \<subseteq>\<^sub>m fdtab w' \<and>
     chunk_heap w \<subseteq>\<^sub>m chunk_heap w' \<and> vmaps w \<subseteq>\<^sub>m vmaps w'"

definition extends :: "nat \<Rightarrow> log_world \<Rightarrow> log_world \<Rightarrow> bool" where
  "extends h w w' \<longleftrightarrow> spares h w w' \<and>
     dir w' = dir w \<and> next_ino w' = next_ino w \<and> fdtab w' = fdtab w \<and> next_fd w' = next_fd w \<and>
     next_handle w' = next_handle w"

lemma spares_refl [simp]: "spares h w w"
  by (simp add: spares_def)

lemma extends_refl [simp]: "extends h w w"
  by (simp add: extends_def)

lemma extends_trans [trans]: "extends h u v \<Longrightarrow> extends h v w \<Longrightarrow> extends h u w"
  by (auto simp: extends_def spares_def intro: map_le_trans)

lemma extends_core [simp]:
  "extends h (core u) w = extends h u w" "extends h u (core w) = extends h u w"
  by (simp_all add: extends_def spares_def)

lemma extends_core_eq: "core w = core v \<Longrightarrow> extends h u w = extends h u v"
  by (metis extends_core(2))

lemma extends_frame [simp]:
  "extends h (set_errno e u) w = extends h u w" "extends h u (set_errno e w) = extends h u w"
  "extends h u (w\<lparr>inodes := x\<rparr>) = extends h u w"
  by (simp_all add: extends_def spares_def set_errno_def)

lemma extends_with_chunk [simp]:
  assumes "fresh_ok w"
  shows "extends h w (upd_chunks h f (with_chunk di cs cur w))"
  using assms
  by (auto simp: extends_def spares_def with_chunk_def upd_chunks_def fresh_ok_def map_le_def split: option.splits)

lemma meta_ino_spares: "spares h w w' \<Longrightarrow> meta_ino p w = Some i \<Longrightarrow> meta_ino p w' = Some i"
  by (cases p) (auto simp: spares_def meta_ino_def map_le_def dom_def)

lemma slot_ok_spares: "spares h w w' \<Longrightarrow> slot_ok di cs w p \<Longrightarrow> slot_ok di cs w' p"
  by (cases p) (force simp: spares_def map_le_def dom_def chunk_ok_def split: option.splits)+

lemma ring_ok_spares:
  "spares h w w' \<Longrightarrow> fresh_ok w' \<Longrightarrow> ring_ok di cs cb w \<Longrightarrow> ring_ok di cs cb w'"
  by (auto simp: ring_ok_def slot_ok_spares)

text \<open>
  \<open>checked_out h hn di cs cur w a w'\<close>: after a checkout at \<open>cur\<close> the world \<open>w'\<close> is a world
  with an intact ring in which chunk \<open>a\<close> covers the cursor, but for the reference the
  caller now holds on \<open>a\<close>.
\<close>

definition checked_out :: "nat \<Rightarrow> log_handle \<Rightarrow> nat \<Rightarrow> nat \<Rightarrow> u64 \<Rightarrow> log_world \<Rightarrow> nat \<Rightarrow> log_world \<Rightarrow> bool" where
  "checked_out h hn di cs cur w a w' \<longleftrightarrow>
     (\<exists>w0 c cb. core w' = (core w0)\<lparr>chunk_heap := (chunk_heap w0)(a \<mapsto> c\<lparr>ref_count := 2\<rparr>)\<rparr> \<and>
        chunk_heap w0 a = Some c \<and> chunk_ok di cs c w0 \<and> covers c cur \<and>
        handles w0 h = Some (hn\<lparr>chunks := cb\<rparr>) \<and> ring_ok di cs cb w0 \<and>
        inodes w0 = inodes w \<and> metas w0 = metas w \<and> fdtab w0 = fdtab w \<and> faults w0 = faults w \<and>
        meta_ino (metadata hn) w0 = meta_ino (metadata hn) w \<and> extends h w w0)"


lemma checked_outI:
  assumes "core w' = (core v)\<lparr>chunk_heap := (chunk_heap v)(a \<mapsto> c\<lparr>ref_count := 2\<rparr>)\<rparr>"
    and "chunk_heap v a = Some c" "chunk_ok di cs c v" "covers c cur"
    and "handles v h = Some (hn\<lparr>chunks := cb\<rparr>)" "ring_ok di cs cb v"
    and "inodes v = inodes w" "metas v = metas w" "fdtab v = fdtab w" "faults v = faults w"
    and "meta_ino (metadata hn) v = meta_ino (metadata hn) w" "extends h w v"
  shows "checked_out h hn di cs cur w a w'"
  unfolding checked_out_def using assms by blast

lemma unlock_after_lock:
  assumes "handles w h = Some hn" "\<not> head_locked (chunks hn)"
  shows "unlock_head h (upd_chunk a f (upd_chunks h (\<lambda>cb. cb\<lparr>head_locked := True\<rparr>) w)) = upd_chunk a f w"
  unfolding unlock_head_def upd_chunk_chunks
  using assms by (intro unlock_relock) simp_all

lemma checkout_existing:
  assumes "handles w h = Some hn" and r: "ring_ok di cs (chunks hn) w"
    and "head (chunks hn) = Some i" "buffer (chunks hn) ! i = Ptr a"
    and "chunk_heap w a = Some c" "covers c cur"
  shows "\<exists>w'. mmlog_rb_checkout env (Some h) cur w = Some (Some a, w') \<and>
           checked_out h hn di cs cur w a w'"
proof -
  have i: "i < length (buffer (chunks hn))" and u: "\<not> head_locked (chunks hn)"
    and ne: "buffer (chunks hn) \<noteq> []"
    using assms by (auto simp: ring_ok_def)
  then have "slot_ok di cs w (Ptr a)"
    using assms by (metis nth_mem ring_ok_def)
  then have c: "chunk_ok di cs c w"
    using assms by simp
  let ?w1 = "tick (set_errno MMLOG_ERR_OK w)"
  have l: "lock_head env h (set_errno MMLOG_ERR_OK w) =
      Some (True, upd_chunks h (\<lambda>cb. cb\<lparr>head_locked := True\<rparr>) ?w1)"
    using assms u by (intro lock_head_free) auto
  have "mmlog_rb_checkout env (Some h) cur w = Some (Some a, upd_chunk a (\<lambda>c. c\<lparr>ref_count := ref_count c + 1\<rparr>) ?w1)"
    using assms(1,3-) i ne u c covers_iff [OF c, of cur]
    by (simp add: mmlog_rb_checkout_def l is_cursor_in_chunk_def incr_ref_def Let_def unlock_after_lock
          del: upd_chunk_chunks upd_chunks_comp)
  moreover have "checked_out h hn di cs cur w a (upd_chunk a (\<lambda>c. c\<lparr>ref_count := ref_count c + 1\<rparr>) ?w1)"
    using c assms
    by (intro checked_outI [where v = w and cb = "chunks hn"]) (auto simp: upd_chunk_def chunk_ok_def)
  ultimately show ?thesis by blast
qed

lemma ref_count_new_chunk [simp]: "ref_count (new_chunk cs cur m) = 1"
  by (simp add: new_chunk_def)

lemma chunk_ok_upd_chunks [simp]: "chunk_ok di cs c (upd_chunks h f w) = chunk_ok di cs c w"
  by (simp add: chunk_ok_def)

lemma slot_ok_upd_chunks [simp]: "slot_ok di cs (upd_chunks h f w) p = slot_ok di cs w p"
  by (cases p) (auto simp: chunk_ok_def split: option.splits)

lemma fresh_ok_upd_chunks [simp]: "fresh_ok (upd_chunks h f w) = fresh_ok w"
  by (simp add: fresh_ok_def)

lemma ring_ok_head_at:
  assumes "ring_ok di cs cb w" "j < capacity cb" "slot_ok di cs w' p" "fresh_ok w'"
    and "\<And>q. slot_ok di cs w q \<Longrightarrow> slot_ok di cs w' q"
  shows "ring_ok di cs (head_at j p cb) w'"
proof -
  have "set ((buffer cb)[j := p]) \<subseteq> insert p (set (buffer cb))"
    by (rule set_update_subset_insert)
  with assms show ?thesis
    by (auto simp: ring_ok_def head_at_def)
qed

lemma checkout_new:
  assumes "handles w h = Some hn" "meta_ino (metadata hn) w = Some mi" "fdtab w (data_fd hn) = Some di"
    and cs: "cs = chunk_size (metas w mi)" "0 < unat cs" "page dvd unat cs"
    and "faults w = []" and cur: "unat cur < 2 ^ 63"
    and r: "ring_ok di (unat cs) (chunks hn) w"
    and hi: "head (chunks hn) = Some i"
    and nf: "\<And>a c. buffer (chunks hn) ! i = Ptr a \<Longrightarrow> chunk_heap w a = Some c \<Longrightarrow> \<not> covers c cur"
  shows "\<exists>w'. mmlog_rb_checkout env (Some h) cur w = Some (Some (next_chunk w), w') \<and>
           checked_out h hn di (unat cs) cur w (next_chunk w) w'"
proof -
  have i: "i < length (buffer (chunks hn))" and u: "\<not> head_locked (chunks hn)"
    and ne: "buffer (chunks hn) \<noteq> []" and fr: "fresh_ok w" and tl: "tail (chunks hn) = None"
    and cap: "2 \<le> capacity (chunks hn)" "length (buffer (chunks hn)) = capacity (chunks hn)"
    using r hi by (auto simp: ring_ok_def)
  then have slot: "slot_ok di (unat cs) w (buffer (chunks hn) ! i)"
    using r by (metis nth_mem ring_ok_def)
  let ?j = "get_next_head_ptr (chunks hn) i"
  let ?L = "\<lambda>cb. cb\<lparr>head_locked := True\<rparr>"
  let ?w1 = "tick (set_errno MMLOG_ERR_OK w)"
  let ?hl = "hn\<lparr>chunks := ?L (chunks hn)\<rparr>"
  let ?wl = "upd_chunks h ?L ?w1"
  let ?a = "next_chunk w"
  let ?v0 = "upd_chunks h (head_at ?j (Ptr ?a)) (with_chunk di cs cur w)"
  have l: "lock_head env h (set_errno MMLOG_ERR_OK w) = Some (True, ?wl)"
    using assms(1) u by (intro lock_head_free) auto
  have fits: "is_cursor_in_chunk (buffer (chunks hn) ! i) cur ?wl = Some False"
    using slot nf covers_iff
    by (fastforce simp: is_cursor_in_chunk_def split: chunk_ptr.splits option.splits)
  have "\<exists>w'. add_new_chunk h (Some i) None cur ?wl = Some (Some (next_chunk ?wl), w') \<and>
     core w' = upd_chunks h (\<lambda>cb. cb\<lparr>buffer := (buffer cb)[get_next_head_ptr cb i := Ptr (next_chunk ?wl)],
                        head := Some (get_next_head_ptr cb i)\<rparr>) (with_chunk di cs cur (core ?wl))"
    using assms(1-8) cap hi tl by (intro add_new_chunk_fine [where hn = ?hl]) (simp_all)
  then obtain wa where wa: "add_new_chunk h (Some i) None cur ?wl = Some (Some ?a, wa)"
    "core wa = upd_chunks h (\<lambda>cb. cb\<lparr>buffer := (buffer cb)[get_next_head_ptr cb i := Ptr ?a],
                        head := Some (get_next_head_ptr cb i)\<rparr>) (with_chunk di cs cur (core ?wl))"
    by auto
  have cu: "core (unlock_head h wa) = core ?v0"
    using assms(1) u
    by (simp add: unlock_head_def wa(2)) (auto intro!: upd_chunks_cong simp: head_at_def get_next_head_ptr_def)
  have ch: "chunk_heap (unlock_head h wa) = chunk_heap ?v0"
    by (metis core_frame(12) cu)
  have ca: "chunk_heap (unlock_head h wa) ?a = Some (new_chunk cs cur (next_map w))"
    by (simp add: ch)
  have "mmlog_rb_checkout env (Some h) cur w =
     Some (Some ?a, upd_chunk ?a (\<lambda>c. c\<lparr>ref_count := ref_count c + 1\<rparr>) (unlock_head h wa))"
    using assms(1) i ne hi tl wa(1) fits ca
    by (simp add: mmlog_rb_checkout_def l Let_def incr_ref_def split: chunk_ptr.splits)
  moreover have "checked_out h hn di (unat cs) cur w ?a
     (upd_chunk ?a (\<lambda>c. c\<lparr>ref_count := ref_count c + 1\<rparr>) (unlock_head h wa))"
  proof (rule checked_outI [where v = ?v0 and c = "new_chunk cs cur (next_map w)" and cb = "head_at ?j (Ptr ?a) (chunks hn)"])
    show "ring_ok di (unat cs) (head_at ?j (Ptr ?a) (chunks hn)) ?v0"
      using r cap fr cs cur
      by (intro ring_ok_head_at [where w = w] get_next_lt)
         (simp_all add: slot_ok_mono fresh_ok_with_chunk chunk_ok_new)
  qed (use assms fr cu ca in \<open>simp_all add: upd_chunk_def ch meta_ino_with_chunk covers_new_chunk chunk_ok_new\<close>)
  ultimately show ?thesis by blast
qed


lemma mmlog_rb_checkout_fine:
  assumes "handles w h = Some hn" "meta_ino (metadata hn) w = Some mi" "fdtab w (data_fd hn) = Some di"
    and "cs = chunk_size (metas w mi)" "0 < unat cs" "page dvd unat cs"
    and "faults w = []" and "unat cur < 2 ^ 63"
    and r: "ring_ok di (unat cs) (chunks hn) w"
  shows "\<exists>a w'. mmlog_rb_checkout env (Some h) cur w = Some (Some a, w') \<and>
           checked_out h hn di (unat cs) cur w a w'"
proof -
  obtain i where i: "head (chunks hn) = Some i"
    using r by (auto simp: ring_ok_def)
  show ?thesis
  proof (cases "\<exists>a c. buffer (chunks hn) ! i = Ptr a \<and> chunk_heap w a = Some c \<and> covers c cur")
    case True
    then show ?thesis
      using checkout_existing [OF assms(1) r i] by blast
  next
    case False
    then show ?thesis
      using checkout_new [OF assms i] by blast
  qed
qed

lemma chunk_ok_start:
  assumes "chunk_ok di cs c w" "covers c cur" "0 < cs"
  shows "unat (start_offset c) = unat cur div cs * cs"
proof -
  obtain k where "unat (start_offset c) = k * cs"
    using assms(1) by (auto simp: chunk_ok_def dvd_def mult.commute)
  then show ?thesis
    using assms chunk_unique [of cs k "unat cur"] by (simp add: covers_def chunk_ok_def)
qed

section \<open>The head lock as a polled condition\<close>

definition has_handle :: "nat \<Rightarrow> log_world \<Rightarrow> bool" where
  "has_handle h w \<longleftrightarrow> handles w h \<noteq> None"

interpretation head_lock: polling "lock_head_inner h" "respect (has_handle h) e" "has_handle h" for h e
proof unfold_locales
  fix w assume "has_handle h w"
  then show "answers (has_handle h) w (lock_head_inner h w)"
    by (auto simp: answers_def has_handle_def lock_head_inner_def)
next
  fix w assume "has_handle h w"
  then show "has_handle h (tick w)" by (simp add: has_handle_def)
qed (rule respect_inv)

definition head_held :: "nat \<Rightarrow> log_world \<Rightarrow> bool" where
  "head_held h w \<longleftrightarrow> (case handles w h of None \<Rightarrow> False | Some hn \<Rightarrow> head_locked (chunks hn))"

interpretation held_lock: polling_refused "lock_head_inner h" "respect (head_held h) e" "head_held h" for h e
proof unfold_locales
  fix w assume "head_held h w"
  then show "answers (head_held h) w (lock_head_inner h w)"
    by (auto simp: answers_def head_held_def lock_head_inner_def split: option.splits)
next
  fix w assume "head_held h w"
  then show "head_held h (tick w)" by (simp add: head_held_def)
next
  fix w b w' assume "head_held h w" "lock_head_inner h w = Some (b, w')"
  then show "\<not> b" by (auto simp: head_held_def lock_head_inner_def split: option.splits)
qed (rule respect_inv)

end
