(* ===== verification/Append_Log.thy ===== *)
theory Append_Log
  imports Prelude
begin

text \<open>
  What a client of the log relies on, as an interface: appending a record succeeds
  while there is space, adds exactly the record to what the log holds, and uses
  exactly its length. The lemma proved from these laws is the one clients need, that
  a whole sequence of records is held, in order and complete.
\<close>

type_synonym ('b, 's) appender = "'b list \<Rightarrow> 's \<Rightarrow> (bool \<times> 's) option"

text \<open>Append records one after the other, giving up at the first that is refused.\<close>

fun append_all :: "('b, 's) appender \<Rightarrow> 'b list list \<Rightarrow> 's \<Rightarrow> (bool \<times> 's) option" where
  "append_all app [] s = Some (True, s)"
| "append_all app (xs # xss) s =
     Option.bind (app xs s) (\<lambda>(ok, s). if ok then append_all app xss s else Some (False, s))"

locale append_log =
  fixes app :: "('b, 's) appender"
    and inv :: "'s \<Rightarrow> bool"
    and view :: "'s \<Rightarrow> 'b list"
    and space :: "'s \<Rightarrow> nat"
  assumes append_holds:
    "\<lbrakk>inv s; xs \<noteq> []; length xs \<le> space s\<rbrakk> \<Longrightarrow>
       \<exists>s'. app xs s = Some (True, s') \<and> inv s' \<and> view s' = view s @ xs \<and>
            space s' = space s - length xs"
begin

lemma append_all_holds:
  assumes "inv s" and "[] \<notin> set xss" and "length (concat xss) \<le> space s"
  shows "\<exists>s'. append_all app xss s = Some (True, s') \<and> inv s' \<and> view s' = view s @ concat xss \<and>
              space s' = space s - length (concat xss)"
  using assms
proof (induction xss arbitrary: s)
  case (Cons xs xss)
  then obtain s1 where s1: "app xs s = Some (True, s1)" "inv s1" "view s1 = view s @ xs"
      "space s1 = space s - length xs"
    using append_holds [of s xs] by auto
  with Cons.prems have "\<exists>s'. append_all app xss s1 = Some (True, s') \<and> inv s' \<and>
      view s' = view s1 @ concat xss \<and> space s' = space s1 - length (concat xss)"
    by (intro Cons.IH) auto
  with s1 show ?case
    by auto
qed simp

end

text \<open>
  The same promise for a log that several clients have open at once: an append through
  one handle keeps every other handle usable. \<open>base\<close> is what all handles share.
\<close>

fun append_by :: "('h \<Rightarrow> ('b, 's) appender) \<Rightarrow> ('h \<times> 'b list) list \<Rightarrow> 's \<Rightarrow> (bool \<times> 's) option" where
  "append_by app [] s = Some (True, s)"
| "append_by app ((h, xs) # ops) s =
     Option.bind (app h xs s) (\<lambda>(ok, s). if ok then append_by app ops s else Some (False, s))"

locale shared_log =
  fixes app :: "'h \<Rightarrow> ('b, 's) appender"
    and base :: "'s \<Rightarrow> bool"
    and usable :: "'h \<Rightarrow> 's \<Rightarrow> bool"
    and view :: "'s \<Rightarrow> 'b list"
    and space :: "'s \<Rightarrow> nat"
  assumes append_shares:
    "\<lbrakk>base s; usable h s; xs \<noteq> []; length xs \<le> space s\<rbrakk> \<Longrightarrow>
       \<exists>s'. app h xs s = Some (True, s') \<and> base s' \<and> (\<forall>g. usable g s \<longrightarrow> usable g s') \<and>
            view s' = view s @ xs \<and> space s' = space s - length xs"
begin

lemma append_by_holds:
  assumes "base s" and "\<forall>h xs. (h, xs) \<in> set ops \<longrightarrow> usable h s \<and> xs \<noteq> []"
    and "length (concat (map snd ops)) \<le> space s"
  shows "\<exists>s'. append_by app ops s = Some (True, s') \<and> base s' \<and> (\<forall>g. usable g s \<longrightarrow> usable g s') \<and>
              view s' = view s @ concat (map snd ops)"
  using assms
proof (induction ops arbitrary: s)
  case (Cons op ops)
  obtain h xs where op: "op = (h, xs)" by (cases op)
  with Cons.prems obtain s1 where s1: "app h xs s = Some (True, s1)" "base s1" "\<forall>g. usable g s \<longrightarrow> usable g s1"
      "view s1 = view s @ xs" "space s1 = space s - length xs"
    using append_shares [of s h xs] by auto
  with Cons.prems op have "\<exists>s'. append_by app ops s1 = Some (True, s') \<and> base s' \<and>
      (\<forall>g. usable g s1 \<longrightarrow> usable g s') \<and> view s' = view s1 @ concat (map snd ops)"
    by (intro Cons.IH) auto
  with s1 op show ?case
    by auto
qed simp

end

sublocale shared_log \<subseteq> one: append_log "app h" "\<lambda>s. base s \<and> usable h s" view space for h
  using append_shares by unfold_locales blast

end
