(* ===== verification/Mmlog_Insert.thy ===== *)
theory Mmlog_Insert
  imports Mmlog_Files Mmlog_Expand Mmlog_Ring Append_Log
begin

text \<open>
  Writing to the log: \<open>write_to_chunk\<close>, \<open>mmlog_insert\<close> and \<open>mmlog_trim\<close>. The data of an
  insert is the byte list behind the pointer; a size beyond its end reads memory that
  is not there and makes the call not return.
\<close>

section \<open>Definitions\<close>

definition write_to_chunk ::
  "(log_world \<Rightarrow> log_world) \<Rightarrow> nat \<Rightarrow> u64 \<Rightarrow> byte list \<Rightarrow> bool log_act" where
  "write_to_chunk env h cur bs w = do {
     (chunk, w) \<leftarrow> mmlog_rb_checkout env (Some h) cur (set_errno MMLOG_ERR_OK w);
     (case chunk of
        None \<Rightarrow> Some (False, set_errno MMLOG_ERR_WRITE_TO_CHUNK_ECHUNK w)
      | Some a \<Rightarrow> do {
          c \<leftarrow> chunk_heap w a;
          let chunk_offset = cur - start_offset c;
          w \<leftarrow> map_store (mapping c) (unat chunk_offset) bs w;
          w \<leftarrow> decr_ref a w;
          Some (True, w)
        })
   }"

text \<open>
  The loop of \<open>mmlog_insert\<close> that writes one portion per chunk: \<open>cs\<close> is the chunk size,
  \<open>sz\<close> the size of the insert.
\<close>

partial_function (option) write_loop ::
  "(log_world \<Rightarrow> log_world) \<Rightarrow> nat \<Rightarrow> u64 \<Rightarrow> byte list \<Rightarrow> u64 \<Rightarrow> u64 \<Rightarrow> u64 \<Rightarrow> bool log_act" where
  "write_loop env h cs data sz current_cursor bytes_written w =
     (if bytes_written < sz
      then
        (let chunk_end = (current_cursor div cs + 1) * cs;
             rest = sz - bytes_written;
             bytes_to_write = (if chunk_end < current_cursor + rest
                               then chunk_end - current_cursor else rest)
         in if length data < unat bytes_written + unat bytes_to_write then None
            else Option.bind
                   (write_to_chunk env h current_cursor
                      (take (unat bytes_to_write) (drop (unat bytes_written) data)) w)
                   (\<lambda>(ok, w).
                      if ok
                      then write_loop env h cs data sz (current_cursor + bytes_to_write)
                             (bytes_written + bytes_to_write) w
                      else Some (False, w)))
      else Some (True, w))"

definition mmlog_insert ::
  "(log_world \<Rightarrow> log_world) \<Rightarrow> nat option \<Rightarrow> byte list option \<Rightarrow> u64 \<Rightarrow> bool log_act" where
  "mmlog_insert env handle data sz w =
     (let w = set_errno MMLOG_ERR_OK w
      in case (handle, data) of
           (Some h, Some bs) \<Rightarrow>
             if sz = 0 then Some (False, set_errno MMLOG_ERR_MMLOG_INSERT_EINVAL w)
             else do {
               (cur, w) \<leftarrow> mmlog_checkout env (Some h) sz w;
               if cur = LOG_CURSOR_INVALID then Some (False, w)
               else do {
                 hn \<leftarrow> handles w h;
                 ino \<leftarrow> meta_ino (metadata hn) w;
                 let cs = chunk_size (metas w ino);
                 if cs = 0 then None
                 else if 1 < mmlog_cross_count cur sz cs \<or> (sz = ucast cs \<and> cur mod ucast cs = 0)
                 then
                   (if length bs < unat sz then None
                    else case sys_pwrite (data_fd hn) (take (unat sz) bs) cur w of
                           (n, w) \<Rightarrow>
                             if n = Some (unat sz) then Some (True, w)
                             else Some (False, set_errno MMLOG_ERR_MMLOG_INSERT_PWRITE w))
                 else do {
                   (ok, w) \<leftarrow> write_loop env h (ucast cs) bs sz cur 0 w;
                   if \<not> ok then Some (False, w)
                   else do {
                     (_, w) \<leftarrow> clean_chunks (Some h) w;
                     Some (True, w)
                   }
                 }
               }
             }
         | _ \<Rightarrow> Some (False, set_errno MMLOG_ERR_MMLOG_INSERT_EINVAL w))"

definition mmlog_trim :: "nat option \<Rightarrow> unit log_act" where
  "mmlog_trim handle w =
     (let w = set_errno MMLOG_ERR_OK w
      in case handle of
           None \<Rightarrow> Some ((), set_errno MMLOG_ERR_MMLOG_TRIM_EINVAL w)
         | Some h \<Rightarrow> do {
             hn \<leftarrow> handles w h;
             if metadata hn = None
             then Some ((), set_errno MMLOG_ERR_MMLOG_TRIM_EINVAL w)
             else do {
               ino \<leftarrow> meta_ino (metadata hn) w;
               (case sys_ftruncate (data_fd hn) (cursor (metas w ino)) w of
                  (False, w) \<Rightarrow> Some ((), set_errno MMLOG_ERR_MMLOG_TRIM_FTRUNCATE w)
                | (True, w) \<Rightarrow> Some ((), w))
             }
           })"

section \<open>A log between two calls\<close>

text \<open>
  Handle \<open>h\<close> is an open log with metadata file \<open>mi\<close> and data file \<open>di\<close>: the metadata is
  consistent with the data file and the ring of chunks is intact.
\<close>

definition log_ok :: "nat \<Rightarrow> nat \<Rightarrow> nat \<Rightarrow> log_world \<Rightarrow> bool" where
  "log_ok h mi di w \<longleftrightarrow>
     (case handles w h of
        None \<Rightarrow> False
      | Some hn \<Rightarrow>
          meta_ino (metadata hn) w = Some mi \<and> fdtab w (data_fd hn) = Some di \<and>
          meta_ok (metas w mi) (inodes w di) \<and>
          ring_ok di (unat (chunk_size (metas w mi))) (chunks hn) w)"

lemma log_okE:
  assumes "log_ok h mi di w"
  obtains hn where "handles w h = Some hn" "meta_ino (metadata hn) w = Some mi"
    "fdtab w (data_fd hn) = Some di" "meta_ok (metas w mi) (inodes w di)"
    "ring_ok di (unat (chunk_size (metas w mi))) (chunks hn) w"
  using assms by (auto simp: log_ok_def split: option.splits)

lemma log_ok_core [simp]: "log_ok h mi di (core w) = log_ok h mi di w"
  by (simp add: log_ok_def ring_ok_cong [of "core w" w] cong: option.case_cong)

lemma log_ok_core_eq: "core w = core w' \<Longrightarrow> log_ok h mi di w = log_ok h mi di w'"
  by (metis log_ok_core)

text \<open>
  Copying into a checked out chunk and dropping the reference writes the bytes to the
  file at the cursor and restores the ring.
\<close>

lemma checked_out_store:
  assumes co: "checked_out h hn di cs cur w a w1" and pos: "0 < cs"
    and inb: "unat cur + length bs \<le> unat cur div cs * cs + cs"
    and inf: "unat cur + length bs \<le> fsize (inodes w di)"
  shows "\<exists>c w2 w3 cb v. chunk_heap w1 a = Some c \<and>
     map_store (mapping c) (unat (cur - start_offset c)) bs w1 = Some w2 \<and> decr_ref a w2 = Some w3 \<and>
     core w3 = (core v)\<lparr>inodes := (inodes w)(di := write_at (unat cur) bs (inodes w di))\<rparr> \<and>
     handles v h = Some (hn\<lparr>chunks := cb\<rparr>) \<and> ring_ok di cs cb v \<and>
     metas v = metas w \<and> fdtab v = fdtab w \<and> faults v = faults w \<and>
     meta_ino (metadata hn) v = meta_ino (metadata hn) w \<and> extends h w v"
proof -
  from co obtain v c cb where v: "core w1 = (core v)\<lparr>chunk_heap := (chunk_heap v)(a \<mapsto> c\<lparr>ref_count := 2\<rparr>)\<rparr>"
      "chunk_heap v a = Some c" "chunk_ok di cs c v" "covers c cur"
      "handles v h = Some (hn\<lparr>chunks := cb\<rparr>)" "ring_ok di cs cb v"
      "inodes v = inodes w" "metas v = metas w" "fdtab v = fdtab w" "faults v = faults w"
      "meta_ino (metadata hn) v = meta_ino (metadata hn) w" "extends h w v"
    by (auto simp: checked_out_def)
  let ?v1 = "v\<lparr>chunk_heap := (chunk_heap v)(a \<mapsto> c\<lparr>ref_count := 2\<rparr>)\<rparr>"
  have eq: "core w1 = core ?v1" using v(1) by simp
  note w1 = core_eqD [OF eq]
  have st: "unat (start_offset c) = unat cur div cs * cs"
    using v(3,4) pos by (rule chunk_ok_start)
  have off: "unat (cur - start_offset c) = unat cur - unat cur div cs * cs"
    by (subst unat_sub_le) (simp_all add: st)
  let ?f = "write_at (unat cur) bs (inodes w di)"
  have "map_store (mapping c) (unat (cur - start_offset c)) bs w1 = Some (w1\<lparr>inodes := (inodes w)(di := ?f)\<rparr>)"
    using v(3,7) w1 inb inf le_page_ceil [of "fsize (inodes w di)"]
    by (simp add: map_store_def off st chunk_ok_def Let_def store_at_eq_write_at)
  moreover have "decr_ref a (w1\<lparr>inodes := (inodes w)(di := ?f)\<rparr>) =
      Some (w1\<lparr>inodes := (inodes w)(di := ?f), chunk_heap := chunk_heap v\<rparr>)"
    using w1 v(2,3) by (simp add: decr_ref_def upd_chunk_def chunk_ok_def fun_upd_idem)
  moreover have "core (w1\<lparr>inodes := (inodes w)(di := ?f), chunk_heap := chunk_heap v\<rparr>) =
     (core v)\<lparr>inodes := (inodes w)(di := ?f)\<rparr>"
    using v(1) by simp
  ultimately show ?thesis
    using w1 v by fastforce
qed

lemma log_okI:
  assumes "handles w h = Some hn" "meta_ino (metadata hn) w = Some mi"
    "fdtab w (data_fd hn) = Some di" "meta_ok (metas w mi) (inodes w di)"
    "ring_ok di (unat (chunk_size (metas w mi))) (chunks hn) w"
  shows "log_ok h mi di w"
  using assms by (simp add: log_ok_def)

lemma write_to_chunk_fine:
  assumes lo: "log_ok h mi di w" and fl: "faults w = []" and cs: "cs = unat (chunk_size (metas w mi))"
    and cur: "unat cur < 2 ^ 63"
    and inb: "unat cur + length bs \<le> unat cur div cs * cs + cs"
    and inf: "unat cur + length bs \<le> fsize (inodes w di)"
  shows "\<exists>w'. write_to_chunk env h cur bs w = Some (True, w') \<and> log_ok h mi di w' \<and> faults w' = [] \<and>
           metas w' = metas w \<and> inodes w' = (inodes w)(di := write_at (unat cur) bs (inodes w di)) \<and>
           extends h w w'"
proof -
  obtain hn where hn: "handles w h = Some hn" "meta_ino (metadata hn) w = Some mi"
    "fdtab w (data_fd hn) = Some di" "meta_ok (metas w mi) (inodes w di)" "ring_ok di cs (chunks hn) w"
    using log_okE [OF lo] unfolding cs by metis
  let ?w = "set_errno MMLOG_ERR_OK w"
  have pos: "0 < cs" using hn(4) by (simp add: meta_ok_def cs)
  have "ring_ok di cs (chunks hn) ?w"
    using hn(5) ring_ok_cong [of ?w w] by simp
  then obtain a w1 where co: "mmlog_rb_checkout env (Some h) cur ?w = Some (Some a, w1)"
    "checked_out h hn di cs cur ?w a w1"
    using mmlog_rb_checkout_fine [of ?w h hn mi di "chunk_size (metas w mi)" cur env] hn fl cur
    unfolding cs by (auto simp: meta_ok_def)
  have "unat cur + length bs \<le> fsize (inodes ?w di)" using inf by simp
  from checked_out_store [OF co(2) pos inb this]
  obtain c w2 w3 cb v where s: "chunk_heap w1 a = Some c"
      "map_store (mapping c) (unat (cur - start_offset c)) bs w1 = Some w2" "decr_ref a w2 = Some w3"
      "core w3 = core (v\<lparr>inodes := (inodes w)(di := write_at (unat cur) bs (inodes w di))\<rparr>)"
      "handles v h = Some (hn\<lparr>chunks := cb\<rparr>)" "ring_ok di cs cb v"
      "metas v = metas w" "fdtab v = fdtab w" "faults v = faults w"
      "meta_ino (metadata hn) v = meta_ino (metadata hn) w" "extends h w v"
    by auto
  let ?v = "v\<lparr>inodes := (inodes w)(di := write_at (unat cur) bs (inodes w di))\<rparr>"
  have "log_ok h mi di ?v"
    using s hn inf ring_ok_cong [of ?v v]
    by (intro log_okI [where hn = "hn\<lparr>chunks := cb\<rparr>"]) (auto simp: cs meta_ok_write_at)
  then have "log_ok h mi di w3"
    using log_ok_core_eq [OF s(4)] by simp
  then show ?thesis
    using s fl core_eqD [OF s(4)] co(1) extends_core_eq [OF s(4), of h w] by (simp add: write_to_chunk_def)
qed


text \<open>How much the loop writes at once: up to the end of the insert or of the chunk.\<close>

lemma unat_chunk_end:
  fixes cc :: u64 and k :: u32
  assumes small: "unat cc + unat k \<le> 2 ^ 32"
  shows "unat ((cc div ucast k + 1) * ucast k) = unat cc div unat k * unat k + unat k"
proof -
  have d: "unat cc div unat k * unat k \<le> unat cc" and "unat cc div unat k \<le> unat cc" by simp_all
  then have "unat cc div unat k < 18446744073709551615"
    using small [simplified] by linarith
  then have one: "unat (cc div ucast k + 1) = unat cc div unat k + 1"
    by (subst unat_add_no_wrap) (simp_all add: unat_div)
  have "unat cc div unat k * unat k + unat k < 18446744073709551616"
    using small [simplified] d by linarith
  then show ?thesis
    by (subst unat_mult_no_wrap) (simp_all add: one add_mult_distrib)
qed

lemma write_portion:
  fixes cc rest :: u64 and k :: u32
  assumes pos: "0 < unat k" and small: "unat cc + unat rest + unat k \<le> 2 ^ 32" and "0 < unat rest"
  defines "b \<equiv> (if (cc div ucast k + 1) * ucast k < cc + rest
                then (cc div ucast k + 1) * ucast k - cc else rest)"
  shows "0 < unat b" and "unat b \<le> unat rest"
    and "unat cc + unat b \<le> unat cc div unat k * unat k + unat k"
proof -
  let ?e = "(cc div ucast k + 1) * ucast k"
  have e: "unat ?e = unat cc div unat k * unat k + unat k"
    using small by (intro unat_chunk_end) simp
  have r: "unat (cc + rest) = unat cc + unat rest"
    using small by (intro unat_add_no_wrap) simp
  have lt: "unat cc < unat ?e"
    using lt_div_mult_plus [OF pos, of "unat cc"] by (simp only: e)
  have "unat (?e - cc) = unat ?e - unat cc"
    using lt by (intro unat_sub_le) simp
  with lt r assms(3) show "0 < unat b" and "unat b \<le> unat rest"
    and "unat cc + unat b \<le> unat cc div unat k * unat k + unat k"
    unfolding b_def e [symmetric] by (auto simp: word_less_nat_alt)
qed

lemma write_loop_fine:
  assumes "log_ok h mi di w" "faults w = []" and "k = chunk_size (metas w mi)"
    and "unat sz \<le> length bs" and "unat bw \<le> unat sz"
    and "unat cc + (unat sz - unat bw) + unat k \<le> 2 ^ 32"
    and "unat cc + (unat sz - unat bw) \<le> fsize (inodes w di)"
  shows "\<exists>w'. write_loop env h (ucast k) bs sz cc bw w = Some (True, w') \<and> log_ok h mi di w' \<and>
           faults w' = [] \<and> metas w' = metas w \<and> extends h w w' \<and>
           inodes w' = (inodes w)(di := write_at (unat cc) (drop (unat bw) (take (unat sz) bs)) (inodes w di))"
  using assms
proof (induction "unat sz - unat bw" arbitrary: w cc bw rule: less_induct)
  case less
  show ?case
  proof (cases "bw < sz")
    case False
    with less.prems(5) have "unat bw = unat sz"
      by (simp add: word_less_nat_alt)
    with less.prems show ?thesis
      by (subst write_loop.simps) (simp add: False write_at_def)
  next
    case True
    define rest where "rest = sz - bw"
    define b where "b = (if (cc div ucast k + 1) * ucast k < cc + rest
                         then (cc div ucast k + 1) * ucast k - cc else rest)"
    have rest: "unat rest = unat sz - unat bw" "0 < unat rest"
      using True less.prems(5) by (simp_all add: rest_def unat_sub_le word_less_nat_alt)
    have pos: "0 < unat k"
      using less.prems(1,3) by (auto elim!: log_okE simp: meta_ok_def)
    have b: "0 < unat b" "unat b \<le> unat rest" "unat cc + unat b \<le> unat cc div unat k * unat k + unat k"
      unfolding b_def using pos less.prems(6) rest by (intro write_portion; simp)+
    let ?bs = "take (unat b) (drop (unat bw) bs)"
    have len: "length ?bs = unat b"
      using b rest less.prems(4,5) by simp
    have "unat cc < 9223372036854775808" and "unat cc + length ?bs \<le> fsize (inodes w di)"
      unfolding len using b rest less.prems(6) [simplified] less.prems(7) by linarith+
    then obtain w1 where w1: "write_to_chunk env h cc ?bs w = Some (True, w1)" "log_ok h mi di w1"
      "faults w1 = []" "metas w1 = metas w" "inodes w1 = (inodes w)(di := write_at (unat cc) ?bs (inodes w di))" "extends h w w1"
      using write_to_chunk_fine [OF less.prems(1,2) refl, of cc ?bs env] len b less.prems(3) by auto
    have "unat cc + unat b < 18446744073709551616" and "unat bw + unat b < 18446744073709551616"
      using b rest less.prems(5) less.prems(6) [simplified] unat_u64_lt [of sz] by linarith+
    then have cc: "unat (cc + b) = unat cc + unat b" and bw: "unat (bw + b) = unat bw + unat b"
      by (intro unat_add_no_wrap; simp)+
    have "\<not> length bs < unat bw + unat b"
      using b rest less.prems(4) by linarith
    then have step: "write_loop env h (ucast k) bs sz cc bw w = write_loop env h (ucast k) bs sz (cc + b) (bw + b) w1"
      using True w1(1)
      by (subst write_loop.simps) (simp add: Let_def rest_def [symmetric] b_def [symmetric])
    have fs: "fsize (inodes w1 di) = fsize (inodes w di)"
      using len b rest less.prems(7) by (simp add: w1(5) fsize_write_at)
    have "\<exists>w'. write_loop env h (ucast k) bs sz (cc + b) (bw + b) w1 = Some (True, w') \<and> log_ok h mi di w' \<and>
           faults w' = [] \<and> metas w' = metas w1 \<and> extends h w1 w' \<and>
           inodes w' = (inodes w1)(di := write_at (unat (cc + b)) (drop (unat (bw + b)) (take (unat sz) bs)) (inodes w1 di))"
      using less.prems b rest fs
      by (intro less.hyps w1(2,3)) (simp_all add: w1(4) cc bw)
    moreover have "write_at (unat (cc + b)) (drop (unat (bw + b)) (take (unat sz) bs)) (write_at (unat cc) ?bs f) =
        write_at (unat cc) (drop (unat bw) (take (unat sz) bs)) f" for f
      unfolding cc bw using b rest less.prems(4) by (intro write_at_split; linarith)
    ultimately show ?thesis
      unfolding step by (auto simp: w1 intro: extends_trans [OF w1(6)])
  qed
qed


section \<open>An insert appends\<close>

definition log_contents :: "nat \<Rightarrow> nat \<Rightarrow> log_world \<Rightarrow> byte list" where
  "log_contents mi di w = take (unat (cursor (metas w mi))) (file_bytes (inodes w di))"

text \<open>The bytes an insert of \<open>sz\<close> may still use: sizes stay below \<open>2 ^ 32\<close>.\<close>

definition room :: "nat \<Rightarrow> u64 \<Rightarrow> log_world \<Rightarrow> bool" where
  "room mi sz w \<longleftrightarrow>
     unat (cursor (metas w mi)) + unat sz + unat (chunk_size (metas w mi)) \<le> 2 ^ 32"

lemma reserved_frame [simp]:
  "handles (reserved mi di sz w) = handles w" "fdtab (reserved mi di sz w) = fdtab w"
  "faults (reserved mi di sz w) = faults w" "vmaps (reserved mi di sz w) = vmaps w"
  "next_map (reserved mi di sz w) = next_map w" "chunk_heap (reserved mi di sz w) = chunk_heap w"
  "next_chunk (reserved mi di sz w) = next_chunk w" "meta_ino p (reserved mi di sz w) = meta_ino p w"
  by (simp_all add: reserved_def grown_def Let_def)

lemma extends_reserved [simp]: "extends h w (reserved mi di sz w)"
  by (simp add: extends_def spares_def reserved_def grown_def Let_def upd_meta_def)

lemma log_ok_reserved:
  assumes "log_ok h mi di w" "room mi sz w"
  shows "log_ok h mi di (reserved mi di sz w)"
  using assms reserved_meta [of w mi di sz] ring_ok_cong [of "reserved mi di sz w" w]
  by (auto elim!: log_okE intro!: log_okI simp: room_def)

lemma take_file_bytes_write_at:
  assumes "c + length ys \<le> fsize g" "c \<le> fsize f" "\<And>i. i < c \<Longrightarrow> fdata g i = fdata f i"
  shows "take (c + length ys) (file_bytes (write_at c ys g)) = take c (file_bytes f) @ ys"
proof (rule nth_equalityI)
  show "length (take (c + length ys) (file_bytes (write_at c ys g))) = length (take c (file_bytes f) @ ys)"
    using assms(1,2) by (auto simp: fsize_write_at)
next
  fix i assume "i < length (take (c + length ys) (file_bytes (write_at c ys g)))"
  then show "take (c + length ys) (file_bytes (write_at c ys g)) ! i = (take c (file_bytes f) @ ys) ! i"
    using assms by (auto simp: file_bytes_def fdata_write_at nth_append)
qed

text \<open>What a writer knows once it has its range.\<close>

lemma mmlog_checkout_log_ok:
  assumes lo: "log_ok h mi di w" and fl: "faults w = []" and room: "room mi sz w"
  shows "\<exists>v. mmlog_checkout env (Some h) sz w = Some (cursor (metas w mi), v) \<and> log_ok h mi di v \<and>
     core v = core (reserved mi di sz w) \<and> chunk_size (metas v mi) = chunk_size (metas w mi) \<and>
     unat (cursor (metas w mi)) + unat sz \<le> fsize (inodes v di)"
proof -
  obtain hn where hn: "handles w h = Some hn" "meta_ino (metadata hn) w = Some mi"
    "fdtab w (data_fd hn) = Some di" "meta_ok (metas w mi) (inodes w di)"
    using lo by (rule log_okE)
  obtain v where v: "mmlog_checkout env (Some h) sz w = Some (cursor (metas w mi), v)"
    "core v = core (reserved mi di sz w)"
    using mmlog_checkout_reserves [of w h hn mi di sz env] hn fl room by (auto simp: room_def)
  note eq = core_eqD [OF v(2)] and r = reserved_meta [OF hn(4) room [unfolded room_def]]
  from r have "unat (cursor (metas w mi)) + unat sz \<le> fsize (inodes v di)"
    by (simp add: meta_ok_def eq)
  moreover have "log_ok h mi di v"
    using log_ok_reserved [OF lo room] log_ok_core_eq [OF v(2)] by simp
  ultimately show ?thesis
    using v eq r by simp
qed

lemma room_cursor:
  assumes "room mi sz w"
  shows "cursor (metas w mi) \<noteq> LOG_CURSOR_INVALID" and "0 \<le> sint (cursor (metas w mi))"
proof -
  have "unat (cursor (metas w mi)) < 2 ^ 63" using assms by (simp add: room_def)
  then show "cursor (metas w mi) \<noteq> LOG_CURSOR_INVALID" "0 \<le> sint (cursor (metas w mi))"
    by (auto simp: LOG_CURSOR_INVALID_def unsigned_minus_1_eq_mask mask_eq_exp_minus_1 intro!: sint_u64_nonneg)
qed

text \<open>Where the bytes of an insert end up, whichever of the two ways they are written.\<close>

lemma mmlog_insert_writes:
  assumes lo: "log_ok h mi di w" and fl: "faults w = []" and sz: "sz \<noteq> 0" "unat sz \<le> length bs"
    and room: "room mi sz w"
  shows "\<exists>w'. mmlog_insert env (Some h) (Some bs) sz w = Some (True, w') \<and> log_ok h mi di w' \<and>
           faults w' = [] \<and> metas w' = metas (reserved mi di sz w) \<and> extends h w w' \<and>
           inodes w' = (inodes (reserved mi di sz w))(di :=
             write_at (unat (cursor (metas w mi))) (take (unat sz) bs) (inodes (reserved mi di sz w) di))"
proof -
  let ?cur = "cursor (metas w mi)" and ?w = "set_errno MMLOG_ERR_OK w" and ?r = "reserved mi di sz w"
  have "log_ok h mi di ?w" "room mi sz ?w"
    using lo room log_ok_core_eq [of ?w w] by (simp_all add: room_def)
  from mmlog_checkout_log_ok [OF this(1) _ this(2), of env] obtain w1 where
    w1: "mmlog_checkout env (Some h) sz ?w = Some (?cur, w1)" "log_ok h mi di w1" "core w1 = core ?r"
      "chunk_size (metas w1 mi) = chunk_size (metas w mi)" "unat ?cur + unat sz \<le> fsize (inodes w1 di)"
    using fl by auto
  note eq = core_eqD [OF w1(3)]
  obtain hm where hm: "handles w1 h = Some hm" "meta_ino (metadata hm) w1 = Some mi"
    "fdtab w1 (data_fd hm) = Some di" "meta_ok (metas w1 mi) (inodes w1 di)"
    using w1(2) by (rule log_okE)
  let ?k = "chunk_size (metas w1 mi)"
  let ?f = "write_at (unat ?cur) (take (unat sz) bs) (inodes w1 di)"
  have k: "?k \<noteq> 0" using hm(4) by (auto simp: meta_ok_def)
  note cur = room_cursor [OF room]
  have ex: "extends h w w1"
    using extends_core_eq [OF w1(3), of h w] by simp
  show ?thesis
  proof (cases "1 < mmlog_cross_count ?cur sz ?k \<or> (sz = ucast ?k \<and> ?cur mod ucast ?k = 0)")
    case True
    let ?w2 = "w1\<lparr>inodes := (inodes w1)(di := ?f)\<rparr>"
    have "log_ok h mi di ?w2"
      using w1(2,5) ring_ok_cong [of ?w2 w1] sz
      by (auto elim!: log_okE intro!: log_okI meta_ok_write_at simp: min.absorb2)
    moreover have "mmlog_insert env (Some h) (Some bs) sz w = Some (True, ?w2)"
      using True w1(1) hm cur k sz fl eq(4) by (simp add: mmlog_insert_def os_eval Let_def min.absorb2)
    ultimately show ?thesis
      using eq fl ex by simp
  next
    case False
    have "\<exists>w'. write_loop env h (ucast ?k) bs sz ?cur 0 w1 = Some (True, w') \<and> log_ok h mi di w' \<and>
        faults w' = [] \<and> metas w' = metas w1 \<and> extends h w1 w' \<and>
        inodes w' = (inodes w1)(di := write_at (unat ?cur) (drop (unat (0 :: u64)) (take (unat sz) bs)) (inodes w1 di))"
      using w1 fl eq(4) room sz by (intro write_loop_fine) (simp_all add: room_def)
    then obtain w2 where w2: "write_loop env h (ucast ?k) bs sz ?cur 0 w1 = Some (True, w2)" "log_ok h mi di w2"
        "faults w2 = []" "metas w2 = metas w1" "inodes w2 = (inodes w1)(di := ?f)" "extends h w w2"
      using extends_trans [OF ex] by auto
    have "clean_chunks (Some h) w2 = Some (True, set_errno MMLOG_ERR_OK w2)"
      using w2(2) by (auto elim!: log_okE intro!: clean_chunks_no_tail simp: ring_ok_def)
    then have "mmlog_insert env (Some h) (Some bs) sz w = Some (True, set_errno MMLOG_ERR_OK w2)"
      using False w1(1) hm cur k sz w2(1) by (auto simp: mmlog_insert_def Let_def)
    moreover have "log_ok h mi di (set_errno MMLOG_ERR_OK w2)"
      using w2(2) log_ok_core_eq [of "set_errno MMLOG_ERR_OK w2" w2] by simp
    ultimately show ?thesis
      using w2 eq by simp
  qed
qed

lemma mmlog_insert_appends:
  assumes "log_ok h mi di w" "faults w = []" "sz \<noteq> 0" "unat sz \<le> length bs" "room mi sz w"
  shows "\<exists>w'. mmlog_insert env (Some h) (Some bs) sz w = Some (True, w') \<and> log_ok h mi di w' \<and>
           faults w' = [] \<and> log_contents mi di w' = log_contents mi di w @ take (unat sz) bs \<and>
           unat (cursor (metas w' mi)) = unat (cursor (metas w mi)) + unat sz \<and>
           chunk_size (metas w' mi) = chunk_size (metas w mi) \<and> extends h w w' \<and>
           metas w' = metas (reserved mi di sz w) \<and>
           (\<forall>i. i \<noteq> di \<longrightarrow> inodes w' i = inodes w i) \<and> fsize (inodes w di) \<le> fsize (inodes w' di)"
proof -
  let ?r = "reserved mi di sz w"
  from mmlog_insert_writes [OF assms, of env] obtain w' where w':
    "mmlog_insert env (Some h) (Some bs) sz w = Some (True, w')" "log_ok h mi di w'" "faults w' = []"
    "metas w' = metas ?r" "inodes w' di =
       write_at (unat (cursor (metas w mi))) (take (unat sz) bs) (inodes ?r di)"
    "extends h w w'" "\<forall>i. i \<noteq> di \<longrightarrow> inodes w' i = inodes ?r i"
    by auto
  have md: "meta_ok (metas w mi) (inodes w di)"
    using assms(1) by (rule log_okE)
  note r = reserved_meta [OF md assms(5) [unfolded room_def]]
  have "log_contents mi di w' = log_contents mi di w @ take (unat sz) bs"
    using r md assms(4) take_file_bytes_write_at [of "unat (cursor (metas w mi))" "take (unat sz) bs" "inodes ?r di" "inodes w di"]
    by (simp add: log_contents_def w'(4,5) meta_ok_def min.absorb2)
  moreover have "inodes ?r i = inodes w i" if "i \<noteq> di" for i
    using that by (simp add: reserved_def grown_def Let_def)
  moreover have "fsize (inodes w di) \<le> fsize (inodes w' di)"
    using reserved_fsize [OF md assms(5) [unfolded room_def]] by (auto simp: w'(5) fsize_write_at)
  ultimately show ?thesis
    using w' r by simp
qed

text \<open>An insert through one handle keeps the other handles of the same log.\<close>

lemma log_ok_other:
  assumes "log_ok g mi di w" "spares h w w'" "g \<noteq> h"
    and "meta_ok (metas w' mi) (inodes w' di)" "fresh_ok w'"
    and "chunk_size (metas w' mi) = chunk_size (metas w mi)"
  shows "log_ok g mi di w'"
proof -
  obtain gn where g: "handles w g = Some gn" "meta_ino (metadata gn) w = Some mi" "fdtab w (data_fd gn) = Some di"
     "ring_ok di (unat (chunk_size (metas w mi))) (chunks gn) w"
    using assms(1) by (rule log_okE)
  then show ?thesis
    using assms(2-) meta_ino_spares [OF assms(2)] ring_ok_spares [OF assms(2,5)]
    by (intro log_okI [where hn = gn]) (auto simp: spares_def map_le_def dom_def)
qed

lemma log_ok_fresh: "log_ok h mi di w \<Longrightarrow> fresh_ok w \<and> meta_ok (metas w mi) (inodes w di)"
  by (auto elim!: log_okE simp: ring_ok_def)

section \<open>Trimming\<close>

lemma take_file_bytes_resize:
  assumes "n \<le> fsize f"
  shows "file_bytes (resize n f) = take n (file_bytes f)"
  using assms by (intro nth_equalityI) (auto simp: file_bytes_def resize_def)

lemma mmlog_trim_fine:
  assumes lo: "log_ok h mi di w" and fl: "faults w = []" and small: "unat (cursor (metas w mi)) < 2 ^ 63"
  shows "mmlog_trim (Some h) w = Some ((), (set_errno MMLOG_ERR_OK w)\<lparr>inodes :=
           (inodes w)(di := resize (unat (cursor (metas w mi))) (inodes w di))\<rparr>)"
proof -
  have "0 \<le> sint (cursor (metas w mi))" using small by (rule sint_u64_nonneg)
  moreover obtain hn where hn: "handles w h = Some hn" "meta_ino (metadata hn) w = Some mi"
    "fdtab w (data_fd hn) = Some di"
    using lo by (rule log_okE)
  moreover from hn(2) have "metadata hn \<noteq> None"
    by (auto simp: meta_ino_def split: option.splits)
  ultimately show ?thesis
    using fl by (auto simp: mmlog_trim_def os_eval Let_def)
qed

section \<open>The log as an append log\<close>

definition log_space :: "nat \<Rightarrow> log_world \<Rightarrow> nat" where
  "log_space mi w = 2 ^ 32 - (unat (cursor (metas w mi)) + unat (chunk_size (metas w mi)))"

interpretation mmlog: append_log "\<lambda>bs. mmlog_insert env (Some h) (Some bs) (of_nat (length bs))"
  "\<lambda>w. log_ok h mi di w \<and> faults w = []" "log_contents mi di" "log_space mi"
  for env h mi di
proof unfold_locales
  fix w and bs :: "byte list"
  assume w: "log_ok h mi di w \<and> faults w = []" and bs: "bs \<noteq> []" "length bs \<le> log_space mi w"
  let ?n = "of_nat (length bs) :: u64"
  have "length bs < 2 ^ 64"
    using bs(2) by (simp add: log_space_def)
  then have n: "unat ?n = length bs"
    by (simp add: unat_of_nat)
  then have "?n \<noteq> 0"
    using bs(1) by (metis length_0_conv unat_0)
  moreover have "room mi ?n w"
  proof -
    have "0 < length bs" using bs(1) by simp
    with bs(2) show ?thesis
      unfolding room_def n log_space_def by linarith
  qed
  ultimately show "\<exists>w'. mmlog_insert env (Some h) (Some bs) ?n w = Some (True, w') \<and>
      (log_ok h mi di w' \<and> faults w' = []) \<and> log_contents mi di w' = log_contents mi di w @ bs \<and>
      log_space mi w' = log_space mi w - length bs"
    using mmlog_insert_appends [of h mi di w ?n bs env] w n by (auto simp: log_space_def)
qed

end
