(* ===== verification/Mmlog_Api.thy ===== *)
theory Mmlog_Api
  imports Mmlog_Insert
begin

text \<open>
  The public functions of \<^verbatim>\<open>fastlog/include/mmlog.h\<close> used together: opening a new log
  gives a log that satisfies the invariant of \<open>Mmlog_Insert\<close> and is empty, and a session
  of open, inserts and trim leaves exactly the inserted bytes in the data file.
\<close>

section \<open>Opening a new log\<close>

text \<open>What every reachable world has: unused numbers are unused, unused files are zero.\<close>

definition world_ok :: "log_world \<Rightarrow> bool" where
  "world_ok w \<longleftrightarrow> fresh_ok w \<and> (\<forall>p i. dir w p = Some i \<longrightarrow> i < next_ino w) \<and>
     (\<forall>i \<ge> next_ino w. metas w i = zero_metadata) \<and> (\<forall>fd \<ge> next_fd w. fdtab w fd = None) \<and>
     (\<forall>h \<ge> next_handle w. handles w h = None)"

text \<open>A log under its name: both files exist, the metadata is ready and fits the data file.\<close>

definition published :: "string \<Rightarrow> nat \<Rightarrow> nat \<Rightarrow> log_world \<Rightarrow> bool" where
  "published name mi di w \<longleftrightarrow> world_ok w \<and> faults w = [] \<and> name \<noteq> [] \<and>
     dir w (name @ meta_suffix) = Some mi \<and> dir w name = Some di \<and>
     meta_ok (metas w mi) (inodes w di) \<and> unat (chunk_size (metas w mi)) \<le> fsize (inodes w di) \<and>
     sizeof_log_metadata \<le> fsize (inodes w mi) \<and> is_ready (metas w mi) \<and> version (metas w mi) = MMLOG_VERSION"

lemma mmlog_open_creates:
  assumes fl: "faults w = []" and name: "name \<noteq> []" "dir w (name @ meta_suffix) = None"
    and k: "chunk_sz \<noteq> 0" "page dvd unat chunk_sz" "unat chunk_sz < 2 ^ 32" and n: "2 \<le> unat chunk_count"
    and ok: "world_ok w"
  shows "\<exists>w' di. mmlog_open env (Some name) chunk_sz chunk_count w = Some (Some (next_handle w), w') \<and>
     log_ok (next_handle w) (next_ino w) di w' \<and> faults w' = [] \<and>
     dir w' name = Some di \<and> log_contents (next_ino w) di w' = [] \<and>
     log_space (next_ino w) w' = 2 ^ 32 - unat chunk_sz \<and> unat (chunk_size (metas w' (next_ino w))) = unat chunk_sz \<and>
     next_handle w' = Suc (next_handle w) \<and> published name (next_ino w) di w'"
proof -
  let ?h = "next_handle w" and ?k = "ucast chunk_sz :: u32" and ?mi = "next_ino w"
  let ?cb = "(chunks zero_handle)\<lparr>capacity := unat chunk_count, buffer := replicate (unat chunk_count) Null\<rparr>"
  let ?hn = "zero_handle\<lparr>chunks := ?cb\<rparr>"
  let ?w1 = "(set_errno MMLOG_ERR_OK w)\<lparr>handles := (handles w)(?h \<mapsto> ?hn), next_handle := Suc ?h\<rparr>"
  have uk: "unat ?k = unat chunk_sz"
    using k(3) by (simp add: unsigned_ucast_eq take_bit_nat_eq_self)
  have guard: "chunk_sz mod LOG_PAGE_SIZE = 0" "\<not> chunk_count < 2"
    using k(2) n by (auto simp: LOG_PAGE_SIZE_def word_unat_eq_iff unat_mod page_def dvd_def word_less_nat_alt)
  have "?k \<noteq> 0" using k(1) uk by (metis unat_0 unat_eq_zero)
  then obtain w2 di where w2: "files_open_or_create env (Some name) ?k (Some ?h) ?w1 = Some (True, w2)"
     "dir w2 name = Some di" "inodes w2 di = resize (unat ?k) empty_file"
     "fdtab w2 = (fdtab w)(next_fd w \<mapsto> ?mi, Suc (next_fd w) \<mapsto> di)"
     "vmaps w2 = (vmaps w)(next_map w \<mapsto> \<lparr>vm_ino = ?mi, vm_off = 0, vm_len = sizeof_log_metadata\<rparr>)"
     "next_map w2 = Suc (next_map w)" "chunk_heap w2 = chunk_heap w" "next_chunk w2 = next_chunk w"
     "metas w2 = (metas w)(?mi := created_metadata ?k (metas w ?mi))" "faults w2 = []"
     "handles w2 = (handles ?w1)(?h \<mapsto> ?hn\<lparr>metadata := Some (next_map w), data_fd := Suc (next_fd w), metadata_fd := next_fd w\<rparr>)"
     "next_fd w2 = Suc (Suc (next_fd w))" "next_handle w2 = Suc ?h" "dir w2 (name @ meta_suffix) = Some ?mi"
     "?mi \<noteq> di \<longrightarrow> fsize (inodes w2 ?mi) = sizeof_log_metadata"
     "\<forall>p. p \<noteq> name \<and> p \<noteq> name @ meta_suffix \<longrightarrow> dir w2 p = dir w p"
     "di = Suc ?mi \<and> next_ino w2 = Suc di \<or> dir w name = Some di \<and> next_ino w2 = Suc ?mi"
    using files_open_or_create_creates [of ?w1 name ?k ?h ?hn ?mi env] fl name k uk by auto
  let ?w3 = "upd_chunks ?h (\<lambda>cb. cb\<lparr>head := Some 0\<rparr>) w2"
  have md: "metas w2 ?mi = created_metadata ?k zero_metadata"
    using ok by (simp add: w2(9) world_ok_def)
  have op: "mmlog_open env (Some name) chunk_sz chunk_count w = Some (Some ?h, ?w3)"
    using guard k(1) fl w2(1) by (simp add: mmlog_open_def os_eval Let_def)
  have "log_ok ?h ?mi di ?w3"
  proof (rule log_okI)
    show "handles ?w3 ?h = Some (?hn\<lparr>metadata := Some (next_map w), data_fd := Suc (next_fd w),
        metadata_fd := next_fd w, chunks := ?cb\<lparr>head := Some 0\<rparr>\<rparr>)"
      by (simp add: w2(11))
    show "meta_ok (metas ?w3 ?mi) (inodes ?w3 di)"
      using md w2(3) k uk by (auto simp: meta_ok_def created_metadata_def zero_metadata_def unat_gt_0)
    have "fresh_ok ?w3"
      using ok by (auto simp: world_ok_def fresh_ok_def w2)
    then show "ring_ok di (unat (chunk_size (metas ?w3 ?mi))) (chunks (?hn\<lparr>metadata := Some (next_map w),
        data_fd := Suc (next_fd w), metadata_fd := next_fd w, chunks := ?cb\<lparr>head := Some 0\<rparr>\<rparr>)) ?w3"
      using n by (simp add: ring_ok_def zero_handle_def)
  qed (simp_all add: meta_ino_def w2)
  moreover have "log_contents ?mi di ?w3 = []" and "log_space ?mi ?w3 = 2 ^ 32 - unat chunk_sz"
    using md by (simp_all add: log_contents_def log_space_def created_metadata_def zero_metadata_def uk)
  moreover have "unat (chunk_size (metas ?w3 ?mi)) = unat chunk_sz"
    using md by (simp add: created_metadata_def uk)
  moreover have "published name ?mi di ?w3"
  proof -
    have "dir w name = Some di \<Longrightarrow> di < ?mi" using ok by (auto simp: world_ok_def)
    then have di: "?mi \<noteq> di" "di < next_ino w2" "?mi < next_ino w2"
      using w2(17) by auto
    have "dir w2 p = Some i \<Longrightarrow> i < next_ino w2" for p i
      using w2(2,14,16) di ok less_trans [of i ?mi "next_ino w2"]
      by (cases "p = name"; cases "p = name @ meta_suffix") (auto simp: world_ok_def)
    then have "world_ok ?w3"
      using ok di(2,3) w2 log_ok_fresh [OF \<open>log_ok ?h ?mi di ?w3\<close>] by (auto simp: world_ok_def)
    then show ?thesis
      using log_ok_fresh [OF \<open>log_ok ?h ?mi di ?w3\<close>] w2 di md name fl uk
      by (simp add: published_def created_metadata_def)
  qed
  ultimately show ?thesis
    using op w2 by (intro exI [of _ ?w3] exI [of _ di]) simp
qed

section \<open>A session\<close>

text \<open>A machine with nothing on it, and a clock that stands still.\<close>

definition empty_world :: log_world where
  "empty_world = \<lparr>dir = (\<lambda>_. None), inodes = (\<lambda>_. empty_file), next_ino = 0, fdtab = (\<lambda>_. None),
     next_fd = 3, vmaps = (\<lambda>_. None), next_map = 0, faults = [], mmlog_errno = MMLOG_ERR_OK,
     cell = (\<lambda>_. None), clock = (\<lambda>_. Some (0, 0)), ticks = 0, metas = (\<lambda>_. zero_metadata),
     chunk_heap = (\<lambda>_. None), next_chunk = 0, handles = (\<lambda>_. None), next_handle = 0\<rparr>"

lemma world_ok_empty: "world_ok empty_world"
  by (simp add: world_ok_def empty_world_def fresh_ok_def)

abbreviation insert_record :: "(log_world \<Rightarrow> log_world) \<Rightarrow> nat \<Rightarrow> byte list \<Rightarrow> bool log_act" where
  "insert_record env h bs \<equiv> mmlog_insert env (Some h) (Some bs) (of_nat (length bs))"

lemma log_contents_bytes:
  "log_ok h mi di w \<Longrightarrow> unat (cursor (metas w mi)) \<le> fsize (inodes w di)"
  by (auto elim!: log_okE simp: meta_ok_def)

text \<open>
  C1. A session on a new log: open it, insert any sequence of non-empty records (they and one
  chunk fit into \<open>2 ^ 32\<close> bytes), trim it. Every call succeeds, and the data file then
  holds the records one after the other, nothing before, between or after them.
\<close>

theorem session_holds_records:
  assumes "faults w = []" and "name \<noteq> []" and "dir w (name @ meta_suffix) = None"
    and "chunk_sz \<noteq> 0" and "page dvd unat chunk_sz" and "unat chunk_sz < 2 ^ 32"
    and "2 \<le> unat chunk_count" and "world_ok w"
    and "[] \<notin> set recs" and "length (concat recs) + unat chunk_sz \<le> 2 ^ 32"
  shows "\<exists>h w1 w2 w3 di.
     mmlog_open env (Some name) chunk_sz chunk_count w = Some (Some h, w1) \<and> dir w1 name = Some di \<and>
     append_all (insert_record env h) recs w1 = Some (True, w2) \<and>
     mmlog_trim (Some h) w2 = Some ((), w3) \<and> mmlog_errno w3 = MMLOG_ERR_OK \<and>
     file_bytes (inodes w3 di) = concat recs"
proof -
  let ?h = "next_handle w" and ?mi = "next_ino w"
  obtain w1 di where w1: "mmlog_open env (Some name) chunk_sz chunk_count w = Some (Some ?h, w1)"
    "log_ok ?h ?mi di w1" "faults w1 = []" "dir w1 name = Some di" "log_contents ?mi di w1 = []"
    "log_space ?mi w1 = 2 ^ 32 - unat chunk_sz"
    using mmlog_open_creates [OF assms(1-8), of env] by blast
  have "length (concat recs) \<le> log_space ?mi w1"
    using assms(10) by (simp only: w1(6))
  then obtain w2 where w2: "append_all (insert_record env ?h) recs w1 = Some (True, w2)"
    "log_ok ?h ?mi di w2" "faults w2 = []" "log_contents ?mi di w2 = concat recs"
    using mmlog.append_all_holds [of ?h ?mi di w1 recs env] w1 assms(9) by auto
  have "length (log_contents ?mi di w2) = unat (cursor (metas w2 ?mi))"
    using log_contents_bytes [OF w2(2)] by (simp add: log_contents_def)
  then have "unat (cursor (metas w2 ?mi)) < 2 ^ 63"
    using assms(10) by (simp add: w2(4))
  from mmlog_trim_fine [OF w2(2,3) this] w1 w2 take_file_bytes_resize [OF log_contents_bytes [OF w2(2)]]
  show ?thesis
    by (fastforce simp: log_contents_def)
qed

theorem session_holds_records_witness:
  "\<exists>h w1 w2 w3 di.
     mmlog_open (\<lambda>w. w) (Some ''log'') 4096 2 empty_world = Some (Some h, w1) \<and> dir w1 ''log'' = Some di \<and>
     append_all (insert_record (\<lambda>w. w) h) [[1, 2], [3]] w1 = Some (True, w2) \<and>
     mmlog_trim (Some h) w2 = Some ((), w3) \<and> mmlog_errno w3 = MMLOG_ERR_OK \<and>
     file_bytes (inodes w3 di) = [1, 2, 3]"
  using session_holds_records [of empty_world "''log''" 4096 2 "[[1, 2], [3]]" "\<lambda>w. w"] world_ok_empty
  by (simp add: empty_world_def page_def)

section \<open>Single operations\<close>

text \<open>The world after \<open>mmlog_open("log", 4096, 2)\<close> on an empty machine, written out.\<close>

definition demo_world :: log_world where
  "demo_world = empty_world\<lparr>
     dir := [''log.mmlog'' \<mapsto> 0, ''log'' \<mapsto> 1],
     inodes := (\<lambda>_. empty_file)(0 := resize 32 empty_file, 1 := resize 4096 empty_file), next_ino := 2,
     fdtab := [3 \<mapsto> 0, 4 \<mapsto> 1], next_fd := 5,
     vmaps := [0 \<mapsto> \<lparr>vm_ino = 0, vm_off = 0, vm_len = 32\<rparr>], next_map := 1,
     metas := (\<lambda>_. zero_metadata)(0 := created_metadata 4096 zero_metadata),
     handles := [0 \<mapsto> \<lparr>metadata_fd = 3, data_fd = 4, metadata = Some 0,
        chunks = \<lparr>buffer = [Null, Null], capacity = 2, head = Some 0, tail = None, head_locked = False\<rparr>\<rparr>],
     next_handle := 1\<rparr>"

lemma demo_world_simps [simp]:
  "faults demo_world = []" "metas demo_world 0 = created_metadata 4096 zero_metadata"
  "inodes demo_world 1 = resize 4096 empty_file" "inodes demo_world (Suc 0) = resize 4096 empty_file"
  "handles demo_world 0 = Some \<lparr>metadata_fd = 3, data_fd = 4, metadata = Some 0,
        chunks = \<lparr>buffer = [Null, Null], capacity = 2, head = Some 0, tail = None, head_locked = False\<rparr>\<rparr>"
  "meta_ino (Some 0) demo_world = Some 0" "fdtab demo_world 4 = Some 1"
  "ticks demo_world = 0" "clock demo_world = (\<lambda>_. Some (0, 0))"
  by (simp_all add: demo_world_def empty_world_def meta_ino_def)

lemma demo_metadata [simp]:
  "cursor (created_metadata k zero_metadata) = 0" "chunk_size (created_metadata k zero_metadata) = k"
  "file_size (created_metadata k zero_metadata) = ucast k"
  "\<not> is_locked (created_metadata k zero_metadata)" "\<not> is_panicked (created_metadata k zero_metadata)"
  by (simp_all add: created_metadata_def zero_metadata_def)

lemma demo_world_log_ok: "log_ok 0 0 1 demo_world"
proof (rule log_okI)
  show "ring_ok 1 (unat (chunk_size (metas demo_world 0)))
     (chunks \<lparr>metadata_fd = 3, data_fd = 4, metadata = Some 0,
        chunks = \<lparr>buffer = [Null, Null], capacity = 2, head = Some 0, tail = None, head_locked = False\<rparr>\<rparr>) demo_world"
    by (simp add: ring_ok_def fresh_ok_def) (simp add: demo_world_def empty_world_def)
qed (simp_all add: meta_ok_def page_def)

text \<open>
  C2. An insert of \<open>sz > 0\<close> bytes into an intact log with room for them succeeds, leaves
  the log intact and extends its contents by exactly these bytes; the cursor moves by
  \<open>sz\<close>. It does not matter which of the two ways is taken, \<open>pwrite\<close> for spans of whole
  chunks or the copy into one or two mapped chunks.
\<close>

theorem insert_appends_record:
  assumes "log_ok h mi di w" and "faults w = []" and "sz \<noteq> 0" and "unat sz \<le> length bs"
    and "unat (cursor (metas w mi)) + unat sz + unat (chunk_size (metas w mi)) \<le> 2 ^ 32"
  shows "\<exists>w'. mmlog_insert env (Some h) (Some bs) sz w = Some (True, w') \<and> log_ok h mi di w' \<and>
           log_contents mi di w' = log_contents mi di w @ take (unat sz) bs \<and>
           unat (cursor (metas w' mi)) = unat (cursor (metas w mi)) + unat sz"
  using mmlog_insert_appends [of h mi di w sz bs env] assms by (auto simp: room_def)

theorem insert_appends_record_witness:
  "\<exists>w'. mmlog_insert (\<lambda>w. w) (Some 0) (Some [7, 8, 9, 10]) 3 demo_world = Some (True, w') \<and> log_ok 0 0 1 w' \<and>
     log_contents 0 1 w' = [7, 8, 9] \<and> unat (cursor (metas w' 0)) = 3"
  using insert_appends_record [of 0 0 1 demo_world 3 "[7, 8, 9, 10]" "\<lambda>w. w"] demo_world_log_ok
  by (simp add: log_contents_def)

text \<open>
  C3. \<open>mmlog_checkout\<close> hands out the range that starts at the cursor: it returns the old
  cursor, the cursor moves by the size, and afterwards the recorded file size and the
  data file itself reach to the end of the range. The bytes in front of it are kept.
\<close>

theorem checkout_reserves_range:
  assumes "log_ok h mi di w" and "faults w = []"
    and "unat (cursor (metas w mi)) + unat sz + unat (chunk_size (metas w mi)) \<le> 2 ^ 32"
  shows "\<exists>w'. mmlog_checkout env (Some h) sz w = Some (cursor (metas w mi), w') \<and> log_ok h mi di w' \<and>
           unat (cursor (metas w' mi)) = unat (cursor (metas w mi)) + unat sz \<and>
           unat (cursor (metas w mi)) + unat sz \<le> unat (file_size (metas w' mi)) \<and>
           fsize (inodes w' di) = unat (file_size (metas w' mi)) \<and>
           (\<forall>i < fsize (inodes w di). fdata (inodes w' di) i = fdata (inodes w di) i)"
proof -
  obtain w' where w': "mmlog_checkout env (Some h) sz w = Some (cursor (metas w mi), w')" "log_ok h mi di w'"
     "core w' = core (reserved mi di sz w)"
    using mmlog_checkout_log_ok [of h mi di w sz env] assms by (auto simp: room_def)
  have "meta_ok (metas w mi) (inodes w di)"
    using assms(1) by (rule log_okE)
  from reserved_meta [OF this assms(3)] w' core_eqD [OF w'(3)] show ?thesis
    by (auto simp: meta_ok_def)
qed

theorem checkout_reserves_range_witness:
  "\<exists>w'. mmlog_checkout (\<lambda>w. w) (Some 0) 5000 demo_world = Some (0, w') \<and> log_ok 0 0 1 w' \<and>
     unat (cursor (metas w' 0)) = 5000 \<and> 5000 \<le> unat (file_size (metas w' 0)) \<and>
     fsize (inodes w' 1) = unat (file_size (metas w' 0)) \<and> (\<forall>i < 4096. fdata (inodes w' 1) i = 0)"
  using checkout_reserves_range [of 0 0 1 demo_world 5000 "\<lambda>w. w"] demo_world_log_ok
  by (simp add: resize_def empty_file_def)



section \<open>Failures\<close>

text \<open>
  C5. When the file cannot be grown, \<open>mmlog_checkout\<close> says so (\<open>LOG_CURSOR_INVALID\<close> and
  \<open>FILE_EXPAND_INNER_GROW\<close>) and marks the log as panicked, without holding the lock. The
  cursor is not moved back: the refused range stays in the log as a gap.
\<close>

theorem checkout_failure_keeps_cursor_advanced:
  assumes "log_ok h mi di w" and "faults w = Fail # fs"
    and "file_size (metas w mi) < cursor (metas w mi) + sz"
  shows "\<exists>w'. mmlog_checkout env (Some h) sz w = Some (LOG_CURSOR_INVALID, w') \<and>
           mmlog_errno w' = MMLOG_ERR_FILE_EXPAND_INNER_GROW \<and> inodes w' = inodes w \<and>
           metas w' mi = (metas w mi)\<lparr>cursor := cursor (metas w mi) + sz, is_panicked := True\<rparr> \<and>
           \<not> is_locked (metas w' mi)"
proof -
  obtain hn where hn: "handles w h = Some hn" "meta_ino (metadata hn) w = Some mi" "meta_ok (metas w mi) (inodes w di)"
    using assms(1) by (rule log_okE)
  from hn(2) obtain m where m: "metadata hn = Some m" by (cases "metadata hn") (auto simp: meta_ino_def)
  let ?e = "cursor (metas w mi) + sz"
  let ?w1 = "upd_meta mi (\<lambda>md. md\<lparr>cursor := ?e\<rparr>) (set_errno MMLOG_ERR_OK w)"
  obtain w' where w': "data_file_expand env h ?e ?w1 = Some (False, w')"
      "mmlog_errno w' = MMLOG_ERR_FILE_EXPAND_INNER_GROW"
      "core w' = core (upd_meta mi (\<lambda>md. md\<lparr>is_panicked := True\<rparr>) (?w1\<lparr>faults := fs\<rparr>))"
    using data_file_expand_fails [of ?w1 h hn mi ?e fs env] hn assms(2,3) by (auto simp: meta_ok_def core_def)
  have "mmlog_checkout env (Some h) sz w = Some (LOG_CURSOR_INVALID, w')"
    using hn m assms(3) w'(1) by (simp add: mmlog_checkout_def Let_def)
  with w'(2) core_eqD [OF w'(3)] hn(3) show ?thesis
    by (simp add: meta_ok_def)
qed

theorem checkout_failure_keeps_cursor_advanced_witness:
  "\<exists>w'. mmlog_checkout (\<lambda>w. w) (Some 0) 5000 (demo_world\<lparr>faults := [Fail]\<rparr>) = Some (LOG_CURSOR_INVALID, w') \<and>
     mmlog_errno w' = MMLOG_ERR_FILE_EXPAND_INNER_GROW \<and> inodes w' = inodes demo_world \<and>
     metas w' 0 = (created_metadata 4096 zero_metadata)\<lparr>cursor := 5000, is_panicked := True\<rparr> \<and>
     \<not> is_locked (metas w' 0)"
proof -
  have "log_ok 0 0 1 (demo_world\<lparr>faults := [Fail]\<rparr>)"
    using demo_world_log_ok ring_ok_cong [of "demo_world\<lparr>faults := [Fail]\<rparr>" demo_world]
    by (auto elim!: log_okE intro!: log_okI)
  from checkout_failure_keeps_cursor_advanced [OF this, of "[]" 5000 "\<lambda>w. w"] show ?thesis by simp
qed

text \<open>
  The panic is for ever, and so is the lock: one attempt to grow a panicked log takes
  the lock in the shared metadata, fails with \<open>FILE_EXPAND_INNER_PANICKED\<close> and leaves
  the lock taken; every further attempt fails with \<open>FILE_EXPAND_INNER_LOCKED\<close>.
\<close>

theorem panicked_expansion_leaks_lock:
  assumes "handles w h = Some hn" and "meta_ino (metadata hn) w = Some mi" and "is_panicked (metas w mi)"
    and "\<not> is_locked (metas w mi)"
  shows "\<exists>w1 w2. file_expand_inner h e1 w = Some (False, w1) \<and>
           mmlog_errno w1 = MMLOG_ERR_FILE_EXPAND_INNER_PANICKED \<and> is_locked (metas w1 mi) \<and>
           file_expand_inner h e2 w1 = Some (False, w2) \<and>
           mmlog_errno w2 = MMLOG_ERR_FILE_EXPAND_INNER_LOCKED \<and> metas w2 = metas w1"
  using assms by (simp add: file_expand_inner_def Let_def)

theorem panicked_expansion_leaks_lock_witness:
  "\<exists>w1 w2. file_expand_inner 0 8192 (upd_meta 0 (\<lambda>md. md\<lparr>is_panicked := True\<rparr>) demo_world) = Some (False, w1) \<and>
     mmlog_errno w1 = MMLOG_ERR_FILE_EXPAND_INNER_PANICKED \<and> is_locked (metas w1 0) \<and>
     file_expand_inner 0 8192 w1 = Some (False, w2) \<and>
     mmlog_errno w2 = MMLOG_ERR_FILE_EXPAND_INNER_LOCKED \<and> metas w2 = metas w1"
  using panicked_expansion_leaks_lock [of "upd_meta 0 (\<lambda>md. md\<lparr>is_panicked := True\<rparr>) demo_world" 0 _ 0 8192 8192]
  by simp

text \<open>
  C7. \<open>data_file_expand\<close> always returns: whatever other threads and processes do, as long as
  they do not take away the handle or its mapping, it ends as soon as one reading of the
  clock is \<open>SLEEP_TIME_MAX_MS\<close> later than the first.
\<close>

theorem expansion_returns:
  assumes "attached h w"
    and "ms_at w (ticks w) + SLEEP_TIME_MAX_MS \<le> ms_at w (ticks w + n)"
  shows "\<exists>b w'. data_file_expand (respect (attached h) e) h endp w = Some (b, w')"
proof -
  have "attached h (set_errno MMLOG_ERR_OK w)"
    using assms(1) by (auto simp: attached_def split: option.splits)
  moreover have "ms_at (set_errno MMLOG_ERR_OK w) = ms_at w"
    by (simp add: ms_at_def fun_eq_iff)
  ultimately obtain b w1 where w1: "hot_wait_for_cond (file_expand_inner h endp) (respect (attached h) e)
      SLEEP_TIME_MAX_MS (set_errno MMLOG_ERR_OK w) = Some (b, w1)" "attached h w1"
    using expansion.wait_returns [of h "set_errno MMLOG_ERR_OK w" SLEEP_TIME_MAX_MS n endp e] assms(2) by auto
  from w1(2) obtain hn mi where "handles w1 h = Some hn" "meta_ino (metadata hn) w1 = Some mi"
    by (rule attachedE)
  with w1(1) show ?thesis
    by (cases b) (auto simp: data_file_expand_def)
qed

definition demo_clock :: "nat \<Rightarrow> (int \<times> int) option" where
  "demo_clock n = Some (int n, 0)"

theorem expansion_returns_witness:
  "\<exists>b w'. data_file_expand (respect (attached 0) (\<lambda>w. w)) 0 8192 (demo_world\<lparr>clock := demo_clock\<rparr>) = Some (b, w')"
  by (rule expansion_returns [where n = 1])
     (simp_all add: attached_def ms_at_def demo_clock_def SLEEP_TIME_MAX_MS_def meta_ino_def demo_world_def empty_world_def)



text \<open>
  Taking the head lock returns as soon as the clock passes the deadline, and when the
  lock stays held by somebody else it returns false: \<open>mmlog_rb_checkout\<close> then fails
  with \<open>MMLOG_RB_CHECKOUT_NOLOCK\<close>, still holding nothing.
\<close>

theorem rb_checkout_held_lock:
  assumes "handles w h = Some hn" and "head_locked (chunks hn)" and "buffer (chunks hn) \<noteq> []"
    and "ms_at w (ticks w) + SLEEP_TIME_MAX_MS \<le> ms_at w (ticks w + n)"
  shows "\<exists>w'. mmlog_rb_checkout (respect (head_held h) e) (Some h) cur w = Some (None, w') \<and>
           mmlog_errno w' = MMLOG_ERR_MMLOG_RB_CHECKOUT_NOLOCK \<and> head_held h w'"
proof -
  have "head_held h (set_errno MMLOG_ERR_OK w)"
    using assms(1,2) by (simp add: head_held_def)
  moreover have "ms_at (set_errno MMLOG_ERR_OK w) = ms_at w"
    by (simp add: ms_at_def fun_eq_iff)
  ultimately obtain w1 where "lock_head (respect (head_held h) e) h (set_errno MMLOG_ERR_OK w) = Some (False, w1)"
      "head_held h w1"
    using held_lock.wait_refused [of h "set_errno MMLOG_ERR_OK w" SLEEP_TIME_MAX_MS n e] assms(4)
    by (auto simp: SLEEP_TIME_MAX_MS_def lock_head_def)
  then show ?thesis
    using assms(1,3) by (simp add: mmlog_rb_checkout_def head_held_def)
qed

theorem rb_checkout_held_lock_witness:
  "\<exists>w'. mmlog_rb_checkout (respect (head_held 0) (\<lambda>w. w)) (Some 0) 7
      (upd_chunks 0 (\<lambda>cb. cb\<lparr>head_locked := True\<rparr>) (demo_world\<lparr>clock := demo_clock\<rparr>)) = Some (None, w') \<and>
     mmlog_errno w' = MMLOG_ERR_MMLOG_RB_CHECKOUT_NOLOCK \<and> head_held 0 w'"
  by (rule rb_checkout_held_lock [where n = 1 and hn = "\<lparr>metadata_fd = 3, data_fd = 4, metadata = Some 0,
        chunks = \<lparr>buffer = [Null, Null], capacity = 2, head = Some 0, tail = None, head_locked = True\<rparr>\<rparr>"])
     (simp_all add: ms_at_def demo_clock_def SLEEP_TIME_MAX_MS_def demo_world_def empty_world_def)

section \<open>Arithmetic of the file size\<close>

text \<open>
  For a chunk size that is a power of two, and as long as the sum stays below \<open>2 ^ 32\<close>,
  \<open>ALIGN\<close> rounds up to the next multiple of the chunk size.
\<close>

theorem ALIGN_power_of_two:
  assumes "a = 2 ^ n" and "n < 32" and "unat x + 2 ^ n - 1 < 2 ^ 32"
  shows "unat (ALIGN x a) = (unat x + 2 ^ n - 1) div 2 ^ n * 2 ^ n"
proof -
  have ua: "unat a = 2 ^ n" using assms(1,2) by (simp add: unat_pow2)
  let ?y = "x + ucast a - 1"
  have "unat (a - 1) = 2 ^ n - 1"
    using ua by (subst unat_sub_le) simp_all
  then have "(ucast (a - 1) :: u64) = mask n"
    using assms(2) by (simp add: word_unat_eq_iff unat_mask_u64)
  then have "unat (ALIGN x a) = unat ?y - unat ?y mod 2 ^ n"
    using assms ua by (simp add: ALIGN_eq_low unat_and_not unat_and_mask)
  then show ?thesis
    using ALIGN_sum [of a x] ua assms(3) by (simp add: minus_mod_eq_div_mult)
qed

theorem ALIGN_power_of_two_witness: "unat (ALIGN 5000 4096) = 8192"
  using ALIGN_power_of_two [of 4096 12 5000] by simp





section \<open>Reclaiming chunks\<close>

text \<open>
  No chunk is ever given back: on an intact log \<open>clean_chunks\<close> changes nothing but the
  error number, because \<open>tail\<close> is \<open>NULL\<close>; and no insert changes that, it leads to a
  log on which cleaning changes nothing again.
\<close>

theorem cleaning_reclaims_nothing:
  assumes "log_ok h mi di w" and "faults w = []" and "sz \<noteq> 0" and "unat sz \<le> length bs" and "room mi sz w"
  shows "clean_chunks (Some h) w = Some (True, set_errno MMLOG_ERR_OK w) \<and>
     (\<exists>w'. mmlog_insert env (Some h) (Some bs) sz w = Some (True, w') \<and>
           clean_chunks (Some h) w' = Some (True, set_errno MMLOG_ERR_OK w'))"
proof -
  have "clean_chunks (Some h) v = Some (True, set_errno MMLOG_ERR_OK v)" if "log_ok h mi di v" for v
    using that by (auto elim!: log_okE intro!: clean_chunks_no_tail simp: ring_ok_def)
  with mmlog_insert_appends [OF assms, of env] assms(1) show ?thesis by blast
qed

theorem cleaning_reclaims_nothing_witness:
  "clean_chunks (Some 0) demo_world = Some (True, set_errno MMLOG_ERR_OK demo_world) \<and>
     (\<exists>w'. mmlog_insert (\<lambda>w. w) (Some 0) (Some [5]) 1 demo_world = Some (True, w') \<and>
           clean_chunks (Some 0) w' = Some (True, set_errno MMLOG_ERR_OK w'))"
  using cleaning_reclaims_nothing [of 0 0 1 demo_world 1 "[5]" "\<lambda>w. w"] demo_world_log_ok
  by (simp add: room_def)

section \<open>A clock that fails\<close>

text \<open>
  When \<open>clock_gettime\<close> keeps failing and the head lock stays taken, \<open>lock_head\<close> does not
  return: every reading is \<open>-1\<close>, the elapsed time stays zero and the deadline is never
  reached.
\<close>

theorem lock_head_hangs_without_clock:
  assumes "\<forall>n. clock w n = None" and "head_held h w"
  shows "lock_head (respect (head_held h) e) h w = None"
  unfolding lock_head_def using assms by (intro held_lock.wait_stuck) (simp_all add: SLEEP_TIME_MAX_MS_def)

theorem lock_head_hangs_without_clock_witness:
  "lock_head (respect (head_held 0) (\<lambda>w. w)) 0
     (upd_chunks 0 (\<lambda>cb. cb\<lparr>head_locked := True\<rparr>) (demo_world\<lparr>clock := (\<lambda>_. None)\<rparr>)) = None"
  by (rule lock_head_hangs_without_clock) (simp_all add: head_held_def demo_world_def empty_world_def)

section \<open>Opening\<close>

text \<open>
  C14. \<open>files_create\<close> returns for every pattern of failing system calls, and when it reports
  failure every descriptor and mapping it had taken is given back and the handle is as
  it was.
\<close>

theorem files_create_gives_back:
  assumes "world_ok w" and "handles w h = Some hn"
  shows "\<exists>b w'. files_create fd_meta name k h w = Some (b, w') \<and>
           (b \<or> fdtab w' = fdtab w \<and> vmaps w' = vmaps w \<and> handles w' = handles w)"
proof -
  have "fdtab w (next_fd w) = None" "vmaps w (next_map w) = None"
    using assms(1) by (simp_all add: world_ok_def fresh_ok_def)
  from files_create_releases [OF this assms(2), of fd_meta name k] show ?thesis
    by (auto simp: released_def same_resources_def split: option.splits)
qed

definition failing_world :: log_world where
  "failing_world = empty_world\<lparr>fdtab := [3 \<mapsto> 0], next_fd := 4, next_ino := 1,
     faults := [Fine, Fine, Fine, Fail], handles := [0 \<mapsto> zero_handle], next_handle := 1\<rparr>"

theorem files_create_gives_back_witness:
  "\<exists>b w'. files_create 3 ''log'' 4096 0 failing_world = Some (b, w') \<and>
     (b \<or> fdtab w' = fdtab failing_world \<and> vmaps w' = vmaps failing_world \<and> handles w' = handles failing_world)"
  by (rule files_create_gives_back [where hn = zero_handle])
     (simp_all add: failing_world_def empty_world_def world_ok_def fresh_ok_def)

section \<open>Opening an existing log\<close>

lemma try_check_file_ready_opens:
  assumes "faults w = []" "dir w p = Some ino" "sz \<le> fsize (inodes w ino)" "cell w v = None"
  shows "try_check_file_ready v p sz w = Some (True, w\<lparr>fdtab := (fdtab w)(next_fd w \<mapsto> ino),
           next_fd := Suc (next_fd w), cell := (cell w)(v \<mapsto> next_fd w)\<rparr>)"
  using assms by (simp add: try_check_file_ready_def check_size_def os_eval new_fd_def)

text \<open>The metadata file is opened, mapped and found ready; what is left is the check of the data file.\<close>

lemma files_open_upto_data:
  assumes fl: "faults w = []" and hn: "handles w h = Some hn"
    and files: "dir w mname = Some mi"
    and md: "sizeof_log_metadata \<le> fsize (inodes w mi)" "is_ready (metas w mi)" "version (metas w mi) = MMLOG_VERSION"
    and w3: "w3 = tick ((tick ((set_errno MMLOG_ERR_OK w)\<lparr>cell := (\<lambda>_. None)\<rparr>))
       \<lparr>fdtab := (fdtab w)(next_fd w \<mapsto> mi), next_fd := Suc (next_fd w), cell := [FdMeta \<mapsto> next_fd w],
        vmaps := (vmaps w)(next_map w \<mapsto> \<lparr>vm_ino = mi, vm_off = 0, vm_len = sizeof_log_metadata\<rparr>),
        next_map := Suc (next_map w)\<rparr>)"
  shows "files_open env name mname h w = do {
     (ok, v) \<leftarrow> hot_wait_for_cond (try_check_file_ready FdData name (unat (chunk_size (metas w mi)))) env SLEEP_TIME_MAX_MS w3;
     if \<not> ok
     then files_open_cleanup (Some (next_map w))
            (rename_errno MMLOG_ERR_FILES_OPEN_DATA_READY_OPEN MMLOG_ERR_FILES_OPEN_DATA_READY_FSTAT v)
     else do {
       hn \<leftarrow> handles v h;
       fd_meta \<leftarrow> cell v FdMeta;
       fd_data \<leftarrow> cell v FdData;
       Some (True, v\<lparr>handles := (handles v)(h \<mapsto>
          hn\<lparr>metadata_fd := fd_meta, data_fd := fd_data, metadata := Some (next_map w)\<rparr>)\<rparr>)
     }
   }"
proof -
  let ?w0 = "(set_errno MMLOG_ERR_OK w)\<lparr>cell := (\<lambda>_. None)\<rparr>"
  let ?w1 = "(tick ?w0)\<lparr>fdtab := (fdtab w)(next_fd w \<mapsto> mi), next_fd := Suc (next_fd w), cell := [FdMeta \<mapsto> next_fd w]\<rparr>"
  let ?w2 = "?w1\<lparr>vmaps := (vmaps w)(next_map w \<mapsto> \<lparr>vm_ino = mi, vm_off = 0, vm_len = sizeof_log_metadata\<rparr>), next_map := Suc (next_map w)\<rparr>"
  have tmo: "0 < SLEEP_TIME_MAX_MS" by (simp add: SLEEP_TIME_MAX_MS_def)
  have 1: "hot_wait_for_cond (try_check_file_ready FdMeta mname sizeof_log_metadata) env SLEEP_TIME_MAX_MS ?w0 = Some (True, ?w1)"
    using fl files md by (intro hot_wait_first [OF tmo] trans [OF try_check_file_ready_opens]) simp_all
  have 2: "hot_wait_for_cond (try_check_metadata_ready (next_map w)) env SLEEP_TIME_MAX_MS ?w2 = Some (True, w3)"
    using md by (intro hot_wait_first [OF tmo]) (simp add: try_check_metadata_ready_def meta_ino_def w3)
  have mm: "sys_mmap (next_fd w) sizeof_log_metadata 0 ?w1 = (Some (next_map w), ?w2)"
    using fl by (subst sys_mmap_fine [where ino = mi]) (simp_all add: sizeof_log_metadata_def)
  have mi: "meta_ino (Some (next_map w)) ?w2 = Some mi" "meta_ino (Some (next_map w)) w3 = Some mi"
    by (simp_all add: meta_ino_def w3)
  have ms: "metas w3 mi = metas w mi" by (simp add: w3)
  show ?thesis
    using hn md(3) by (simp add: files_open_def Let_def 1 mm mi 2 ms cong: if_cong)
qed

lemma files_open_fine:
  assumes fl: "faults w = []" and hn: "handles w h = Some hn"
    and files: "dir w mname = Some mi" "dir w name = Some di"
    and md: "sizeof_log_metadata \<le> fsize (inodes w mi)" "is_ready (metas w mi)" "version (metas w mi) = MMLOG_VERSION"
      "unat (chunk_size (metas w mi)) \<le> fsize (inodes w di)"
  shows "\<exists>w'. files_open env name mname h w = Some (True, w') \<and> faults w' = [] \<and>
     handles w' = (handles w)(h \<mapsto> hn\<lparr>metadata_fd := next_fd w, data_fd := Suc (next_fd w), metadata := Some (next_map w)\<rparr>) \<and>
     inodes w' = inodes w \<and> metas w' = metas w \<and> dir w' = dir w \<and> chunk_heap w' = chunk_heap w \<and> next_chunk w' = next_chunk w \<and>
     fdtab w' = (fdtab w)(next_fd w \<mapsto> mi, Suc (next_fd w) \<mapsto> di) \<and> next_map w' = Suc (next_map w) \<and>
     next_fd w' = Suc (Suc (next_fd w)) \<and> next_ino w' = next_ino w \<and> next_handle w' = next_handle w \<and>
     vmaps w' = (vmaps w)(next_map w \<mapsto> \<lparr>vm_ino = mi, vm_off = 0, vm_len = sizeof_log_metadata\<rparr>)"
proof -
  define w3 where "w3 = tick ((tick ((set_errno MMLOG_ERR_OK w)\<lparr>cell := (\<lambda>_. None)\<rparr>))
       \<lparr>fdtab := (fdtab w)(next_fd w \<mapsto> mi), next_fd := Suc (next_fd w), cell := [FdMeta \<mapsto> next_fd w],
        vmaps := (vmaps w)(next_map w \<mapsto> \<lparr>vm_ino = mi, vm_off = 0, vm_len = sizeof_log_metadata\<rparr>),
        next_map := Suc (next_map w)\<rparr>)"
  let ?w4 = "(tick w3)\<lparr>fdtab := (fdtab w)(next_fd w \<mapsto> mi, Suc (next_fd w) \<mapsto> di), next_fd := Suc (Suc (next_fd w)),
     cell := [FdMeta \<mapsto> next_fd w, FdData \<mapsto> Suc (next_fd w)]\<rparr>"
  have "0 < SLEEP_TIME_MAX_MS" by (simp add: SLEEP_TIME_MAX_MS_def)
  then have "hot_wait_for_cond (try_check_file_ready FdData name (unat (chunk_size (metas w mi)))) env SLEEP_TIME_MAX_MS w3 = Some (True, ?w4)"
    using fl files md by (intro hot_wait_first trans [OF try_check_file_ready_opens]) (simp_all add: w3_def)
  with files_open_upto_data [OF fl hn files(1) md(1-3) w3_def] show ?thesis
    using fl hn by (simp add: w3_def)
qed

lemma mmlog_open_existing:
  assumes pub: "published name mi di w"
    and k: "page dvd unat chunk_sz" "0 < unat chunk_sz" "unat chunk_sz < 2 ^ 32" "2 \<le> unat chunk_count"
  shows "\<exists>w'. mmlog_open env (Some name) chunk_sz chunk_count w = Some (Some (next_handle w), w') \<and>
     log_ok (next_handle w) mi di w' \<and> log_contents mi di w' = log_contents mi di w \<and>
     metas w' = metas w \<and> inodes w' = inodes w \<and> faults w' = [] \<and>
     published name mi di w' \<and> spares (next_handle w) w w' \<and> next_handle w' = Suc (next_handle w)"
proof -
  let ?h = "next_handle w" and ?k = "ucast chunk_sz :: u32"
  let ?cb = "(chunks zero_handle)\<lparr>capacity := unat chunk_count, buffer := replicate (unat chunk_count) Null\<rparr>"
  let ?hn = "zero_handle\<lparr>chunks := ?cb\<rparr>"
  let ?w1 = "(set_errno MMLOG_ERR_OK w)\<lparr>handles := (handles w)(?h \<mapsto> ?hn), next_handle := Suc ?h\<rparr>"
  have uk: "unat ?k = unat chunk_sz"
    using k(3) by (simp add: unsigned_ucast_eq take_bit_nat_eq_self)
  have guard: "chunk_sz mod LOG_PAGE_SIZE = 0" "\<not> chunk_count < 2" "chunk_sz \<noteq> 0" "?k \<noteq> 0"
      "ucast ?k mod LOG_PAGE_SIZE = 0"
    using k(1,2,4) uk by (auto simp: LOG_PAGE_SIZE_def word_unat_eq_iff unat_mod page_def dvd_def word_less_nat_alt)
  let ?w1e = "set_errno MMLOG_ERR_OK ?w1"
  have ex: "sys_open_excl (name @ meta_suffix) ?w1e = (None, ?w1e)"
    using pub by (simp add: published_def sys_open_excl_def)
  obtain w2 where w2: "files_open env name (name @ meta_suffix) ?h ?w1e = Some (True, w2)" "faults w2 = []"
     "handles w2 = (handles ?w1)(?h \<mapsto> ?hn\<lparr>metadata_fd := next_fd w, data_fd := Suc (next_fd w), metadata := Some (next_map w)\<rparr>)"
     "inodes w2 = inodes w" "metas w2 = metas w" "chunk_heap w2 = chunk_heap w" "next_chunk w2 = next_chunk w"
     "fdtab w2 = (fdtab w)(next_fd w \<mapsto> mi, Suc (next_fd w) \<mapsto> di)" "next_map w2 = Suc (next_map w)"
     "vmaps w2 = (vmaps w)(next_map w \<mapsto> \<lparr>vm_ino = mi, vm_off = 0, vm_len = sizeof_log_metadata\<rparr>)"
     "next_fd w2 = Suc (Suc (next_fd w))" "next_ino w2 = next_ino w" "next_handle w2 = Suc ?h" "dir w2 = dir w"
    using files_open_fine [of ?w1e ?h ?hn "name @ meta_suffix" mi name di env] pub by (auto simp: published_def)
  let ?w3 = "upd_chunks ?h (\<lambda>cb. cb\<lparr>head := Some 0\<rparr>) w2"
  have "files_open_or_create env (Some name) ?k (Some ?h) ?w1 = Some (True, w2)"
    using guard pub ex w2(1) by (simp add: published_def files_open_or_create_def os_eval Let_def)
  then have op: "mmlog_open env (Some name) chunk_sz chunk_count w = Some (Some ?h, ?w3)"
    using guard pub by (simp add: published_def mmlog_open_def os_eval Let_def)
  have "log_ok ?h mi di ?w3"
  proof (rule log_okI)
    show "handles ?w3 ?h = Some (?hn\<lparr>metadata_fd := next_fd w, data_fd := Suc (next_fd w), metadata := Some (next_map w),
        chunks := ?cb\<lparr>head := Some 0\<rparr>\<rparr>)"
      by (simp add: w2(3))
    have "fresh_ok ?w3"
      using pub by (auto simp: published_def world_ok_def fresh_ok_def w2)
    then show "ring_ok di (unat (chunk_size (metas ?w3 mi))) (chunks (?hn\<lparr>metadata_fd := next_fd w,
        data_fd := Suc (next_fd w), metadata := Some (next_map w), chunks := ?cb\<lparr>head := Some 0\<rparr>\<rparr>)) ?w3"
      using k(4) by (simp add: ring_ok_def zero_handle_def)
  qed (use pub in \<open>simp_all add: published_def meta_ino_def w2\<close>)
  moreover from this have "published name mi di ?w3"
    using pub log_ok_fresh [of ?h mi di ?w3] by (auto simp: published_def world_ok_def w2)
  moreover have "spares ?h w ?w3"
    using pub by (auto simp: spares_def w2 map_le_def published_def world_ok_def fresh_ok_def upd_chunks_def)
  ultimately show ?thesis
    using op w2 by (simp add: log_contents_def)
qed

text \<open>
  C17. Opening a log that exists and is ready gives a second handle on the same files: it
  satisfies the invariant, shows the same contents, and neither the metadata nor the
  data is changed, whatever chunk size the caller asks for. (The chunk size in effect
  is the creator's.)
\<close>

theorem reopen_shares_log:
  assumes "faults w = []" and "world_ok w" and "name \<noteq> []"
    and "dir w (name @ meta_suffix) = Some mi" and "dir w name = Some di"
    and "meta_ok (metas w mi) (inodes w di)" and "unat (chunk_size (metas w mi)) \<le> fsize (inodes w di)"
    and "sizeof_log_metadata \<le> fsize (inodes w mi)" and "is_ready (metas w mi)"
    and "version (metas w mi) = MMLOG_VERSION"
    and "page dvd unat chunk_sz" and "0 < unat chunk_sz" and "unat chunk_sz < 2 ^ 32" and "2 \<le> unat chunk_count"
  shows "\<exists>w'. mmlog_open env (Some name) chunk_sz chunk_count w = Some (Some (next_handle w), w') \<and>
     log_ok (next_handle w) mi di w' \<and> log_contents mi di w' = log_contents mi di w \<and>
     metas w' = metas w \<and> inodes w' = inodes w \<and> faults w' = []"
proof -
  have "published name mi di w"
    using assms by (simp add: published_def)
  from mmlog_open_existing [OF this assms(11-14), of env] show ?thesis
    by blast
qed

theorem reopen_shares_log_witness:
  "\<exists>w'. mmlog_open (\<lambda>w. w) (Some ''log'') 8192 4 demo_world = Some (Some 1, w') \<and>
     log_ok 1 0 1 w' \<and> log_contents 0 1 w' = [] \<and>
     metas w' = metas demo_world \<and> inodes w' = inodes demo_world \<and> faults w' = []"
proof -
  have "world_ok demo_world"
    by (auto simp: world_ok_def fresh_ok_def demo_world_def empty_world_def)
  moreover have "next_handle demo_world = 1" "dir demo_world (''log'' @ meta_suffix) = Some 0" "dir demo_world ''log'' = Some 1"
      "sizeof_log_metadata \<le> fsize (inodes demo_world 0)" "meta_ok (metas demo_world 0) (inodes demo_world 1)"
      "log_contents 0 1 demo_world = []"
    using demo_world_log_ok
    by (auto simp: demo_world_def empty_world_def meta_suffix_def sizeof_log_metadata_def log_contents_def elim!: log_okE)
  ultimately show ?thesis
    using reopen_shares_log [of demo_world "''log''" 0 1 8192 4 "\<lambda>w. w"]
    by (simp add: page_def created_metadata_def)
qed

end
