(* ===== verification/Mmlog_Trim.thy ===== *)
theory Mmlog_Trim
  imports Mmlog_Api
begin

text \<open>
  Trimming and what comes after it. \<open>mmlog_trim\<close> shortens the data file without telling the
  metadata, which the code that reserves space trusts; this theory follows an insert
  through that state.
\<close>

section \<open>Stores beyond the end of the file\<close>

text \<open>A store through a mapping that lies beyond the end of the file changes nothing.\<close>

lemma store_at_beyond: "fsize f \<le> off \<Longrightarrow> store_at off bs f = f"
  by (cases f) (auto simp: store_at_def fun_eq_iff)

lemma page_ceil_le:
  assumes "page dvd e" "c < e"
  shows "page_ceil c \<le> e"
proof -
  obtain k where e: "e = k * page" using assms(1) by (auto simp: dvd_def mult.commute)
  have "c + (page - 1) < (k + 1) * page"
    using assms(2) page_pos unfolding e add_mult_distrib by linarith
  then have "(c + (page - 1)) div page < k + 1"
    by (rule less_mult_imp_div_less)
  then show ?thesis
    unfolding page_ceil_def e by (intro mult_le_mono1) simp
qed

lemma page_ceil_lt: "page_ceil c < c + page"
proof -
  have "page_ceil c \<le> c + (page - 1)" unfolding page_ceil_def by simp
  then show ?thesis using page_pos by linarith
qed

lemma checked_out_store_beyond:
  assumes co: "checked_out h hn di cs cur w a w1" and pos: "0 < cs"
    and inb: "unat cur + length bs \<le> unat cur div cs * cs + cs"
    and beyond: "fsize (inodes w di) \<le> unat cur" and inp: "unat cur + length bs \<le> page_ceil (fsize (inodes w di))"
  shows "\<exists>c w2 w3. chunk_heap w1 a = Some c \<and>
     map_store (mapping c) (unat (cur - start_offset c)) bs w1 = Some w2 \<and> decr_ref a w2 = Some w3 \<and>
     inodes w3 = inodes w \<and> metas w3 = metas w \<and>
     (\<exists>hm. handles w3 h = Some hm \<and> tail (chunks hm) = None \<and> buffer (chunks hm) \<noteq> [])"
proof -
  from co obtain v c cb where v: "core w1 = (core v)\<lparr>chunk_heap := (chunk_heap v)(a \<mapsto> c\<lparr>ref_count := 2\<rparr>)\<rparr>"
      "chunk_heap v a = Some c" "chunk_ok di cs c v" "covers c cur"
      "handles v h = Some (hn\<lparr>chunks := cb\<rparr>)" "ring_ok di cs cb v"
      "inodes v = inodes w" "metas v = metas w"
    by (auto simp: checked_out_def)
  have eq: "core w1 = core (v\<lparr>chunk_heap := (chunk_heap v)(a \<mapsto> c\<lparr>ref_count := 2\<rparr>)\<rparr>)" using v(1) by simp
  note w1 = core_eqD [OF eq]
  have st: "unat (start_offset c) = unat cur div cs * cs"
    using v(3,4) pos by (rule chunk_ok_start)
  have off: "unat (cur - start_offset c) = unat cur - unat cur div cs * cs"
    by (subst unat_sub_le) (simp_all add: st)
  have "map_store (mapping c) (unat (cur - start_offset c)) bs w1 = Some (w1\<lparr>inodes := inodes w\<rparr>)"
    using v(3,7) w1 inb inp beyond
    by (simp add: map_store_def off st chunk_ok_def Let_def store_at_beyond fun_upd_idem)
  moreover have "decr_ref a (w1\<lparr>inodes := inodes w\<rparr>) = Some (w1\<lparr>inodes := inodes w, chunk_heap := chunk_heap v\<rparr>)"
    using w1 v(2,3) by (simp add: decr_ref_def upd_chunk_def chunk_ok_def fun_upd_idem)
  moreover have "tail cb = None" "buffer cb \<noteq> []"
    using v(6) by (auto simp: ring_ok_def)
  ultimately show ?thesis
    using w1 v by fastforce
qed


lemma write_to_chunk_beyond:
  assumes hn: "handles w h = Some hn" "meta_ino (metadata hn) w = Some mi" "fdtab w (data_fd hn) = Some di"
    and ring: "ring_ok di (unat k) (chunks hn) w" and k: "k = chunk_size (metas w mi)" "0 < unat k" "page dvd unat k"
    and "faults w = []" and "unat cur < 2 ^ 63" and "unat cur + length bs \<le> unat cur div unat k * unat k + unat k"
    and "fsize (inodes w di) \<le> unat cur" and "unat cur + length bs \<le> page_ceil (fsize (inodes w di))"
  shows "\<exists>w'. write_to_chunk env h cur bs w = Some (True, w') \<and> inodes w' = inodes w \<and> metas w' = metas w \<and>
     (\<exists>hm. handles w' h = Some hm \<and> tail (chunks hm) = None \<and> buffer (chunks hm) \<noteq> [])"
proof -
  let ?w = "set_errno MMLOG_ERR_OK w"
  have "ring_ok di (unat k) (chunks hn) ?w"
    using ring ring_ok_cong [of ?w w] by simp
  then obtain a w1 where co: "mmlog_rb_checkout env (Some h) cur ?w = Some (Some a, w1)"
    "checked_out h hn di (unat k) cur ?w a w1"
    using mmlog_rb_checkout_fine [of ?w h hn mi di k cur env] assms by auto
  with checked_out_store_beyond [OF co(2), of bs] assms show ?thesis
    by (auto simp: write_to_chunk_def)
qed

lemma no_crossing:
  assumes "unat c + unat sz \<le> unat c div unat k * unat k + unat k" "0 < unat k" "unat c + unat sz < 2 ^ 64"
  shows "\<not> 1 < mmlog_cross_count c sz k"
proof -
  have "(unat c + unat sz) div unat k \<le> (unat c div unat k * unat k + unat k) div unat k"
    using assms(1) by (rule div_le_mono)
  also have "\<dots> = unat c div unat k + 1"
    using assms(2) by simp
  finally have "(unat c + unat sz) div unat k - unat c div unat k \<le> 1" by simp
  then show ?thesis
    using unat_cross_count [of c sz k] assms(2,3) by (simp add: word_less_nat_alt)
qed

text \<open>One portion: the loop writes everything at once when it ends before the chunk does.\<close>

lemma write_loop_once:
  assumes "sz \<noteq> 0" "\<not> (cc div cs + 1) * cs < cc + sz" "unat sz = length bs"
    and "write_to_chunk env h cc bs w = Some (True, w')"
  shows "write_loop env h cs bs sz cc 0 w = Some (True, w')"
proof -
  have "write_loop env h cs bs sz (cc + sz) sz w' = Some (True, w')"
    by (subst write_loop.simps) simp
  with assms show ?thesis
    by (subst write_loop.simps) (simp add: Let_def word_neq_0_conv [symmetric])
qed

text \<open>An insert that stays within one chunk is one write to that chunk.\<close>

lemma insert_one_portion:
  assumes co: "mmlog_checkout env (Some h) (of_nat (length bs)) (set_errno MMLOG_ERR_OK w1) = Some (c, w3)"
    and sz: "unat (of_nat (length bs) :: u64) = length bs" and bs: "bs \<noteq> []" "length bs < page"
    and hn: "handles w3 h = Some hn" "meta_ino (metadata hn) w3 = Some mi" "chunk_size (metas w3 mi) = k"
    and k: "0 < unat k" "page dvd unat k" and lt: "unat c < 2 ^ 31" "unat k < 2 ^ 31"
    and end_le: "unat c + length bs \<le> unat c div unat k * unat k + unat k"
    and w4: "write_to_chunk env h c bs w3 = Some (True, w4)"
      "handles w4 h = Some hm" "tail (chunks hm) = None" "buffer (chunks hm) \<noteq> []"
  shows "insert_record env h bs w1 = Some (True, set_errno MMLOG_ERR_OK w4)"
proof -
  let ?sz = "of_nat (length bs) :: u64"
  have sz0: "?sz \<noteq> 0" using sz bs(1) by (metis length_0_conv unsigned_0)
  have e: "unat (c + ?sz) = unat c + length bs"
    using lt(1) bs(2) by (subst unat_add_no_wrap) (simp_all add: sz page_def)
  have "unat ((c div ucast k + 1) * ucast k) = unat c div unat k * unat k + unat k"
    using lt by (intro unat_chunk_end) simp
  then have "write_loop env h (ucast k) bs ?sz c 0 w3 = Some (True, w4)"
    using sz sz0 w4(1) end_le e by (intro write_loop_once) (simp_all add: word_less_nat_alt)
  moreover have "\<not> 1 < mmlog_cross_count c ?sz k"
    using end_le k(1) lt(1) bs(2) by (intro no_crossing) (simp_all add: sz page_def)
  moreover have "?sz \<noteq> ucast k"
    using sz bs(2) dvd_imp_le [OF k(2,1)] by (metis leD unat_ucast_32_64)
  moreover have "c \<noteq> LOG_CURSOR_INVALID"
    using lt(1) by (auto simp: LOG_CURSOR_INVALID_def unsigned_minus_1_eq_mask mask_eq_exp_minus_1)
  moreover have "k \<noteq> 0" using k(1) by auto
  ultimately show ?thesis
    using co sz0 hn clean_chunks_no_tail [OF w4(2-4)]
    by (simp add: mmlog_insert_def Let_def del: of_nat_0_eq_iff)
qed

text \<open>
  C15. An insert after a trim can be lost: \<open>mmlog_trim\<close> cuts the file at the cursor but leaves
  \<open>file_size\<close> in the metadata, so the next insert that fits under the old size does not
  grow the file again. When it stays in the last page of the file it reports success
  and moves the cursor, and not one of its bytes is in the file.
\<close>

theorem insert_after_trim_is_lost:
  assumes "log_ok h mi di w" and "faults w = []" and "unat (cursor (metas w mi)) < 2 ^ 31"
    and "unat (chunk_size (metas w mi)) < 2 ^ 31"
    and "mmlog_trim (Some h) w = Some ((), w1)"
    and "bs \<noteq> []" and "unat (cursor (metas w mi)) + length bs \<le> page_ceil (unat (cursor (metas w mi)))"
    and "unat (cursor (metas w mi)) + length bs \<le> unat (file_size (metas w mi))"
  shows "\<exists>w2. insert_record env h bs w1 = Some (True, w2) \<and> inodes w2 = inodes w1 \<and>
           unat (cursor (metas w2 mi)) = unat (cursor (metas w mi)) + length bs"
proof -
  let ?md = "metas w mi" and ?sz = "of_nat (length bs) :: u64"
  let ?c = "cursor ?md" and ?k = "chunk_size ?md"
  obtain hn where hn: "handles w h = Some hn" "meta_ino (metadata hn) w = Some mi" "fdtab w (data_fd hn) = Some di"
     "meta_ok ?md (inodes w di)" "ring_ok di (unat ?k) (chunks hn) w"
    using assms(1) by (rule log_okE)
  from hn(2) obtain m where m: "metadata hn = Some m" by (cases "metadata hn") (auto simp: meta_ino_def)
  have k: "0 < unat ?k" "page dvd unat ?k" using hn(4) by (auto simp: meta_ok_def)
  define w3 where "w3 = upd_meta mi (\<lambda>md. md\<lparr>cursor := ?c + ?sz\<rparr>) (set_errno MMLOG_ERR_OK w1)"
  have w1: "w1 = (set_errno MMLOG_ERR_OK w)\<lparr>inodes := (inodes w)(di := resize (unat ?c) (inodes w di))\<rparr>"
    using mmlog_trim_fine [OF assms(1,2)] assms(3,5) by simp
  have page_le: "page_ceil (unat ?c) \<le> unat ?c div unat ?k * unat ?k + unat ?k"
    using k by (intro page_ceil_le lt_div_mult_plus) simp_all
  have "length bs < page" using page_ceil_lt [of "unat ?c"] assms(7) by simp
  then have sz: "unat ?sz = length bs" "?sz \<noteq> 0"
    using assms(6) by (simp_all add: unsigned_of_nat take_bit_nat_eq_self page_def word_unat_eq_iff)
  have e: "unat (?c + ?sz) = unat ?c + length bs"
    using assms(3) \<open>length bs < page\<close> by (subst unat_add_no_wrap) (simp_all add: sz page_def)
  have co: "mmlog_checkout env (Some h) ?sz (set_errno MMLOG_ERR_OK w1) = Some (?c, w3)"
    using hn m assms(8) e by (simp add: mmlog_checkout_def w1 w3_def Let_def word_less_nat_alt)
  have ring: "ring_ok di (unat ?k) (chunks hn) w3"
    using hn(5) ring_ok_cong [of w3 w] by (simp add: w3_def w1)
  have f3: "handles w3 h = Some hn" "meta_ino (metadata hn) w3 = Some mi" "fdtab w3 (data_fd hn) = Some di"
      "chunk_size (metas w3 mi) = ?k" "faults w3 = []" "inodes w3 = inodes w1" "fsize (inodes w3 di) = unat ?c"
    using hn assms(2) by (simp_all add: w3_def w1)
  have end_le: "unat ?c + length bs \<le> unat ?c div unat ?k * unat ?k + unat ?k"
    using assms(7) page_le by (rule order_trans)
  obtain w4 hm where w4: "write_to_chunk env h ?c bs w3 = Some (True, w4)" "inodes w4 = inodes w3" "metas w4 = metas w3"
      "handles w4 h = Some hm" "tail (chunks hm) = None" "buffer (chunks hm) \<noteq> []"
    using write_to_chunk_beyond [OF f3(1-3) ring f3(4) [symmetric] k f3(5), of ?c bs env] assms(3,7) end_le f3(7)
    by auto
  have "insert_record env h bs w1 = Some (True, set_errno MMLOG_ERR_OK w4)"
    using insert_one_portion [OF co sz(1) assms(6) \<open>length bs < page\<close> f3(1,2,4) k assms(3,4) end_le w4(1,4-6)] .
  moreover have "unat (cursor (metas w3 mi)) = unat ?c + length bs"
    by (simp add: w3_def e)
  ultimately show ?thesis
    using w4 f3(6) by simp
qed

theorem insert_after_trim_is_lost_witness:
  "\<exists>w1 w2 w3. insert_record (\<lambda>w. w) 0 [1, 2, 3] demo_world = Some (True, w1) \<and> mmlog_trim (Some 0) w1 = Some ((), w2) \<and>
     insert_record (\<lambda>w. w) 0 [4, 5] w2 = Some (True, w3) \<and> inodes w3 = inodes w2 \<and> file_bytes (inodes w3 1) = [1, 2, 3]"
proof -
  have "unat (of_nat (length [1, 2, 3 :: byte]) :: u64) = 3" by simp
  then obtain w1 where w1: "insert_record (\<lambda>w. w) 0 [1, 2, 3] demo_world = Some (True, w1)" "log_ok 0 0 1 w1" "faults w1 = []"
      "log_contents 0 1 w1 = [1, 2, 3]" "unat (cursor (metas w1 0)) = 3" "chunk_size (metas w1 0) = 4096" "metas w1 = metas (reserved 0 1 3 demo_world)"
    using mmlog_insert_writes [of 0 0 1 demo_world 3 "[1, 2, 3]" "\<lambda>w. w"] mmlog_insert_appends [of 0 0 1 demo_world 3 "[1, 2, 3]" "\<lambda>w. w"] demo_world_log_ok
    by (auto simp: room_def log_contents_def)
  obtain w2 where w2: "mmlog_trim (Some 0) w1 = Some ((), w2)" "file_bytes (inodes w2 1) = [1, 2, 3]"
    using mmlog_trim_fine [OF w1(2,3)] take_file_bytes_resize [OF log_contents_bytes [OF w1(2)]] w1(4,5)
    by (simp add: log_contents_def)
  have "unat (cursor (metas w1 0)) + length [4, 5 :: byte] \<le> unat (file_size (metas w1 0))"
    unfolding w1(5) unfolding w1(7) by (simp add: reserved_def word_less_nat_alt)
  moreover have "3 + length [4, 5 :: byte] \<le> page_ceil 3" by (simp add: page_ceil_def page_def)
  ultimately obtain w3 where "insert_record (\<lambda>w. w) 0 [4, 5] w2 = Some (True, w3)" "inodes w3 = inodes w2"
    using insert_after_trim_is_lost [OF w1(2,3) _ _ w2(1), of "[4, 5]" "\<lambda>w. w"] w1(5,6) by auto
  with w1 w2 show ?thesis by auto
qed


end
