(* ===== verification/Mmlog_Shared.thy ===== *)
theory Mmlog_Shared
  imports Mmlog_Trim
begin

text \<open>
  One log, several handles: the programs under \<^verbatim>\<open>fastlog/eg\<close> open the same log once per
  thread or process. An insert through one handle keeps every other handle intact and
  the log open to further ones, which is the contract \<open>shared_log\<close>.
\<close>

lemma published_fresh: "published name mi di w \<Longrightarrow> fresh_ok w \<and> meta_ok (metas w mi) (inodes w di)"
  by (auto simp: published_def world_ok_def)

lemma world_ok_extends:
  assumes "world_ok w" "extends h w w'" "handles w h \<noteq> None" "fresh_ok w'"
    and "\<And>i. next_ino w \<le> i \<Longrightarrow> metas w' i = metas w i"
  shows "world_ok w'"
proof -
  have h: "h < next_handle w"
    using assms(1,3) by (metis leI world_ok_def)
  then show ?thesis
    using assms unfolding world_ok_def extends_def spares_def by (metis leD)
qed

lemma insert_published:
  assumes pub: "published name mi di w" and lo: "log_ok h mi di w"
    and bs: "bs \<noteq> []" "length bs \<le> log_space mi w"
  shows "\<exists>w'. insert_record env h bs w = Some (True, w') \<and> published name mi di w' \<and> log_ok h mi di w' \<and>
     log_contents mi di w' = log_contents mi di w @ bs \<and> log_space mi w' = log_space mi w - length bs \<and>
     extends h w w' \<and> chunk_size (metas w' mi) = chunk_size (metas w mi)"
proof -
  let ?n = "of_nat (length bs) :: u64"
  have "length bs < 2 ^ 64" using bs(2) by (simp add: log_space_def)
  then have n: "unat ?n = length bs" by (simp add: unat_of_nat)
  then have "?n \<noteq> 0" using bs(1) by (metis length_0_conv unat_0)
  moreover have "0 < length bs" using bs(1) by simp
  then have "room mi ?n w" using bs(2) unfolding room_def n log_space_def by linarith
  ultimately obtain w' where w': "insert_record env h bs w = Some (True, w')" "log_ok h mi di w'" "faults w' = []"
      "log_contents mi di w' = log_contents mi di w @ bs" "extends h w w'"
      "unat (cursor (metas w' mi)) = unat (cursor (metas w mi)) + length bs"
      "chunk_size (metas w' mi) = chunk_size (metas w mi)" "metas w' = metas (reserved mi di ?n w)"
      "\<forall>i. i \<noteq> di \<longrightarrow> inodes w' i = inodes w i" "fsize (inodes w di) \<le> fsize (inodes w' di)"
    using mmlog_insert_appends [of h mi di w ?n bs env] lo pub n by (auto simp: published_def)
  have "mi < next_ino w" using pub by (auto simp: published_def world_ok_def)
  then have "metas w' i = metas w i" if "next_ino w \<le> i" for i
    using that by (simp add: w'(8))
  moreover have "handles w h \<noteq> None" using lo by (auto elim!: log_okE)
  ultimately have "world_ok w'"
    using pub world_ok_extends [of w h w'] w'(5) log_ok_fresh [OF w'(2)] by (simp add: published_def)
  moreover have "sizeof_log_metadata \<le> fsize (inodes w' mi)"
    using pub w'(9,10) by (cases "mi = di") (auto simp: published_def)
  ultimately have "published name mi di w'"
    using pub w'(5,7,10) log_ok_fresh [OF w'(2)]
    by (auto simp: published_def extends_def w'(3)) (simp_all add: w'(8))
  then show ?thesis
    using w'(1,2,4-7) by (auto simp: log_space_def)
qed

interpretation mmlog_shared: shared_log "insert_record env" "published name mi di"
  "\<lambda>h. log_ok h mi di" "log_contents mi di" "log_space mi"
  for env name mi di
proof unfold_locales
  fix w h and bs :: "byte list"
  assume "published name mi di w" "log_ok h mi di w" "bs \<noteq> []" "length bs \<le> log_space mi w"
  from insert_published [OF this, of env] obtain w' where
    w': "insert_record env h bs w = Some (True, w')" "published name mi di w'" "log_ok h mi di w'"
      "log_contents mi di w' = log_contents mi di w @ bs" "log_space mi w' = log_space mi w - length bs"
      "extends h w w'" "chunk_size (metas w' mi) = chunk_size (metas w mi)"
    by auto
  have "log_ok g mi di w'" if "log_ok g mi di w" for g
    using log_ok_other [OF that, of h w'] w'(2,3,6,7) published_fresh [OF w'(2)]
    by (cases "g = h") (auto simp: extends_def)
  with w' show "\<exists>w'. insert_record env h bs w = Some (True, w') \<and> published name mi di w' \<and>
      (\<forall>g. log_ok g mi di w \<longrightarrow> log_ok g mi di w') \<and> log_contents mi di w' = log_contents mi di w @ bs \<and>
      log_space mi w' = log_space mi w - length bs"
    by blast
qed

end
