(* ===== verification/C_Stdio.thy ===== *)
theory C_Stdio
  imports C_String
begin

text \<open>
  What the programs use of \<open>stdio\<close>: \<open>snprintf\<close> into a buffer, the lines \<open>fgets\<close> reads from a
  file, and the conversions of \<open>sscanf\<close>. A file is read as its characters, the bytes of
  memory and of a character list correspond one to one.
\<close>

section \<open>Bytes and characters\<close>

definition bytes_of :: "string \<Rightarrow> byte list" where
  "bytes_of s = map (\<lambda>c. of_nat (of_char c)) s"

definition chars_of :: "byte list \<Rightarrow> string" where
  "chars_of bs = map (\<lambda>b. char_of (unat b)) bs"

lemma length_bytes_of [simp]: "length (bytes_of s) = length s"
  by (simp add: bytes_of_def)

lemma bytes_of_append [simp]: "bytes_of (s @ t) = bytes_of s @ bytes_of t"
  by (simp add: bytes_of_def)

lemma bytes_of_eq_Nil [simp]: "bytes_of s = [] \<longleftrightarrow> s = []"
  by (simp add: bytes_of_def)

lemma take_bytes_of: "take n (bytes_of s) = bytes_of (take n s)"
  by (simp add: bytes_of_def take_map)

lemma chars_of_bytes_of [simp]: "chars_of (bytes_of s) = s"
proof -
  have "unat (of_nat (of_char c) :: byte) = (of_char c :: nat)" for c :: char
    by (simp add: unsigned_of_nat take_bit_nat_eq_self)
  then show ?thesis
    by (simp add: bytes_of_def chars_of_def comp_def)
qed

lemma bytes_of_concat: "bytes_of (concat ss) = concat (map bytes_of ss)"
  by (induction ss) (simp_all add: bytes_of_def)

lemma zero_not_in_bytes_of: "CHR 0x00 \<notin> set s \<Longrightarrow> 0 \<notin> set (bytes_of s)"
proof
  assume "CHR 0x00 \<notin> set s" "0 \<in> set (bytes_of s)"
  then obtain c where c: "c \<in> set s" "(of_nat (of_char c) :: byte) = 0"
    by (auto simp: bytes_of_def)
  with \<open>CHR 0x00 \<notin> set s\<close> have ne: "c \<noteq> CHR 0x00" by blast
  have "unat (of_nat (of_char c) :: byte) = (of_char c :: nat)"
    by (simp add: unsigned_of_nat take_bit_nat_eq_self)
  then have "(of_char c :: nat) = of_char (CHR 0x00)" using c(2) by simp
  then show False using ne by (metis char_of_char)
qed

text \<open>The C string in a buffer ends at the first zero.\<close>

definition cstr :: "string \<Rightarrow> string" where
  "cstr s = takeWhile (\<lambda>c. c \<noteq> CHR 0x00) s"

lemma cstr_no_zero: "CHR 0x00 \<notin> set s \<Longrightarrow> cstr s = s"
  by (auto simp: cstr_def takeWhile_eq_all_conv)

section \<open>\<open>snprintf\<close>\<close>

text \<open>
  The length of the whole output, and the string left in a buffer of \<open>n\<close> bytes, without
  its terminating zero.
\<close>

definition snprintf :: "nat \<Rightarrow> string \<Rightarrow> nat \<times> string" where
  "snprintf n out = (length out, take (n - 1) out)"

section \<open>\<open>fgets\<close>\<close>

definition newline :: char where
  "newline = CHR 0x0A"

definition first_line :: "string \<Rightarrow> string" where
  "first_line s = takeWhile (\<lambda>c. c \<noteq> newline) s @ (if newline \<in> set s then [newline] else [])"

text \<open>What successive calls of \<open>fgets\<close> with a buffer of \<open>n\<close> bytes read until the end of the file.\<close>

function fgets_lines :: "nat \<Rightarrow> string \<Rightarrow> string list" where
  "fgets_lines n s =
     (if s = [] \<or> n < 2 then []
      else let l = take (n - 1) (first_line s) in l # fgets_lines n (drop (length l) s))"
  by pat_completeness auto

lemma first_line_not_Nil: "s \<noteq> [] \<Longrightarrow> first_line s \<noteq> []"
  by (cases s) (auto simp: first_line_def)

termination fgets_lines
proof (relation "measure (length \<circ> snd)", simp, clarsimp)
  fix n :: nat and s :: string
  assume "s \<noteq> []" "\<not> n < 2"
  moreover from this have "first_line s \<noteq> []"
    by (simp add: first_line_not_Nil)
  ultimately show "length s - min (length (first_line s)) (n - Suc 0) < length s"
    by (cases s; cases "first_line s") auto
qed

declare fgets_lines.simps [simp del]

text \<open>A line as \<open>fgets\<close> likes it: it fits the buffer and its only newline is at its end.\<close>

definition is_line :: "nat \<Rightarrow> string \<Rightarrow> bool" where
  "is_line n l \<longleftrightarrow> (\<exists>t. l = t @ [newline] \<and> newline \<notin> set t) \<and> length l < n"

lemma fgets_lines_Cons:
  assumes "is_line n l"
  shows "fgets_lines n (l @ s) = l # fgets_lines n s"
proof -
  obtain t where t: "l = t @ [newline]" "newline \<notin> set t" and len: "length l < n"
    using assms by (auto simp: is_line_def)
  have "takeWhile (\<lambda>c. c \<noteq> newline) ((t @ [newline]) @ s) = t"
    using t(2) by (subst append.assoc, subst takeWhile_append2) auto
  then have "first_line (l @ s) = l"
    using t by (simp add: first_line_def)
  moreover from len t(1) have "take (n - 1) l = l" "\<not> n < 2" by auto
  ultimately show ?thesis
    using t(1) by (subst fgets_lines.simps) (simp add: Let_def)
qed

lemma fgets_lines_Nil [simp]: "fgets_lines n [] = []"
  by (simp add: fgets_lines.simps)

lemma fgets_lines_concat: "\<forall>l \<in> set ls. is_line n l \<Longrightarrow> fgets_lines n (concat ls) = ls"
  by (induction ls) (simp_all add: fgets_lines_Cons)

section \<open>\<open>sscanf\<close>\<close>

text \<open>
  \<open>%d\<close>: white space, a sign, digits. The number is converted as a \<open>long\<close>, saturating, and
  stored into an \<open>int\<close>.
\<close>

definition to_c_int :: "int \<Rightarrow> int" where
  "to_c_int v = sint (word_of_int (max (- (2 ^ 63)) (min (2 ^ 63 - 1) v)) :: u32)"

definition scan_int :: "string \<Rightarrow> (int \<times> string) option" where
  "scan_int s =
     (let t = dropWhile is_space s;
          (neg, u) = (case t of
             [] \<Rightarrow> (False, t)
           | c # r \<Rightarrow> if c = CHR ''-'' then (True, r) else if c = CHR ''+'' then (False, r) else (False, t));
          ds = takeWhile is_digit u; v = int (undec ds)
      in if ds = [] then None
         else Some (to_c_int (if neg then - v else v), dropWhile is_digit u))"

text \<open>\<open>sscanf(s, "%d,%d", ...)\<close> with result two.\<close>

definition scan_int_pair :: "string \<Rightarrow> (int \<times> int) option" where
  "scan_int_pair s = do {
     (x, r) \<leftarrow> scan_int s;
     (case r of
        [] \<Rightarrow> None
      | c # r \<Rightarrow> if c = CHR '','' then do { (y, _) \<leftarrow> scan_int r; Some (x, y) } else None)
   }"

lemma to_c_int_id [simp]:
  assumes "- (2 ^ 31) \<le> v" "v < 2 ^ 31"
  shows "to_c_int v = v"
proof -
  have "sint (word_of_int v :: u32) = signed_take_bit 31 v"
    by (simp add: sint_uint uint_word_of_int_eq signed_take_bit_take_bit)
  also have "\<dots> = v"
    using assms by (intro signed_take_bit_int_eq_self) auto
  finally show ?thesis
    using assms by (simp add: to_c_int_def)
qed

lemma scan_int_dec:
  assumes "n < 2 ^ 31" "r = [] \<or> \<not> is_digit (hd r)"
  shows "scan_int (dec n @ r) = Some (int n, r)"
proof -
  obtain c u where d: "dec n = c # u" by (cases "dec n") simp_all
  then have c: "is_digit c" using dec_digits [of n] by simp
  have "dropWhile is_space (dec n @ r) = dec n @ r"
    using d is_digit_not_space [OF c] by simp
  moreover note span_digits [OF dec_digits [of n] assms(2)]
  ultimately show ?thesis
    using assms(1) d is_digit_not_space [OF c] by (simp add: scan_int_def Let_def del: append_Cons)
      (auto simp: undec_dec [of n, unfolded d])
qed

lemma not_digit_comma [simp]: "\<not> is_digit CHR '',''"
  by (simp add: is_digit_def)

lemma scan_int_pair_dec:
  assumes "x < 2 ^ 31" "y < 2 ^ 31" "r = [] \<or> \<not> is_digit (hd r)"
  shows "scan_int_pair (dec x @ CHR '','' # dec y @ r) = Some (int x, int y)"
  using assms scan_int_dec [of x "CHR '','' # dec y @ r"] scan_int_dec [of y r]
  by (simp add: scan_int_pair_def)

lemma set_dec: "c \<in> set (dec n) \<Longrightarrow> is_digit c"
  using dec_digits [of n] by (simp add: list_all_iff)

end
