(* ===== verification/Eg_Threads.thy ===== *)
theory Eg_Threads
  imports Mmlog_Shared C_Stdio
begin

text \<open>
  The example \<^verbatim>\<open>fastlog/eg/threads/src/main.c\<close>: sixteen threads, each with its own handle,
  write numbered lines to one log, and the program checks the file afterwards.

  A thread is a state machine whose steps are its calls into the library and its
  increment of the shared counter; a schedule says which thread moves next. What is
  printed to \<open>stderr\<close> is kept as a list of diagnostics, what goes to \<open>stdout\<close> is left
  out. The \<open>int\<close> counters are unbounded; they stay far below \<open>2 ^ 31\<close>.
\<close>

section \<open>Constants and data\<close>

definition NUM_THREADS :: nat where "NUM_THREADS = 16"
definition MESSAGES_PER_THREAD :: nat where "MESSAGES_PER_THREAD = 500"
definition MAX_MESSAGE_SIZE :: nat where "MAX_MESSAGE_SIZE = 512"
definition CHUNK_SIZE :: u64 where "CHUNK_SIZE = 4096"
definition NUM_CHUNKS :: u32 where "NUM_CHUNKS = 16"

record thread_args =
  thread_num :: int
  messages_written :: int
  success :: bool

section \<open>The worker\<close>

datatype worker_pc = Opening | Writing nat nat | Inserting nat nat int | Returned

definition thread_message :: "int \<Rightarrow> int \<Rightarrow> string" where
  "thread_message t s =
     show_int t @ CHR '','' # show_int s @ CHR '','' # replicate 129 CHR ''a'' @ [newline]"

text \<open>\<open>free(handle)\<close>: the handle is gone, its descriptors and mappings stay.\<close>

definition free_handle :: "nat \<Rightarrow> log_world \<Rightarrow> log_world" where
  "free_handle h w = w\<lparr>handles := (handles w)(h := None)\<rparr>"

fun thread_worker ::
  "(log_world \<Rightarrow> log_world) \<Rightarrow> string \<Rightarrow> thread_args \<times> worker_pc \<Rightarrow> int \<Rightarrow> log_world \<Rightarrow>
     ((thread_args \<times> worker_pc) \<times> int \<times> log_world) option" where
  "thread_worker env name (args, Opening) ctr w = do {
     (handle, w) \<leftarrow> mmlog_open env (Some name) CHUNK_SIZE NUM_CHUNKS w;
     (case handle of
        None \<Rightarrow> Some ((args\<lparr>success := False\<rparr>, Returned), ctr, w)
      | Some h \<Rightarrow> Some ((args\<lparr>messages_written := 0\<rparr>, Writing h 0), ctr, w))
   }"
| "thread_worker env name (args, Writing h i) ctr w =
     (if i < MESSAGES_PER_THREAD then Some ((args, Inserting h i ctr), ctr + 1, w)
      else Some ((args\<lparr>success := True\<rparr>, Returned), ctr, free_handle h w))"
| "thread_worker env name (args, Inserting h i seq_num) ctr w =
     (case snprintf MAX_MESSAGE_SIZE (thread_message (thread_num args) seq_num) of
        (msg_len, message) \<Rightarrow> do {
          (ok, w) \<leftarrow> mmlog_insert env (Some h) (Some (bytes_of message)) (of_nat msg_len) w;
          if ok
          then Some ((args\<lparr>messages_written := messages_written args + 1\<rparr>, Writing h (Suc i)), ctr, w)
          else Some ((args\<lparr>success := False\<rparr>, Returned), ctr, free_handle h w)
        })"
| "thread_worker env name (args, Returned) ctr w = Some ((args, Returned), ctr, w)"

section \<open>Validation of the file\<close>

datatype diag =
    Invalid_thread int
  | Duplicate_sequence int
  | Sequence_out_of_range int
  | Invalid_line string
  | Thread_count nat int

record validation =
  line_count :: int
  thread_message_counts :: "int list"
  seen_sequences :: "bool list"
  duplicate_sequences :: int
  max_sequence :: int
  diags :: "diag list"

text \<open>The counters before the first line.\<close>

definition first_validation :: "int \<Rightarrow> validation" where
  "first_validation n = \<lparr>line_count = 0, thread_message_counts = replicate NUM_THREADS 0,
     seen_sequences = replicate (nat n) False, duplicate_sequences = 0, max_sequence = -1, diags = []\<rparr>"

text \<open>The body of the loop over the lines of the file, its part for the sequence number first.\<close>

definition check_sequence :: "int \<Rightarrow> int \<Rightarrow> validation \<Rightarrow> validation" where
  "check_sequence expected seq_num v =
     (if 0 \<le> seq_num \<and> seq_num < expected
      then
        (let v = (if seen_sequences v ! nat seq_num
                  then v\<lparr>diags := diags v @ [Duplicate_sequence seq_num],
                         duplicate_sequences := duplicate_sequences v + 1\<rparr>
                  else v);
             v = v\<lparr>seen_sequences := (seen_sequences v)[nat seq_num := True]\<rparr>
         in if max_sequence v < seq_num then v\<lparr>max_sequence := seq_num\<rparr> else v)
      else v\<lparr>diags := diags v @ [Sequence_out_of_range seq_num]\<rparr>)"

definition check_line :: "int \<Rightarrow> validation \<Rightarrow> string \<Rightarrow> validation" where
  "check_line expected v buf =
     (let v = v\<lparr>line_count := line_count v + 1\<rparr>
      in case scan_int_pair (cstr buf) of
           None \<Rightarrow> v\<lparr>diags := diags v @ [Invalid_line (cstr buf)]\<rparr>
         | Some (thread_id, seq_num) \<Rightarrow>
             check_sequence expected seq_num
               (if 0 \<le> thread_id \<and> thread_id < int NUM_THREADS
                then v\<lparr>thread_message_counts := (thread_message_counts v)[nat thread_id :=
                         thread_message_counts v ! nat thread_id + 1]\<rparr>
                else v\<lparr>diags := diags v @ [Invalid_thread thread_id]\<rparr>))"

definition missing_sequences :: "validation \<Rightarrow> int" where
  "missing_sequences v =
     int (length (filter (\<lambda>i. \<not> seen_sequences v ! i) [0..<nat (max_sequence v + 1)]))"

text \<open>
  \<open>validate_log\<close>: \<open>file\<close> are the characters of the file, \<^const>\<open>None\<close> when it cannot be opened;
  \<open>calloc\<close> fails when \<open>mem\<close> is false, and for a negative count, which it takes for a
  huge unsigned one.
\<close>

definition validate_log :: "bool \<Rightarrow> string option \<Rightarrow> int \<Rightarrow> bool \<times> diag list" where
  "validate_log mem file expected_total_messages =
     (case file of
        None \<Rightarrow> (False, [])
      | Some txt \<Rightarrow>
          if \<not> mem \<or> expected_total_messages < 0 then (False, [])
          else
            (let v = foldl (check_line expected_total_messages) (first_validation expected_total_messages)
                       (fgets_lines MAX_MESSAGE_SIZE txt);
                 wrong = filter (\<lambda>i. thread_message_counts v ! i \<noteq> int MESSAGES_PER_THREAD) [0..<NUM_THREADS]
             in (line_count v = expected_total_messages \<and> duplicate_sequences v = 0 \<and> missing_sequences v = 0,
                 diags v @ map (\<lambda>i. Thread_count i (thread_message_counts v ! i)) wrong)))"

section \<open>The test with mixed message sizes\<close>

text \<open>
  The buffer of one size: the text with the size (\<open>%lud\<close> prints the number and a \<open>d\<close>), filled
  up with one letter, and a zero in the last place.
\<close>

definition mixed_fill :: "nat \<Rightarrow> nat \<Rightarrow> string" where
  "mixed_fill i sz =
     (let s = snd (snprintf sz (''[SIZE '' @ dec sz @ ''d] ''))
      in s @ replicate (sz - length s - 1) (char_of (65 + i)) @ [CHR 0x00])"

text \<open>
  The sequence number put over the end of the text, when there is room behind the text
  for as many characters; \<^const>\<open>None\<close> is a store in front of the buffer.
\<close>

definition put_sequence :: "nat \<Rightarrow> int \<Rightarrow> string \<Rightarrow> string option" where
  "put_sequence sz seq_num buf =
     (let seq_suffix = snd (snprintf 32 ('' [SEQ '' @ show_int seq_num @ '']''));
          seq_len = length seq_suffix;
          len = length (cstr buf)
      in if len + seq_len < sz
         then if len < seq_len then None
              else Some (take (len - seq_len) buf @ seq_suffix @ CHR 0x00 # drop (Suc len) buf)
         else Some buf)"

fun mixed_inserts ::
  "(log_world \<Rightarrow> log_world) \<Rightarrow> nat \<Rightarrow> nat \<Rightarrow> nat \<Rightarrow> string \<Rightarrow> int \<Rightarrow> log_world \<Rightarrow> (int \<times> log_world) option" where
  "mixed_inserts env h sz 0 buf ctr w = Some (ctr, w)"
| "mixed_inserts env h sz (Suc j) buf ctr w = do {
     buf \<leftarrow> put_sequence sz ctr buf;
     (ok, w) \<leftarrow> mmlog_insert env (Some h) (Some (bytes_of buf)) (of_nat sz) w;
     if ok then mixed_inserts env h sz j buf (ctr + 1) w else Some (ctr + 1, w)
   }"

fun mixed_sizes ::
  "(log_world \<Rightarrow> log_world) \<Rightarrow> nat \<Rightarrow> nat \<Rightarrow> nat list \<Rightarrow> int \<Rightarrow> log_world \<Rightarrow> (int \<times> log_world) option" where
  "mixed_sizes env h i [] ctr w = Some (ctr, w)"
| "mixed_sizes env h i (sz # szs) ctr w =
     (case sys_alloc w of
        (False, w) \<Rightarrow> mixed_sizes env h (Suc i) szs ctr w
      | (True, w) \<Rightarrow> do {
          (ctr, w) \<leftarrow> mixed_inserts env h sz 50 (mixed_fill i sz) ctr w;
          mixed_sizes env h (Suc i) szs ctr w
        })"

definition run_mixed_size_test ::
  "(log_world \<Rightarrow> log_world) \<Rightarrow> string \<Rightarrow> log_world \<Rightarrow> (int \<times> log_world) option" where
  "run_mixed_size_test env name w = do {
     let w = sys_unlink name w;
     (handle, w) \<leftarrow> mmlog_open env (Some name) CHUNK_SIZE NUM_CHUNKS w;
     (case handle of
        None \<Rightarrow> Some (0, w)
      | Some h \<Rightarrow> do {
          (ctr, w) \<leftarrow> mixed_sizes env h 0 [16, 128, 512, 2048, 8192] 0 w;
          Some (ctr, free_handle h w)
        })
   }"

section \<open>The program\<close>

fun run_threads ::
  "(log_world \<Rightarrow> log_world) \<Rightarrow> string \<Rightarrow> nat list \<Rightarrow> (thread_args \<times> worker_pc) list \<Rightarrow> int \<Rightarrow> log_world \<Rightarrow>
     ((thread_args \<times> worker_pc) list \<times> int \<times> log_world) option" where
  "run_threads env name [] ws ctr w = Some (ws, ctr, w)"
| "run_threads env name (t # sched) ws ctr w =
     (if t < length ws
      then Option.bind (thread_worker env name (ws ! t) ctr w)
             (\<lambda>(x, ctr, w). run_threads env name sched (ws[t := x]) ctr w)
      else run_threads env name sched ws ctr w)"

definition new_worker :: "nat \<Rightarrow> thread_args \<times> worker_pc" where
  "new_worker i = (\<lparr>thread_num = int i, messages_written = 0, success = False\<rparr>, Opening)"

definition total_messages :: "(thread_args \<times> worker_pc) list \<Rightarrow> int" where
  "total_messages ws = sum_list (map (\<lambda>(a, _). if success a then messages_written a else 0) ws)"

definition thread_log :: string where
  "thread_log = ''thread_test.log''"

text \<open>
  \<open>main\<close> up to the verdict: \<open>created\<close> says which calls of \<open>pthread_create\<close> succeed, \<open>sched\<close> in which
  order the threads move. The result is the exit code of an early exit or the verdict
  and the diagnostics; joining a thread that has not returned does not return.
\<close>

definition threads_test ::
  "(log_world \<Rightarrow> log_world) \<Rightarrow> (nat \<Rightarrow> bool) \<Rightarrow> nat list \<Rightarrow> log_world \<Rightarrow>
     ((int + bool \<times> diag list) \<times> log_world) option" where
  "threads_test env created sched w = do {
     let w = sys_unlink thread_log w;
     let n = length (takeWhile created [0..<NUM_THREADS]);
     (ws, ctr, w) \<leftarrow> run_threads env thread_log sched (map new_worker [0..<n]) 0 w;
     if n < NUM_THREADS then Some (Inl 1, w)
     else if list_ex (\<lambda>x. snd x \<noteq> Returned) ws then None
     else do {
       (handle, w) \<leftarrow> mmlog_open env (Some thread_log) CHUNK_SIZE NUM_CHUNKS w;
       (_, w) \<leftarrow> mmlog_trim handle w;
       (case read_file thread_log w of
          (None, w) \<Rightarrow> Some (Inr (validate_log True None (total_messages ws)), w)
        | (Some bs, w) \<Rightarrow>
            (case sys_alloc w of
               (mem, w) \<Rightarrow> Some (Inr (validate_log mem (Some (chars_of bs)) (total_messages ws)), w)))
     }
   }"

definition threads_main ::
  "(log_world \<Rightarrow> log_world) \<Rightarrow> (nat \<Rightarrow> bool) \<Rightarrow> nat list \<Rightarrow> log_world \<Rightarrow> (int \<times> log_world) option" where
  "threads_main env created sched w = do {
     (r, w) \<leftarrow> threads_test env created sched w;
     (case r of
        Inl code \<Rightarrow> Some (code, w)
      | Inr (validation_result, _) \<Rightarrow> do {
          (_, w) \<leftarrow> run_mixed_size_test env ''mixed_size_test.log'' w;
          Some (if validation_result then 0 else 1, w)
        })
   }"

section \<open>What the validation accepts\<close>

definition line_sequence :: "int \<Rightarrow> string \<Rightarrow> int list" where
  "line_sequence n l =
     (case scan_int_pair (cstr l) of
        None \<Rightarrow> []
      | Some (t, s) \<Rightarrow> if 0 \<le> s \<and> s < n then [s] else [])"

definition log_sequences :: "int \<Rightarrow> string list \<Rightarrow> int list" where
  "log_sequences n ls = concat (map (line_sequence n) ls)"

definition validation_inv :: "int \<Rightarrow> int list \<Rightarrow> validation \<Rightarrow> bool" where
  "validation_inv n ss v \<longleftrightarrow>
     length (seen_sequences v) = nat n \<and> set ss \<subseteq> {0..<n} \<and>
     (\<forall>i < nat n. seen_sequences v ! i \<longleftrightarrow> int i \<in> set ss) \<and>
     duplicate_sequences v = int (length ss) - int (card (set ss)) \<and>
     -1 \<le> max_sequence v \<and> set ss \<subseteq> {..max_sequence v} \<and> (max_sequence v \<in> set ss \<or> max_sequence v = -1)"

lemma validation_inv_frame [simp]:
  "validation_inv n ss (v\<lparr>line_count := x1\<rparr>) = validation_inv n ss v"
  "validation_inv n ss (v\<lparr>diags := x2\<rparr>) = validation_inv n ss v"
  "validation_inv n ss (v\<lparr>thread_message_counts := x3\<rparr>) = validation_inv n ss v"
  by (simp_all add: validation_inv_def)

lemma validation_inv_seq:
  assumes "validation_inv n ss v"
  shows "validation_inv n (ss @ (if 0 \<le> s \<and> s < n then [s] else [])) (check_sequence n s v)"
proof (cases "0 \<le> s \<and> s < n")
  case True
  then have "seen_sequences v ! nat s \<longleftrightarrow> s \<in> set ss"
    using assms by (auto simp: validation_inv_def)
  with True show ?thesis
    using assms by (auto simp: check_sequence_def validation_inv_def nth_list_update card_insert_if Let_def)
next
  case False
  then have "check_sequence n s v = v\<lparr>diags := diags v @ [Sequence_out_of_range s]\<rparr>"
    unfolding check_sequence_def by (rule if_not_P)
  with False assms show ?thesis by auto
qed

lemma validation_inv_line:
  "validation_inv n ss v \<Longrightarrow> validation_inv n (ss @ line_sequence n l) (check_line n v l)"
proof (cases "scan_int_pair (cstr l)")
  case (Some p)
  obtain t s where p: "p = (t, s)" by (cases p)
  assume "validation_inv n ss v"
  then have "validation_inv n ss (if 0 \<le> t \<and> t < int NUM_THREADS
      then (v\<lparr>line_count := line_count v + 1\<rparr>)\<lparr>thread_message_counts := c\<rparr>
      else (v\<lparr>line_count := line_count v + 1\<rparr>)\<lparr>diags := d\<rparr>)" for c d
    by simp
  with Some p show ?thesis
    unfolding check_line_def line_sequence_def Let_def
    by (simp only: option.case prod.case validation_inv_seq)
qed (simp add: check_line_def line_sequence_def)

lemma line_count_check_sequence [simp]: "line_count (check_sequence n s v) = line_count v"
  by (simp add: check_sequence_def Let_def)

lemma line_count_check_line [simp]: "line_count (check_line n v l) = line_count v + 1"
  by (simp add: check_line_def Let_def split: option.splits prod.splits)

lemma validation_inv_lines:
  "validation_inv n ss v \<Longrightarrow> validation_inv n (ss @ log_sequences n ls) (foldl (check_line n) v ls)"
proof (induction ls arbitrary: ss v)
  case (Cons l ls)
  from Cons.IH [OF validation_inv_line [OF Cons.prems]] show ?case
    by (simp add: log_sequences_def)
qed (simp add: log_sequences_def)

lemma line_count_lines: "line_count (foldl (check_line n) v ls) = line_count v + int (length ls)"
  by (induction ls arbitrary: v) simp_all

text \<open>The two counters are zero exactly when the numbers seen are \<open>0\<close> up to some number, each once.\<close>

lemma validation_inv_accepts:
  assumes "validation_inv n ss v"
  shows "duplicate_sequences v = 0 \<and> missing_sequences v = 0 \<longleftrightarrow>
           distinct ss \<and> set ss = {0..<int (length ss)}"
proof -
  have inv: "set ss \<subseteq> {0..<n}" "\<And>i. i < nat n \<Longrightarrow> seen_sequences v ! i \<longleftrightarrow> int i \<in> set ss"
      "duplicate_sequences v = int (length ss) - int (card (set ss))"
      "set ss \<subseteq> {..max_sequence v}" "max_sequence v \<in> set ss \<or> max_sequence v = -1"
    and ge: "-1 \<le> max_sequence v"
    using assms by (auto simp: validation_inv_def)
  have dup: "duplicate_sequences v = 0 \<longleftrightarrow> distinct ss"
    unfolding inv(3) using card_distinct [of ss] distinct_card [of ss] by force
  have sub: "set ss \<subseteq> {0..max_sequence v}"
  proof
    fix x assume "x \<in> set ss"
    then show "x \<in> {0..max_sequence v}" using inv(1,4) by fastforce
  qed
  have mx: "max_sequence v < n \<or> max_sequence v = -1" using inv(1,5) by auto
  have "missing_sequences v = 0 \<longleftrightarrow> (\<forall>i < nat (max_sequence v + 1). seen_sequences v ! i)"
    by (auto simp: missing_sequences_def filter_empty_conv)
  also have "\<dots> \<longleftrightarrow> (\<forall>i < nat (max_sequence v + 1). int i \<in> set ss)"
  proof (rule all_cong)
    fix i assume "i < nat (max_sequence v + 1)"
    then have "i < nat n" using mx by linarith
    then show "seen_sequences v ! i \<longleftrightarrow> int i \<in> set ss" by (rule inv(2))
  qed
  also have "\<dots> \<longleftrightarrow> {0..max_sequence v} \<subseteq> set ss"
  proof
    assume l: "\<forall>i < nat (max_sequence v + 1). int i \<in> set ss"
    show "{0..max_sequence v} \<subseteq> set ss"
    proof
      fix x assume "x \<in> {0..max_sequence v}"
      then show "x \<in> set ss" using l [rule_format, of "nat x"] by simp
    qed
  qed auto
  also have "\<dots> \<longleftrightarrow> set ss = {0..max_sequence v}"
    using sub by blast
  finally have mis: "missing_sequences v = 0 \<longleftrightarrow> set ss = {0..max_sequence v}" .
  show ?thesis
  proof
    assume "duplicate_sequences v = 0 \<and> missing_sequences v = 0"
    then have d: "distinct ss" and s: "set ss = {0..max_sequence v}" using dup mis by auto
    have "length ss = card {0..max_sequence v}"
      using distinct_card [OF d] s by simp
    then have "int (length ss) = max_sequence v + 1" using ge by simp
    then have "{0..<int (length ss)} = {0..max_sequence v}" by auto
    then show "distinct ss \<and> set ss = {0..<int (length ss)}" using d s by blast
  next
    assume a: "distinct ss \<and> set ss = {0..<int (length ss)}"
    have "max_sequence v = int (length ss) - 1"
    proof (cases "ss = []")
      case True
      then show ?thesis using inv(5) by simp
    next
      case False
      then have "int (length ss) - 1 \<in> set ss" using a by simp
      then have "int (length ss) - 1 \<in> {0..max_sequence v}" using sub by blast
      then have "max_sequence v \<in> set ss" using inv(5) by auto
      then have "max_sequence v \<in> {0..<int (length ss)}" using a by blast
      with \<open>int (length ss) - 1 \<in> {0..max_sequence v}\<close> show ?thesis by simp
    qed
    then have "{0..<int (length ss)} = {0..max_sequence v}" by auto
    then show "duplicate_sequences v = 0 \<and> missing_sequences v = 0"
      using dup mis a by blast
  qed
qed

text \<open>
  C29. What \<open>validate_log\<close> accepts: the file has the expected number of lines, and the sequence
  numbers in range that it can read from them are \<open>0\<close> up to some number, each exactly
  once. Lines that cannot be read, sequence numbers out of range and thread numbers
  play no role.
\<close>

theorem validate_log_accepts:
  "fst (validate_log True (Some txt) n) \<longleftrightarrow>
     int (length (fgets_lines MAX_MESSAGE_SIZE txt)) = n \<and>
     distinct (log_sequences n (fgets_lines MAX_MESSAGE_SIZE txt)) \<and>
     set (log_sequences n (fgets_lines MAX_MESSAGE_SIZE txt)) =
       {0..<int (length (log_sequences n (fgets_lines MAX_MESSAGE_SIZE txt)))}"
proof (cases "n < 0")
  case False
  have "validation_inv n [] (first_validation n)"
    by (simp add: validation_inv_def first_validation_def)
  from validation_inv_accepts [OF validation_inv_lines [OF this]] False show ?thesis
    by (simp add: validate_log_def Let_def line_count_lines first_validation_def)
qed (simp add: validate_log_def)

end
