(* ===== verification/Eg_Threads_Run.thy ===== *)
theory Eg_Threads_Run
  imports Eg_Threads "HOL-Library.Multiset"
begin

text \<open>
  The threads example as a whole: for every schedule that lets each thread come to its
  end, all inserts succeed, every sequence number is in the file exactly once, and the
  validation of the trimmed file passes without a complaint.
\<close>

section \<open>Messages\<close>

lemma newline_not_in_dec [simp]: "newline \<notin> set (dec n)" "CHR 0x00 \<notin> set (dec n)"
  using set_dec [of newline n] set_dec [of "CHR 0x00" n] by (auto simp: is_digit_def newline_def)





section \<open>A file of messages passes\<close>







section \<open>The threads\<close>













section \<open>Operations on the shared log\<close>





section \<open>A step of a thread\<close>













section \<open>The whole test\<close>








section \<open>The mixed sizes\<close>

lemma mixed_fill_parts:
  assumes "0 < sz" "i < 26"
  shows "length (mixed_fill i sz) = sz" "length (cstr (mixed_fill i sz)) = sz - 1"
proof -
  let ?s = "take (sz - 1) (''[SIZE '' @ dec sz @ ''d] '')"
  have s: "length ?s \<le> sz - 1" by simp
  then show "length (mixed_fill i sz) = sz"
    using assms(1) by (simp add: mixed_fill_def snprintf_def Let_def)
  have "char_of (65 + i) \<noteq> CHR 0x00"
  proof
    assume "char_of (65 + i) = CHR 0x00"
    then have "(of_char (char_of (65 + i) :: char) :: nat) = of_char CHR 0x00" by simp
    then show False using assms(2) by (simp add: take_bit_nat_eq_self)
  qed
  moreover have "CHR 0x00 \<notin> set ?s"
  proof
    assume "CHR 0x00 \<in> set ?s"
    then have "CHR 0x00 \<in> set (''[SIZE '' @ dec sz @ ''d] '')" by (rule in_set_takeD)
    then show False by simp
  qed
  ultimately have "cstr (?s @ replicate (sz - length ?s - 1) (char_of (65 + i)) @ [CHR 0x00]) =
      ?s @ replicate (sz - length ?s - 1) (char_of (65 + i))"
    unfolding cstr_def append_assoc [symmetric] by (subst takeWhile_append2) auto
  then show "length (cstr (mixed_fill i sz)) = sz - 1"
    using s by (simp add: mixed_fill_def snprintf_def Let_def)
qed

text \<open>The text always fills the buffer, so there is never room behind it.\<close>

lemma put_sequence_mixed_fill:
  assumes "0 < sz" "i < 26"
  shows "put_sequence sz n (mixed_fill i sz) = Some (mixed_fill i sz)"
proof -
  have "show_int n \<noteq> []" by (simp add: show_int_def)
  then have "0 < length (take 31 ('' [SEQ '' @ show_int n @ '']''))" by simp
  then show ?thesis
    unfolding put_sequence_def Let_def snprintf_def using mixed_fill_parts(2) [OF assms] assms(1) by simp
qed

lemma mixed_inserts_fine:
  assumes "published name mi di w" "log_ok h mi di w" "\<And>n. put_sequence sz n buf = Some buf"
    and "length buf = sz" "0 < sz" "j * sz \<le> log_space mi w"
  shows "\<exists>w'. mixed_inserts env h sz j buf ctr w = Some (ctr + int j, w') \<and> published name mi di w' \<and> log_ok h mi di w' \<and>
     log_contents mi di w' = log_contents mi di w @ concat (replicate j (bytes_of buf)) \<and>
     log_space mi w' = log_space mi w - j * sz"
  using assms(1,2,6)
proof (induction j arbitrary: w ctr)
  case (Suc j)
  have "bytes_of buf \<noteq> []" "length (bytes_of buf) \<le> log_space mi w" using assms(4,5) Suc.prems(3) by auto
  from insert_published [OF Suc.prems(1,2) this, of env] obtain w1 where
    w1: "insert_record env h (bytes_of buf) w = Some (True, w1)" "published name mi di w1" "log_ok h mi di w1"
      "log_contents mi di w1 = log_contents mi di w @ bytes_of buf" "log_space mi w1 = log_space mi w - sz"
    using assms(4) by auto
  have "j * sz \<le> log_space mi w1" using Suc.prems(3) w1(5) by simp
  from Suc.IH [OF w1(2,3) this, of "ctr + 1"] w1 show ?case
    using assms(3,4) by (auto simp: algebra_simps)
qed simp

definition mixed_contents :: "nat \<Rightarrow> nat list \<Rightarrow> byte list" where
  "mixed_contents i szs = concat (map (\<lambda>(k, sz). concat (replicate 50 (bytes_of (mixed_fill k sz)))) (zip [i..<i + length szs] szs))"

lemma mixed_contents_Cons:
  "mixed_contents i (sz # szs) = concat (replicate 50 (bytes_of (mixed_fill i sz))) @ mixed_contents (Suc i) szs"
  by (simp add: mixed_contents_def upt_conv_Cons del: upt_Suc)

lemma mixed_sizes_fine:
  assumes "published name mi di w" "log_ok h mi di w" "\<forall>sz \<in> set szs. 0 < sz" "i + length szs \<le> 26"
    and "50 * sum_list szs \<le> log_space mi w"
  shows "\<exists>w'. mixed_sizes env h i szs ctr w = Some (ctr + 50 * int (length szs), w') \<and> published name mi di w' \<and>
     log_ok h mi di w' \<and> log_contents mi di w' = log_contents mi di w @ mixed_contents i szs"
  using assms
proof (induction szs arbitrary: i w ctr)
  case (Cons sz szs)
  have al: "sys_alloc w = (True, w)" using Cons.prems(1) by (simp add: published_def sys_alloc_def next_fault_def)
  have "0 < sz" "i < 26" using Cons.prems by auto
  then obtain w1 where w1: "mixed_inserts env h sz 50 (mixed_fill i sz) ctr w = Some (ctr + 50, w1)" "published name mi di w1"
      "log_ok h mi di w1" "log_contents mi di w1 = log_contents mi di w @ concat (replicate 50 (bytes_of (mixed_fill i sz)))"
      "log_space mi w1 = log_space mi w - 50 * sz"
    using mixed_inserts_fine [OF Cons.prems(1,2) put_sequence_mixed_fill, of sz i 50 env ctr] mixed_fill_parts(1) [of sz i]
      Cons.prems(5) by auto
  have "50 * sum_list szs \<le> log_space mi w1" using Cons.prems(5) w1(5) by simp
  with Cons.IH [OF w1(2,3), of "Suc i" "ctr + 50"] Cons.prems(3,4) obtain w2 where
    "mixed_sizes env h (Suc i) szs (ctr + 50) w1 = Some (ctr + 50 + 50 * int (length szs), w2)" "published name mi di w2"
    "log_ok h mi di w2" "log_contents mi di w2 = log_contents mi di w1 @ mixed_contents (Suc i) szs"
    by auto
  then show ?case
    using al w1(1,4) by (simp add: mixed_contents_Cons algebra_simps)
qed (simp add: mixed_contents_def)

text \<open>
  The mixed-size test writes \<open>50\<close> records of each size, but they do not carry the sequence
  number they are meant to end with: each record of a size is the same filled buffer,
  because the text fills the buffer and the condition for adding the number asks for
  free room behind it.
\<close>

theorem mixed_records_without_sequence:
  assumes "world_ok w" and "faults w = []" and "name \<noteq> []" and "dir w (name @ meta_suffix) = None"
  shows "\<exists>w' mi di. run_mixed_size_test env name w = Some (250, w') \<and>
     dir w' (name @ meta_suffix) = Some mi \<and> dir w' name = Some di \<and>
     log_contents mi di w' = mixed_contents 0 [16, 128, 512, 2048, 8192]"
proof -
  let ?w = "sys_unlink name w"
  have fresh: "faults ?w = []" "dir ?w (name @ meta_suffix) = None" "world_ok ?w"
    using assms by (auto simp: sys_unlink_def next_fault_def world_ok_def fresh_ok_def meta_suffix_def)
  have k: "CHUNK_SIZE \<noteq> 0" "page dvd unat CHUNK_SIZE" "unat CHUNK_SIZE < 2 ^ 32" "2 \<le> unat NUM_CHUNKS"
    by (simp_all add: CHUNK_SIZE_def NUM_CHUNKS_def page_def)
  obtain h w1 mi di where w1: "mmlog_open env (Some name) CHUNK_SIZE NUM_CHUNKS ?w = Some (Some h, w1)" "log_ok h mi di w1"
      "published name mi di w1" "log_contents mi di w1 = []" "log_space mi w1 = 2 ^ 32 - unat CHUNK_SIZE"
    using mmlog_open_creates [OF fresh(1) assms(3) fresh(2) k fresh(3), of env] by blast
  have "50 * sum_list [16, 128, 512, 2048, 8192] \<le> log_space mi w1"
    unfolding w1(5) by (simp add: CHUNK_SIZE_def)
  then obtain w2 where "mixed_sizes env h 0 [16, 128, 512, 2048, 8192] 0 w1 = Some (250, w2)"
      "published name mi di w2" "log_contents mi di w2 = mixed_contents 0 [16, 128, 512, 2048, 8192]"
    using mixed_sizes_fine [OF w1(3,2), of "[16, 128, 512, 2048, 8192]" 0 env 0] w1(4) by auto
  then show ?thesis
    using w1(1) by (auto simp: run_mixed_size_test_def free_handle_def published_def log_contents_def Let_def)
qed

theorem mixed_records_without_sequence_witness:
  "\<exists>w' mi di. run_mixed_size_test (\<lambda>w. w) ''mixed_size_test.log'' empty_world = Some (250, w') \<and>
     dir w' (''mixed_size_test.log'' @ meta_suffix) = Some mi \<and> dir w' ''mixed_size_test.log'' = Some di \<and>
     log_contents mi di w' = mixed_contents 0 [16, 128, 512, 2048, 8192]"
  by (rule mixed_records_without_sequence) (simp_all add: world_ok_empty, simp_all add: empty_world_def)

end
