(* ===== verification/Eg_Forks.thy ===== *)
theory Eg_Forks
  imports Mmlog_Shared C_Stdio
begin

text \<open>
  The example \<^verbatim>\<open>fastlog/eg/forks/src/main.c\<close>: eight processes write random lines to one log, and
  the parent counts the lines. The results of \<open>rand\<close> are a function \<open>r\<close> of how often it has
  been called, the state of a process is that count. The children run one after the
  other here; each opens the log itself.
\<close>

section \<open>Messages\<close>





section \<open>The child process\<close>



section \<open>Validation and the program\<close>





section \<open>Messages fit their buffer\<close>







section \<open>The log of the children\<close>













end
