(* ===== verification/Fifo.thy ===== *)
theory Fifo
  imports Prelude
begin

text \<open>
  A bounded queue as its users see it: a writer that is told whether its element went
  in, a reader that gets the oldest element or the answer that there is none. The
  relation \<open>holds\<close> says which elements the queue has, oldest first.
\<close>

text \<open>Write one element until it is refused; read until nothing is left.\<close>

partial_function (option) fill :: "('x \<Rightarrow> 's \<Rightarrow> bool \<times> 's) \<Rightarrow> 'x \<Rightarrow> 's \<Rightarrow> 's option" where
  "fill enq x s = (case enq x s of (ok, s') \<Rightarrow> if ok then fill enq x s' else Some s')"

partial_function (option) drain :: "('s \<Rightarrow> ('x option \<times> 's) option) \<Rightarrow> 's \<Rightarrow> ('x list \<times> 's) option" where
  "drain deq s =
     Option.bind (deq s) (\<lambda>(x, s').
       case x of
         None \<Rightarrow> Some ([], s')
       | Some y \<Rightarrow> Option.bind (drain deq s') (\<lambda>(ys, s''). Some (y # ys, s'')))"

fun enq_all :: "('x \<Rightarrow> 's \<Rightarrow> bool \<times> 's) \<Rightarrow> 'x list \<Rightarrow> 's \<Rightarrow> bool \<times> 's" where
  "enq_all enq [] s = (True, s)"
| "enq_all enq (x # xs) s = (case enq x s of (ok, s) \<Rightarrow> if ok then enq_all enq xs s else (False, s))"

locale bounded_fifo =
  fixes enq :: "'x \<Rightarrow> 's \<Rightarrow> bool \<times> 's"
    and deq :: "'s \<Rightarrow> ('x option \<times> 's) option"
    and holds :: "'s \<Rightarrow> 'x list \<Rightarrow> bool"
    and valid :: "'x \<Rightarrow> bool"
    and cost :: "'x \<Rightarrow> nat"
    and space :: "'s \<Rightarrow> nat"
  assumes enq_last:
    "\<lbrakk>holds s xs; valid x; cost x \<le> space s\<rbrakk> \<Longrightarrow>
       \<exists>s'. enq x s = (True, s') \<and> holds s' (xs @ [x]) \<and> space s' = space s - cost x"
    and deq_none: "holds s [] \<Longrightarrow> deq s = Some (None, s)"
    and deq_first: "holds s (x # xs) \<Longrightarrow> \<exists>s'. deq s = Some (Some x, s') \<and> holds s' xs"
begin

lemma enq_all_holds:
  assumes "holds s xs" and "\<forall>y \<in> set ys. valid y" and "sum_list (map cost ys) \<le> space s"
  shows "\<exists>s'. enq_all enq ys s = (True, s') \<and> holds s' (xs @ ys)"
  using assms
proof (induction ys arbitrary: s xs)
  case (Cons y ys)
  then obtain s1 where s1: "enq y s = (True, s1)" "holds s1 (xs @ [y])" "space s1 = space s - cost y"
    using enq_last [of s xs y] by auto
  with Cons.prems have "\<exists>s'. enq_all enq ys s1 = (True, s') \<and> holds s' ((xs @ [y]) @ ys)"
    by (intro Cons.IH) auto
  with s1(1) show ?case by auto
qed simp

lemma drain_holds: "holds s xs \<Longrightarrow> \<exists>s'. drain deq s = Some (xs, s') \<and> holds s' []"
proof (induction xs arbitrary: s)
  case Nil
  then show ?case
    by (subst drain.simps) (simp add: deq_none)
next
  case (Cons x xs)
  obtain s1 where s1: "deq s = Some (Some x, s1)" "holds s1 xs"
    using deq_first [OF Cons.prems] by blast
  obtain s2 where "drain deq s1 = Some (xs, s2)" "holds s2 []"
    using Cons.IH [OF s1(2)] by blast
  with s1(1) show ?case
    by (subst drain.simps) simp
qed

text \<open>First in, first out: what went in comes out, in order and complete.\<close>

lemma first_in_first_out:
  assumes "holds s []" and "\<forall>y \<in> set ys. valid y" and "sum_list (map cost ys) \<le> space s"
  shows "\<exists>s' s''. enq_all enq ys s = (True, s') \<and> drain deq s' = Some (ys, s'') \<and> holds s'' []"
  using enq_all_holds [OF assms] drain_holds by fastforce

end

end
