(* ===== verification/Ring_Buffer.thy ===== *)
theory Ring_Buffer
  imports C_Stdio Fifo
begin

text \<open>
  The shared-memory ring buffer of \<^verbatim>\<open>simple_ringbuffer/ring_buffer.hpp\<close>: batches of samples
  (\<open>RBIn\<close>), their serialised form, the reader (\<open>RBOut\<close>) and the ring (\<open>RingBuffer\<close>).

  The member functions of \<open>Buffer\<close> are declared in the header and defined nowhere in the
  repository. What \<open>add\<close> appends for a string is therefore the parameter \<open>enc\<close>; the reader
  steps from string to string with \<open>strlen(...) + 1\<close>, so it relies on \<open>enc\<close> ending each string
  with its only zero byte. A buffer of integers is read as the vector it declares.

  Addresses run over the mapping of \<open>2 * size\<close> bytes, whose second half mirrors the first;
  \<^const>\<open>None\<close> is an access outside of it. Positions and sizes are natural numbers: all
  sums the code forms stay below \<open>2 * size\<close> plus the size of one batch.
\<close>

section \<open>Batches\<close>

record str_buffer =
  sbytes :: "byte list"
  n_elem :: nat

record RBIn =
  lines :: "u64 list"
  filenames :: str_buffer
  names :: str_buffer
  rvalues :: "u64 list"

definition clear :: RBIn where
  "clear = \<lparr>lines = [], filenames = \<lparr>sbytes = [], n_elem = 0\<rparr>, names = \<lparr>sbytes = [], n_elem = 0\<rparr>, rvalues = []\<rparr>"

definition add_string :: "(string \<Rightarrow> byte list) \<Rightarrow> string \<Rightarrow> str_buffer \<Rightarrow> str_buffer" where
  "add_string enc s b = \<lparr>sbytes = sbytes b @ enc s, n_elem = Suc (n_elem b)\<rparr>"

definition push :: "(string \<Rightarrow> byte list) \<Rightarrow> string \<Rightarrow> string \<Rightarrow> u64 \<Rightarrow> RBIn \<Rightarrow> RBIn" where
  "push enc filename name line e =
     e\<lparr>filenames := add_string enc filename (filenames e), names := add_string enc name (names e),
       lines := lines e @ [line]\<rparr>"

definition serializedSize :: "RBIn \<Rightarrow> nat" where
  "serializedSize e =
     8 * 7 + 8 * length (lines e) + length (sbytes (filenames e)) + length (sbytes (names e)) + 8 * length (rvalues e)"

definition get_size :: "RBIn \<Rightarrow> nat" where
  "get_size e = length (lines e)"

definition int64_bytes :: "u64 list \<Rightarrow> byte list" where
  "int64_bytes xs = concat (map (\<lambda>x. le_bytes 8 (unat x)) xs)"

definition serialize :: "RBIn \<Rightarrow> byte list" where
  "serialize e =
     (let lines_offset = 7 * 8;
          filenames_offset = lines_offset + 8 * length (lines e);
          names_offset = filenames_offset + length (sbytes (filenames e));
          values_offset = names_offset + length (sbytes (names e))
      in le_bytes 8 (serializedSize e) @ le_bytes 8 (get_size e) @ le_bytes 8 (length (rvalues e)) @
         le_bytes 8 lines_offset @ le_bytes 8 filenames_offset @ le_bytes 8 names_offset @ le_bytes 8 values_offset @
         int64_bytes (lines e) @ sbytes (filenames e) @ sbytes (names e) @ int64_bytes (rvalues e))"

section \<open>The mirrored mapping\<close>

record RingBuffer =
  rsize :: nat
  read_pos :: nat
  write_pos :: nat
  rmem :: "nat \<Rightarrow> byte"

definition load :: "RingBuffer \<Rightarrow> nat \<Rightarrow> nat \<Rightarrow> byte list option" where
  "load r a n = (if a + n \<le> 2 * rsize r then Some (map (\<lambda>k. rmem r ((a + k) mod rsize r)) [0..<n]) else None)"

fun store :: "nat \<Rightarrow> nat \<Rightarrow> byte list \<Rightarrow> (nat \<Rightarrow> byte) \<Rightarrow> nat \<Rightarrow> byte" where
  "store sz a [] m = m"
| "store sz a (b # bs) m = store sz (Suc a) bs (m(a mod sz := b))"

section \<open>The reader\<close>

definition read_size :: "RingBuffer \<Rightarrow> nat \<Rightarrow> nat option" where
  "read_size r a = map_option of_le_bytes (load r a 8)"

text \<open>A C string of the mapping; \<open>n\<close> bounds the scan by the end of the mapping.\<close>

fun read_cstr :: "RingBuffer \<Rightarrow> nat \<Rightarrow> nat \<Rightarrow> byte list option" where
  "read_cstr r a 0 = None"
| "read_cstr r a (Suc n) =
     (let b = rmem r (a mod rsize r)
      in if b = 0 then Some [] else map_option (\<lambda>s. b # s) (read_cstr r (Suc a) n))"

definition strlen_at :: "RingBuffer \<Rightarrow> nat \<Rightarrow> byte list option" where
  "strlen_at r a = read_cstr r a (2 * rsize r - a)"

fun read_values :: "RingBuffer \<Rightarrow> nat \<Rightarrow> nat \<Rightarrow> u64 list option" where
  "read_values r a 0 = Some []"
| "read_values r a (Suc n) = do {
     v \<leftarrow> read_size r a;
     vs \<leftarrow> read_values r (a + 8) n;
     Some (of_nat v # vs)
   }"

type_synonym sample = "string \<times> string \<times> u64"

text \<open>The loop over the entries: the calls of \<open>iterate\<close>, in order.\<close>

fun read_entries :: "RingBuffer \<Rightarrow> nat \<Rightarrow> nat \<Rightarrow> nat \<Rightarrow> nat \<Rightarrow> sample list option" where
  "read_entries r la fa na 0 = Some []"
| "read_entries r la fa na (Suc n) = do {
     f \<leftarrow> strlen_at r fa;
     m \<leftarrow> strlen_at r na;
     l \<leftarrow> read_size r la;
     es \<leftarrow> read_entries r (la + 8) (fa + length f + 1) (na + length m + 1) n;
     Some ((chars_of f, chars_of m, of_nat l) # es)
   }"

definition deserialize :: "RingBuffer \<Rightarrow> nat \<Rightarrow> (nat \<times> sample list) option" where
  "deserialize r buffer_start = do {
     buffer_size \<leftarrow> read_size r buffer_start;
     num_entries \<leftarrow> read_size r (buffer_start + 8);
     num_values \<leftarrow> read_size r (buffer_start + 16);
     lines_offset \<leftarrow> read_size r (buffer_start + 24);
     filenames_offset \<leftarrow> read_size r (buffer_start + 32);
     names_offset \<leftarrow> read_size r (buffer_start + 40);
     values_offset \<leftarrow> read_size r (buffer_start + 48);
     _ \<leftarrow> read_values r (buffer_start + values_offset) num_values;
     es \<leftarrow> read_entries r (buffer_start + lines_offset) (buffer_start + filenames_offset)
             (buffer_start + names_offset) num_entries;
     Some (buffer_size, es)
   }"

section \<open>The ring\<close>

text \<open>
  The loop of \<open>write\<close> that reserves space. \<open>env\<close> is what other threads do between the loads and
  the compare-and-swap and while the thread yields.
\<close>

fun reserve :: "(RingBuffer \<Rightarrow> RingBuffer) \<Rightarrow> nat \<Rightarrow> nat \<Rightarrow> RingBuffer \<Rightarrow> nat option \<times> RingBuffer" where
  "reserve env len 0 r = (None, r)"
| "reserve env len (Suc tries) r =
     (let saved_write = write_pos r; saved_read = read_pos r; next_write = saved_write + len
      in if next_write < saved_read + rsize r
         then
           (let r = env r
            in if write_pos r = saved_write
               then (Some saved_write, r\<lparr>write_pos := next_write mod rsize r\<rparr>)
               else if 0 < tries then reserve env len tries (env r) else (None, r))
         else (None, r))"

definition rb_write :: "(RingBuffer \<Rightarrow> RingBuffer) \<Rightarrow> RBIn \<Rightarrow> RingBuffer \<Rightarrow> bool \<times> RingBuffer" where
  "rb_write env entry r =
     (case reserve env (serializedSize entry) 3 r of
        (None, r) \<Rightarrow> (False, r)
      | (Some saved_write, r) \<Rightarrow> (True, r\<lparr>rmem := store (rsize r) saved_write (serialize entry) (rmem r)\<rparr>))"

definition rb_read :: "RingBuffer \<Rightarrow> (sample list option \<times> RingBuffer) option" where
  "rb_read r =
     (if read_pos r = write_pos r then Some (None, r)
      else do {
        (serialized_sz, es) \<leftarrow> deserialize r (read_pos r);
        Some (Some es, r\<lparr>read_pos := (read_pos r + serialized_sz) mod rsize r\<rparr>)
      })"

section \<open>Setting up the mapping\<close>


text \<open>
  The system calls of the constructor: \<open>fails\<close> decides for each call whether it fails,
  \<open>closes\<close> lists the descriptors passed to \<open>close\<close>, \<open>maps\<close> counts mappings, \<open>tmp_dirs\<close> are the
  directories that allow \<open>O_TMPFILE\<close>.
\<close>

record rb_os =
  fails :: "bool list"
  fd_next :: nat
  closes :: "nat list"
  maps :: nat
  tmp_dirs :: "string set"

definition may_fail :: "rb_os \<Rightarrow> bool \<times> rb_os" where
  "may_fail s = (case fails s of [] \<Rightarrow> (False, s) | f # fs \<Rightarrow> (f, s\<lparr>fails := fs\<rparr>))"

definition fd_open :: "rb_os \<Rightarrow> nat option \<times> rb_os" where
  "fd_open s =
     (case may_fail s of (True, s) \<Rightarrow> (None, s) | (False, s) \<Rightarrow> (Some (fd_next s), s\<lparr>fd_next := Suc (fd_next s)\<rparr>))"

definition fd_close :: "nat \<Rightarrow> rb_os \<Rightarrow> rb_os" where
  "fd_close fd s = s\<lparr>closes := closes s @ [fd]\<rparr>"

definition try_map :: "nat \<Rightarrow> rb_os \<Rightarrow> bool \<times> rb_os" where
  "try_map fd s =
     (case may_fail s of
        (True, s) \<Rightarrow> (False, fd_close fd s)
      | (False, s) \<Rightarrow>
          (let s = s\<lparr>maps := Suc (maps s)\<rparr>
           in case may_fail s of
                (True, s) \<Rightarrow> (False, fd_close fd (s\<lparr>maps := maps s - 1\<rparr>))
              | (False, s) \<Rightarrow> (True, s)))"

text \<open>What both ways to get a descriptor do with it: resize, map, close.\<close>

definition map_fd :: "nat \<Rightarrow> rb_os \<Rightarrow> bool \<times> rb_os" where
  "map_fd fd s =
     (case may_fail s of
        (True, s) \<Rightarrow> (False, fd_close fd s)
      | (False, s) \<Rightarrow> (case try_map fd s of (ret, s) \<Rightarrow> (ret, fd_close fd s)))"

definition buffer_from_memfd :: "rb_os \<Rightarrow> bool \<times> rb_os" where
  "buffer_from_memfd s = (case fd_open s of (None, s) \<Rightarrow> (False, s) | (Some fd, s) \<Rightarrow> map_fd fd s)"





section \<open>Bytes at an address\<close>

definition at :: "RingBuffer \<Rightarrow> nat \<Rightarrow> byte list \<Rightarrow> bool" where
  "at r a bs \<longleftrightarrow> a + length bs \<le> 2 * rsize r \<and> (\<forall>k < length bs. rmem r ((a + k) mod rsize r) = bs ! k)"

lemma at_Cons: "at r a (b # bs) \<longleftrightarrow> a < 2 * rsize r \<and> rmem r (a mod rsize r) = b \<and> at r (Suc a) bs"
  by (auto simp: at_def All_less_Suc2)

lemma at_Nil: "at r a bs \<Longrightarrow> at r a []"
  by (simp add: at_def)

lemma at_append [simp]: "at r a (xs @ ys) \<longleftrightarrow> at r a xs \<and> at r (a + length xs) ys"
  by (induction xs arbitrary: a) (auto simp: at_Cons dest: at_Nil)

lemma load_at: "at r a bs \<Longrightarrow> load r a (length bs) = Some bs"
  by (auto simp: at_def load_def intro!: nth_equalityI)

lemma read_size_at: "at r a (le_bytes 8 v) \<Longrightarrow> v < 2 ^ 64 \<Longrightarrow> read_size r a = Some v"
  using load_at [of r a "le_bytes 8 v"] of_le_bytes_le_bytes [of v 8] by (simp add: read_size_def)

lemma read_cstr_at: "at r a (s @ [0]) \<Longrightarrow> 0 \<notin> set s \<Longrightarrow> length s < n \<Longrightarrow> read_cstr r a n = Some s"
proof (induction s arbitrary: a n)
  case Nil
  then show ?case by (cases n) (simp_all add: at_Cons)
next
  case (Cons b s)
  then obtain m where n: "n = Suc m" by (cases n) auto
  have "at r (Suc a) (s @ [0])" using Cons.prems(1) by (simp add: at_Cons)
  from Cons.IH [OF this, of m] Cons.prems n show ?case
    by (auto simp: at_Cons Let_def)
qed

lemma strlen_at_at: "at r a (s @ [0]) \<Longrightarrow> 0 \<notin> set s \<Longrightarrow> strlen_at r a = Some s"
  unfolding strlen_at_def by (rule read_cstr_at) (auto simp: at_def)

section \<open>Serialised batches\<close>

definition batch :: "(string \<Rightarrow> byte list) \<Rightarrow> sample list \<Rightarrow> RBIn" where
  "batch enc es = foldl (\<lambda>e (f, n, l). push enc f n l e) clear es"

text \<open>What the reader relies on in the undefined \<open>add_string\<close>: the string and one zero.\<close>

definition terminated :: "(string \<Rightarrow> byte list) \<Rightarrow> bool" where
  "terminated enc \<longleftrightarrow> (\<forall>s. CHR 0x00 \<notin> set s \<longrightarrow> enc s = bytes_of s @ [0])"

definition plain :: "sample list \<Rightarrow> bool" where
  "plain es \<longleftrightarrow> list_all (\<lambda>(f, n, l). CHR 0x00 \<notin> set f \<and> CHR 0x00 \<notin> set n) es"

lemma batch_parts:
  "lines (batch enc es) = map (snd \<circ> snd) es" "rvalues (batch enc es) = []"
  "sbytes (filenames (batch enc es)) = concat (map (enc \<circ> fst) es)"
  "sbytes (names (batch enc es)) = concat (map (enc \<circ> fst \<circ> snd) es)"
  unfolding batch_def
  by (induction es rule: rev_induct) (auto simp: clear_def push_def add_string_def)

lemma length_int64_bytes [simp]: "length (int64_bytes xs) = 8 * length xs"
  by (induction xs) (simp_all add: int64_bytes_def)

lemma length_serialize [simp]: "length (serialize e) = serializedSize e"
  by (simp add: serialize_def serializedSize_def Let_def)

lemma read_entries_at:
  assumes "terminated enc" "plain es"
    and "at r la (int64_bytes (map (snd \<circ> snd) es))"
    and "at r fa (concat (map (enc \<circ> fst) es))" "at r na (concat (map (enc \<circ> fst \<circ> snd) es))"
  shows "read_entries r la fa na (length es) = Some es"
  using assms(2-)
proof (induction es arbitrary: la fa na)
  case (Cons e es)
  obtain f n l where e: "e = (f, n, l)" by (cases e)
  have z: "CHR 0x00 \<notin> set f" "CHR 0x00 \<notin> set n" "plain es"
    using Cons.prems(1) e by (auto simp: plain_def)
  then have enc: "enc f = bytes_of f @ [0]" "enc n = bytes_of n @ [0]"
    using assms(1) by (auto simp: terminated_def)
  have "at r la (le_bytes 8 (unat l))" "at r (la + 8) (int64_bytes (map (snd \<circ> snd) es))"
    using Cons.prems(2) e by (simp_all add: int64_bytes_def comp_def)
  moreover have "read_entries r (la + 8) (fa + length f + 1) (na + length n + 1) (length es) = Some es"
    using Cons.prems(3,4) e calculation(2) z(3) by (intro Cons.IH) (simp_all add: enc at_Cons comp_def)
  moreover have "strlen_at r fa = Some (bytes_of f)" "strlen_at r na = Some (bytes_of n)"
    using Cons.prems(3,4) e z zero_not_in_bytes_of by (auto simp: enc at_Cons dest: at_Nil intro!: strlen_at_at)
  ultimately show ?case
    using read_size_at [of r la "unat l"] unsigned_less [of l] by (simp add: e)
qed simp

lemma deserialize_serialize:
  assumes "terminated enc" "plain es" "at r a (serialize (batch enc es))" "serializedSize (batch enc es) < 2 ^ 64"
  shows "deserialize r a = Some (serializedSize (batch enc es), es)"
proof -
  define F where "F = concat (map (enc \<circ> fst) es)"
  define N where "N = concat (map (enc \<circ> fst \<circ> snd) es)"
  let ?o = "56 + 8 * length es"
  have sz: "serializedSize (batch enc es) = ?o + length F + length N"
    by (simp add: serializedSize_def batch_parts F_def N_def)
  have parts: "at r a (le_bytes 8 (?o + length F + length N))" "at r (a + 8) (le_bytes 8 (length es))"
     "at r (a + 16) (le_bytes 8 0)" "at r (a + 24) (le_bytes 8 56)" "at r (a + 32) (le_bytes 8 ?o)"
     "at r (a + 40) (le_bytes 8 (?o + length F))" "at r (a + 48) (le_bytes 8 (?o + length F + length N))"
     "at r (a + 56) (int64_bytes (map (snd \<circ> snd) es))" "at r (a + ?o) F" "at r (a + (?o + length F)) N"
    using assms(3) unfolding serialize_def sz
    by (simp_all add: Let_def batch_parts get_size_def F_def [symmetric] N_def [symmetric] add.assoc)
  have "read_size r a = Some (?o + length F + length N)" "read_size r (a + 8) = Some (length es)"
     "read_size r (a + 16) = Some 0" "read_size r (a + 24) = Some 56" "read_size r (a + 32) = Some ?o"
     "read_size r (a + 40) = Some (?o + length F)" "read_size r (a + 48) = Some (?o + length F + length N)"
    using assms(4) unfolding sz by (intro read_size_at parts; linarith)+
  moreover have "read_entries r (a + 56) (a + ?o) (a + (?o + length F)) (length es) = Some es"
    using parts(8-10) unfolding F_def N_def by (intro read_entries_at [OF assms(1,2)]) simp_all
  ultimately show ?thesis
    by (simp add: deserialize_def sz)
qed

section \<open>Stores\<close>

lemma store_other: "(\<And>k. k < length bs \<Longrightarrow> (a + k) mod sz \<noteq> i) \<Longrightarrow> store sz a bs m i = m i"
proof (induction bs arbitrary: a m)
  case (Cons b bs)
  have "store sz (Suc a) bs (m(a mod sz := b)) i = (m(a mod sz := b)) i"
  proof (rule Cons.IH)
    fix k assume "k < length bs"
    then show "(Suc a + k) mod sz \<noteq> i" using Cons.prems [of "Suc k"] by simp
  qed
  then show ?case using Cons.prems [of 0] by simp
qed simp

lemma store_last:
  assumes "k < length bs" "\<And>j. k < j \<Longrightarrow> j < length bs \<Longrightarrow> (a + j) mod sz \<noteq> (a + k) mod sz"
  shows "store sz a bs m ((a + k) mod sz) = bs ! k"
  using assms
proof (induction bs arbitrary: a m k)
  case (Cons b bs)
  show ?case
  proof (cases k)
    case 0
    have "store sz (Suc a) bs (m(a mod sz := b)) (a mod sz) = (m(a mod sz := b)) (a mod sz)"
    proof (rule store_other)
      fix j assume "j < length bs"
      then show "(Suc a + j) mod sz \<noteq> a mod sz" using Cons.prems(2) [of "Suc j"] 0 by simp
    qed
    with 0 show ?thesis by simp
  next
    case (Suc i)
    have "store sz (Suc a) bs (m(a mod sz := b)) ((Suc a + i) mod sz) = bs ! i"
    proof (rule Cons.IH)
      show "i < length bs" using Cons.prems(1) Suc by simp
      fix j assume "i < j" "j < length bs"
      then show "(Suc a + j) mod sz \<noteq> (Suc a + i) mod sz" using Cons.prems(2) [of "Suc j"] Suc by simp
    qed
    with Suc show ?thesis by simp
  qed
qed simp

lemma mod_shift_neq:
  assumes "j < k" "k < j + sz"
  shows "(a + k) mod sz \<noteq> (a + j) mod (sz :: nat)"
proof
  assume "(a + k) mod sz = (a + j) mod sz"
  then have "sz dvd (a + k) - (a + j)" using assms(1) by (simp add: mod_eq_dvd_iff_nat)
  then have "sz dvd k - j" by simp
  with assms show False by (auto dest!: dvd_imp_le)
qed

lemma at_store:
  assumes "length bs \<le> rsize r" "a + length bs \<le> 2 * rsize r"
  shows "at (r\<lparr>rmem := store (rsize r) a bs (rmem r)\<rparr>) a bs"
proof -
  have "store (rsize r) a bs (rmem r) ((a + k) mod rsize r) = bs ! k" if "k < length bs" for k
    using that assms(1) by (intro store_last mod_shift_neq) simp_all
  then show ?thesis using assms(2) by (simp add: at_def)
qed


section \<open>The ring as a queue\<close>

definition stream :: "(string \<Rightarrow> byte list) \<Rightarrow> sample list list \<Rightarrow> byte list" where
  "stream enc bs = concat (map (\<lambda>es. serialize (batch enc es)) bs)"

lemma stream_simps [simp]:
  "stream enc [] = []" "stream enc (es # bs) = serialize (batch enc es) @ stream enc bs"
  "stream enc (bs @ bs') = stream enc bs @ stream enc bs'"
  by (simp_all add: stream_def)

text \<open>The ring holds the batches \<open>bs\<close>: they lie one after the other from the read to the write position.\<close>

definition holds :: "(string \<Rightarrow> byte list) \<Rightarrow> RingBuffer \<Rightarrow> sample list list \<Rightarrow> bool" where
  "holds enc r bs \<longleftrightarrow>
     rsize r < 2 ^ 64 \<and> read_pos r < rsize r \<and> length (stream enc bs) < rsize r \<and>
     write_pos r = (read_pos r + length (stream enc bs)) mod rsize r \<and>
     at r (read_pos r) (stream enc bs) \<and> list_all plain bs"





lemma reserve_alone:
  "reserve (\<lambda>r. r) len 3 r =
     (if write_pos r + len < read_pos r + rsize r
      then (Some (write_pos r), r\<lparr>write_pos := (write_pos r + len) mod rsize r\<rparr>) else (None, r))"
  by (simp add: numeral_3_eq_3 Let_def)







section \<open>The demonstration program\<close>





lemma set_dec_no_zero [simp]: "CHR 0x00 \<notin> set (dec n)"
  using set_dec [of "CHR 0x00" n] by (auto simp: is_digit_def)




section \<open>Properties\<close>

text \<open>
  C32. A serialised batch reads back as it was: from any address at which the mirrored mapping
  holds the bytes of a batch, the reader takes its size and makes exactly the calls the
  batch was built from, in order, provided a string is stored with one terminating zero.
\<close>

theorem batch_roundtrip:
  assumes "terminated enc" and "plain es" and "at r a (serialize (batch enc es))"
    and "serializedSize (batch enc es) < 2 ^ 64"
  shows "deserialize r a = Some (serializedSize (batch enc es), es)"
  using assms by (rule deserialize_serialize)

definition zero_ended :: "string \<Rightarrow> byte list" where
  "zero_ended s = bytes_of s @ [0]"

lemma terminated_zero_ended: "terminated zero_ended"
  by (simp add: terminated_def zero_ended_def)

theorem batch_roundtrip_witness:
  "deserialize \<lparr>rsize = 100, read_pos = 60, write_pos = 60,
     rmem = store 100 60 (serialize (batch zero_ended [(''f'', ''g'', 7)])) (\<lambda>_. 0)\<rparr> 60 =
   Some (68, [(''f'', ''g'', 7)])"
proof -
  let ?e = "batch zero_ended [(''f'', ''g'', 7)]"
  let ?r = "\<lparr>rsize = 100, read_pos = 60, write_pos = 60, rmem = (\<lambda>_. 0)\<rparr>"
  have sz: "serializedSize ?e = 68"
    by (simp add: serializedSize_def batch_parts zero_ended_def)
  then have "at (?r\<lparr>rmem := store (rsize ?r) 60 (serialize ?e) (rmem ?r)\<rparr>) 60 (serialize ?e)"
    by (intro at_store) simp_all
  then show ?thesis
    using batch_roundtrip [OF terminated_zero_ended, of "[(''f'', ''g'', 7)]"] by (simp add: sz plain_def)
qed





text \<open>
  Once the write position has wrapped around, a write is accepted although there is no room:
  the check then allows up to twice the size of the ring. When the batches in the ring
  and the new one are together longer than the ring, the write reports success and has
  overwritten the beginning of the oldest batch that nobody has read yet.
\<close>

theorem wrapped_write_overwrites_unread:
  assumes "holds enc r bs" and "write_pos r < read_pos r"
    and "rsize r < length (stream enc bs) + serializedSize e"
    and "length (stream enc bs) + serializedSize e < 2 * rsize r"
  shows "fst (rb_write (\<lambda>r. r) e r) \<and>
     rmem (snd (rb_write (\<lambda>r. r) e r)) (read_pos r) = serialize e ! (rsize r - length (stream enc bs))"
proof -
  let ?L = "length (stream enc bs)" and ?n = "serializedSize e"
  have h: "read_pos r < rsize r" "?L < rsize r" "write_pos r = (read_pos r + ?L) mod rsize r"
    using assms(1) by (auto simp: holds_def)
  have w: "write_pos r + rsize r = read_pos r + ?L"
    using h assms(2) by (cases "read_pos r + ?L < rsize r") (auto simp: mod_if)
  then have acc: "write_pos r + ?n < read_pos r + rsize r"
    using assms(4) by linarith
  let ?k = "rsize r - ?L"
  have k: "write_pos r + ?k = read_pos r" using w h(2) by linarith
  have "store (rsize r) (write_pos r) (serialize e) (rmem r) ((write_pos r + ?k) mod rsize r) = serialize e ! ?k"
  proof (rule store_last)
    show "?k < length (serialize e)" using assms(3) h(2) by simp
    fix j assume "?k < j" "j < length (serialize e)"
    then show "(write_pos r + j) mod rsize r \<noteq> (write_pos r + ?k) mod rsize r"
      using assms(4) h(2) by (intro mod_shift_neq) simp_all
  qed
  then show ?thesis
    using acc h(1) unfolding k by (simp add: rb_write_def reserve_alone)
qed

definition wrapped_ring :: RingBuffer where
  "wrapped_ring = \<lparr>rsize = 100, read_pos = 60, write_pos = 16,
     rmem = store 100 60 (serialize (batch zero_ended [])) (\<lambda>_. 0)\<rparr>"

theorem wrapped_write_overwrites_unread_witness:
  "fst (rb_write (\<lambda>r. r) (batch zero_ended []) wrapped_ring) \<and>
     rmem (snd (rb_write (\<lambda>r. r) (batch zero_ended []) wrapped_ring)) 60 = serialize (batch zero_ended []) ! 44"
proof -
  let ?r = "\<lparr>rsize = 100, read_pos = 60, write_pos = 16, rmem = (\<lambda>_. 0)\<rparr>"
  let ?e = "batch zero_ended []"
  have sz: "serializedSize ?e = 56" by (simp add: serializedSize_def batch_parts)
  then have "at (?r\<lparr>rmem := store (rsize ?r) 60 (serialize ?e) (rmem ?r)\<rparr>) 60 (serialize ?e)"
    by (intro at_store) simp_all
  then have "holds zero_ended wrapped_ring [[]]"
    by (simp add: holds_def wrapped_ring_def sz plain_def)
  from wrapped_write_overwrites_unread [OF this, of ?e] show ?thesis
    by (simp add: sz wrapped_ring_def)
qed

text \<open>
  The write position is published before the batch is written: a reader that comes in
  between, on memory still zero, takes the place for a batch, delivers nothing, reports
  success and does not move on, so that it can repeat this without end.
\<close>

theorem read_before_store_spins:
  assumes "reserve env n 3 r = (Some (read_pos r'), r')" and "rmem r' = (\<lambda>_. 0)"
    and "write_pos r' \<noteq> read_pos r'" and "read_pos r' < rsize r'" and "56 \<le> rsize r'"
  shows "rb_read r' = Some (Some [], r')"
proof -
  have "read_size r' (read_pos r' + k) = Some 0" if "k \<le> 48" for k
  proof -
    have "load r' (read_pos r' + k) 8 = Some (replicate 8 0)"
      using that assms(2,4,5) by (simp add: load_def map_replicate_const)
    then show ?thesis by (simp add: read_size_def numeral_eq_Suc)
  qed
  from this [of 0] this [of 8] this [of 16] this [of 24] this [of 32] this [of 40] this [of 48]
  have "deserialize r' (read_pos r') = Some (0, [])"
    by (simp add: deserialize_def)
  then show ?thesis
    using assms(3,4) by (simp add: rb_read_def)
qed

theorem read_before_store_spins_witness:
  "rb_read \<lparr>rsize = 4096, read_pos = 0, write_pos = 306, rmem = (\<lambda>_. 0)\<rparr> =
     Some (Some [], \<lparr>rsize = 4096, read_pos = 0, write_pos = 306, rmem = (\<lambda>_. 0)\<rparr>)"
  by (rule read_before_store_spins [of "\<lambda>r. r" 306 "\<lparr>rsize = 4096, read_pos = 0, write_pos = 0, rmem = (\<lambda>_. 0)\<rparr>"])
     (simp_all add: reserve_alone)

text \<open>
  Every way out of \<open>buffer_from_memfd\<close>: it succeeds exactly when none of its calls fails, and
  only then a mapping is left. An opened descriptor is closed once, except when one of the
  two mappings failed: then \<open>try_map\<close> closes it and its caller closes the same number
  again, which by then may belong to someone else.
\<close>

theorem failed_map_closes_twice:
  assumes "fails s = no_fd # no_size # no_map # no_mirror # fs" and "buffer_from_memfd s = (ok, s')"
  shows "(ok \<longleftrightarrow> \<not> no_fd \<and> \<not> no_size \<and> \<not> no_map \<and> \<not> no_mirror) \<and>
     maps s' = maps s + (if ok then 1 else 0) \<and>
     closes s' = closes s @
       replicate (if no_fd then 0 else if no_size then 1 else if no_map \<or> no_mirror then 2 else 1) (fd_next s)"
  using assms
  by (cases no_fd; cases no_size; cases no_map; cases no_mirror)
     (auto simp: buffer_from_memfd_def fd_open_def may_fail_def map_fd_def try_map_def fd_close_def Let_def numeral_2_eq_2)

theorem failed_map_closes_twice_witness:
  "closes (snd (buffer_from_memfd \<lparr>fails = [False, False, True, False], fd_next = 3, closes = [], maps = 0, tmp_dirs = {}\<rparr>)) =
     [3, 3]"
proof -
  let ?s = "\<lparr>fails = [False, False, True, False], fd_next = 3, closes = [], maps = 0, tmp_dirs = {}\<rparr>"
  show ?thesis
    using failed_map_closes_twice [of ?s False False True False "[]" "fst (buffer_from_memfd ?s)" "snd (buffer_from_memfd ?s)"]
    by (simp add: numeral_2_eq_2)
qed

end
