(* ===== verification/File_Appender.thy ===== *)
theory File_Appender
  imports Mmlog_Shared C_String
begin

text \<open>
  The benchmark \<^verbatim>\<open>write_append/src/main.cc\<close>: one class with six ways to append to a file, one of
  them the log. The asynchronous way goes through \<open>libaio\<close>, which is not part of the
  repository: its calls are the record \<open>libaio\<close> of functions. \<open>align\<close> is the alignment the file
  system asks of direct writes. Times and throughput are not modelled.
\<close>

section \<open>Appending writes\<close>

text \<open>
  \<open>write\<close> to a descriptor opened with \<open>O_APPEND\<close>, and \<open>fwrite\<close> followed by \<open>fflush\<close>, which repeats
  a short write.
\<close>

definition sys_append :: "nat option \<Rightarrow> byte list \<Rightarrow> log_world \<Rightarrow> nat option \<times> log_world" where
  "sys_append fd bs w =
     (case Option.bind fd (fdtab w) of
        None \<Rightarrow> (None, w)
      | Some ino \<Rightarrow>
          (case next_fault w of (f, w) \<Rightarrow>
             if f = Fail then (None, w)
             else
               (let bs' = (case f of Short n \<Rightarrow> take n bs | _ \<Rightarrow> bs)
                in (Some (length bs'),
                    w\<lparr>inodes := (inodes w)(ino := write_at (fsize (inodes w ino)) bs' (inodes w ino))\<rparr>))))"

definition fwrite_fflush :: "nat \<Rightarrow> byte list \<Rightarrow> log_world \<Rightarrow> bool \<times> log_world" where
  "fwrite_fflush fd bs w =
     (case sys_append (Some fd) bs w of
        (None, w) \<Rightarrow> (False, w)
      | (Some n, w) \<Rightarrow>
          if n = length bs then (True, w)
          else (case sys_append (Some fd) (drop n bs) w of (m, w) \<Rightarrow> (m = Some (length bs - n), w)))"

section \<open>The class\<close>

datatype AppendMethod =
  WRITE_APPEND | WRITEV_APPEND | FWRITE_APPEND | DIRECT_APPEND | AIO_APPEND | MMLOG_APPEND

record libaio =
  io_setup :: "log_world \<Rightarrow> bool \<times> log_world"
  io_submit :: "nat option \<Rightarrow> byte list \<Rightarrow> log_world \<Rightarrow> int \<times> log_world"
  io_getevents :: "log_world \<Rightarrow> int \<times> log_world"

record FileAppender =
  amethod :: AppendMethod
  afd :: "nat option"
  afile :: "nat option"
  aio_ctx :: bool
  aligned_buffer :: bool
  aligned_buffer_size :: nat
  mmlog_handle :: "nat option"

definition new_FileAppender :: "AppendMethod \<Rightarrow> FileAppender" where
  "new_FileAppender m = \<lparr>amethod = m, afd = None, afile = None, aio_ctx = False, aligned_buffer = False,
     aligned_buffer_size = 0, mmlog_handle = None\<rparr>"

definition Open ::
  "(log_world \<Rightarrow> log_world) \<Rightarrow> libaio \<Rightarrow> string \<Rightarrow> FileAppender \<Rightarrow> log_world \<Rightarrow>
     (bool \<times> FileAppender \<times> log_world) option" where
  "Open env lib filename a w =
     (case amethod a of
        WRITE_APPEND \<Rightarrow> (case sys_open_creat filename w of (fd, w) \<Rightarrow> Some (fd \<noteq> None, a\<lparr>afd := fd\<rparr>, w))
      | WRITEV_APPEND \<Rightarrow> (case sys_open_creat filename w of (fd, w) \<Rightarrow> Some (fd \<noteq> None, a\<lparr>afd := fd\<rparr>, w))
      | FWRITE_APPEND \<Rightarrow>
          (case sys_alloc w of
             (False, w) \<Rightarrow> Some (False, a\<lparr>afile := None\<rparr>, w)
           | (True, w) \<Rightarrow> (case sys_open_creat filename w of (fd, w) \<Rightarrow> Some (fd \<noteq> None, a\<lparr>afile := fd\<rparr>, w)))
      | DIRECT_APPEND \<Rightarrow>
          (case sys_open_creat filename w of
             (None, w) \<Rightarrow> Some (False, a\<lparr>afd := None\<rparr>, w)
           | (Some fd, w) \<Rightarrow>
               (case sys_alloc w of
                  (ok, w) \<Rightarrow>
                    (let a = a\<lparr>afd := Some fd, aligned_buffer_size := 4096, aligned_buffer := ok\<rparr>
                     in Some (aligned_buffer a, a, w))))
      | AIO_APPEND \<Rightarrow>
          (case sys_open_creat filename w of
             (fd, w) \<Rightarrow> (case io_setup lib w of (ctx, w) \<Rightarrow> Some (fd \<noteq> None, a\<lparr>afd := fd, aio_ctx := ctx\<rparr>, w)))
      | MMLOG_APPEND \<Rightarrow> do {
          (h, w) \<leftarrow> mmlog_open env (Some filename) (8 * 4096) 4 w;
          Some (h \<noteq> None, a\<lparr>mmlog_handle := h\<rparr>, w)
        })"

definition Append ::
  "(log_world \<Rightarrow> log_world) \<Rightarrow> libaio \<Rightarrow> nat \<Rightarrow> FileAppender \<Rightarrow> byte list \<Rightarrow> bool log_act" where
  "Append env lib align a bs w =
     (case amethod a of
        WRITE_APPEND \<Rightarrow> (case sys_append (afd a) bs w of (n, w) \<Rightarrow> Some (n = Some (length bs), w))
      | WRITEV_APPEND \<Rightarrow> (case sys_append (afd a) bs w of (n, w) \<Rightarrow> Some (n = Some (length bs), w))
      | FWRITE_APPEND \<Rightarrow> (case afile a of None \<Rightarrow> None | Some fd \<Rightarrow> Some (fwrite_fflush fd bs w))
      | DIRECT_APPEND \<Rightarrow>
          if aligned_buffer_size a < length bs then Some (False, w)
          else if \<not> aligned_buffer a then None
          else if align dvd length bs
          then (case sys_append (afd a) bs w of (n, w) \<Rightarrow> Some (n = Some (length bs), w))
          else Some (False, w)
      | AIO_APPEND \<Rightarrow>
          (case io_submit lib (afd a) bs w of
             (r, w) \<Rightarrow>
               if r \<noteq> 1 then Some (False, w)
               else (case io_getevents lib w of (r, w) \<Rightarrow> Some (r = 1, w)))
      | MMLOG_APPEND \<Rightarrow> mmlog_insert env (mmlog_handle a) (Some bs) (of_nat (length bs)) w)"

definition Close :: "FileAppender \<Rightarrow> log_world \<Rightarrow> (FileAppender \<times> log_world) option" where
  "Close a w =
     (let w = (case afd a of None \<Rightarrow> w | Some fd \<Rightarrow> sys_close fd w);
          w = (case afile a of None \<Rightarrow> w | Some fd \<Rightarrow> sys_close fd w);
          b = a\<lparr>afd := None, afile := None, aio_ctx := False, aligned_buffer := False\<rparr>
      in case mmlog_handle a of
           None \<Rightarrow> Some (b, w)
         | Some h \<Rightarrow> do {
             (_, w) \<leftarrow> mmlog_trim (Some h) w;
             Some (b\<lparr>mmlog_handle := None\<rparr>, w)
           })"

definition GetMethodName :: "AppendMethod \<Rightarrow> string" where
  "GetMethodName m =
     (case m of
        WRITE_APPEND \<Rightarrow> ''O_APPEND with write()''
      | WRITEV_APPEND \<Rightarrow> ''writev() with O_APPEND''
      | FWRITE_APPEND \<Rightarrow> ''FILE streams (fwrite)''
      | DIRECT_APPEND \<Rightarrow> ''Direct I/O (O_DIRECT)''
      | AIO_APPEND \<Rightarrow> ''Linux AIO''
      | MMLOG_APPEND \<Rightarrow> ''mmlog'')"

section \<open>The benchmark\<close>

fun method_number :: "AppendMethod \<Rightarrow> nat" where
  "method_number WRITE_APPEND = 0"
| "method_number WRITEV_APPEND = 1"
| "method_number FWRITE_APPEND = 2"
| "method_number DIRECT_APPEND = 3"
| "method_number AIO_APPEND = 4"
| "method_number MMLOG_APPEND = 5"

definition benchmark_file :: "AppendMethod \<Rightarrow> string" where
  "benchmark_file m = ''/tmp/benchmark_'' @ dec (method_number m)"

text \<open>
  What a child process does: its exit code. It ignores the results of \<open>Append\<close>, and leaves through
  \<open>exit\<close>, which does not run the destructor of the local object.
\<close>

fun append_ignoring :: "(byte list \<Rightarrow> bool log_act) \<Rightarrow> nat \<Rightarrow> byte list \<Rightarrow> log_world \<Rightarrow> log_world option" where
  "append_ignoring app 0 bs w = Some w"
| "append_ignoring app (Suc n) bs w = Option.bind (app bs w) (\<lambda>(_, w). append_ignoring app n bs w)"

definition benchmark_child ::
  "(log_world \<Rightarrow> log_world) \<Rightarrow> libaio \<Rightarrow> nat \<Rightarrow> AppendMethod \<Rightarrow> nat \<Rightarrow> nat \<Rightarrow> log_world \<Rightarrow> (int \<times> log_world) option" where
  "benchmark_child env lib align m ops_per_process data_size w = do {
     (ok, a, w) \<leftarrow> Open env lib (benchmark_file m) (new_FileAppender m) w;
     if \<not> ok then Some (1, w)
     else do {
       w \<leftarrow> append_ignoring (Append env lib align a) ops_per_process (replicate data_size 88) w;
       Some (0, w)
     }
   }"

text \<open>The files of earlier runs go first; then the children run, here one after the other.\<close>

fun run_children ::
  "(log_world \<Rightarrow> (int \<times> log_world) option) \<Rightarrow> nat \<Rightarrow> log_world \<Rightarrow> (int list \<times> log_world) option" where
  "run_children child 0 w = Some ([], w)"
| "run_children child (Suc n) w = do {
     (status, w) \<leftarrow> child w;
     (rest, w) \<leftarrow> run_children child n w;
     Some (status # rest, w)
   }"

definition RunBenchmark ::
  "(log_world \<Rightarrow> log_world) \<Rightarrow> libaio \<Rightarrow> nat \<Rightarrow> AppendMethod \<Rightarrow> nat \<Rightarrow> nat \<Rightarrow> nat \<Rightarrow> log_world \<Rightarrow>
     ((string \<times> int list) \<times> log_world) option" where
  "RunBenchmark env lib align m num_processes ops_per_process data_size w =
     (let w = sys_unlink (benchmark_file m) w;
          w = sys_unlink (benchmark_file m @ ''.mmlog'') w
      in do {
        (stats, w) \<leftarrow> run_children (benchmark_child env lib align m ops_per_process data_size) num_processes w;
        Some ((GetMethodName m, stats), w)
      })"

text \<open>The command line: the help text, or the methods to run in their fixed order.\<close>

fun scan_args :: "string list \<Rightarrow> bool \<Rightarrow> string list \<Rightarrow> (bool \<times> string list) option" where
  "scan_args [] run_all names = Some (run_all, names)"
| "scan_args (arg # args) run_all names =
     (if arg = ''-h'' \<or> arg = ''--help'' then None
      else if arg = ''all'' then scan_args args True names
      else scan_args args run_all (names @ [arg]))"

definition benchmark_table :: "(string \<times> AppendMethod) list" where
  "benchmark_table = [(''mmlog'', MMLOG_APPEND), (''write'', WRITE_APPEND), (''writev'', WRITEV_APPEND),
     (''fwrite'', FWRITE_APPEND), (''direct'', DIRECT_APPEND), (''aio'', AIO_APPEND)]"

definition selected_benchmarks :: "string list \<Rightarrow> AppendMethod list option" where
  "selected_benchmarks args =
     (case scan_args args (args = []) [] of
        None \<Rightarrow> None
      | Some (run_all, names) \<Rightarrow> Some (map snd (filter (\<lambda>(n, m). run_all \<or> n \<in> set names) benchmark_table)))"

section \<open>Plain files as append logs\<close>

definition plain_method :: "AppendMethod \<Rightarrow> bool" where
  "plain_method m \<longleftrightarrow> m = WRITE_APPEND \<or> m = WRITEV_APPEND \<or> m = FWRITE_APPEND"

definition descriptor :: "FileAppender \<Rightarrow> nat option" where
  "descriptor a = (if amethod a = FWRITE_APPEND then afile a else afd a)"

definition file_space :: "nat \<Rightarrow> log_world \<Rightarrow> nat" where
  "file_space ino w = 2 ^ 63 - fsize (inodes w ino)"

lemma file_bytes_append:
  "file_bytes (write_at (fsize f) bs f) = file_bytes f @ bs"
proof (cases "bs = []")
  case False
  then show ?thesis
    by (intro nth_equalityI) (auto simp: fsize_write_at file_bytes_def fdata_write_at nth_append)
qed (simp add: write_at_def)

lemma sys_append_fine:
  assumes "fdtab w fd = Some ino" "faults w = []"
  shows "sys_append (Some fd) bs w =
     (Some (length bs), w\<lparr>inodes := (inodes w)(ino := write_at (fsize (inodes w ino)) bs (inodes w ino))\<rparr>)"
  using assms by (simp add: sys_append_def Let_def)

lemma Append_plain:
  assumes "plain_method (amethod a)" "descriptor a = Some fd" "fdtab w fd = Some ino" "faults w = []"
  shows "Append env lib align a bs w =
     Some (True, w\<lparr>inodes := (inodes w)(ino := write_at (fsize (inodes w ino)) bs (inodes w ino))\<rparr>)"
  using assms sys_append_fine [OF assms(3,4), of bs]
  by (auto simp: plain_method_def descriptor_def Append_def fwrite_fflush_def)

definition plain_open :: "string \<Rightarrow> FileAppender \<Rightarrow> nat \<Rightarrow> log_world \<Rightarrow> bool" where
  "plain_open name a ino w \<longleftrightarrow> plain_method (amethod a) \<and> faults w = [] \<and> dir w name = Some ino \<and>
     (case descriptor a of None \<Rightarrow> False | Some fd \<Rightarrow> fdtab w fd = Some ino)"

interpretation plain_file: append_log "Append env lib align a" "plain_open name a ino"
  "\<lambda>w. file_bytes (inodes w ino)" "file_space ino"
  for env lib align name a ino
proof unfold_locales
  fix w and bs :: "byte list"
  assume w: "plain_open name a ino w" and bs: "bs \<noteq> []" "length bs \<le> file_space ino w"
  then obtain fd where "plain_method (amethod a)" "descriptor a = Some fd" "fdtab w fd = Some ino" "faults w = []"
    by (auto simp: plain_open_def split: option.splits)
  from Append_plain [OF this, of env lib align bs] w bs
  show "\<exists>w'. Append env lib align a bs w = Some (True, w') \<and> plain_open name a ino w' \<and>
     file_bytes (inodes w' ino) = file_bytes (inodes w ino) @ bs \<and> file_space ino w' = file_space ino w - length bs"
    by (auto simp: file_bytes_append plain_open_def file_space_def fsize_write_at split: option.splits)
qed

section \<open>A session with each method\<close>

definition appender_session ::
  "(log_world \<Rightarrow> log_world) \<Rightarrow> libaio \<Rightarrow> nat \<Rightarrow> AppendMethod \<Rightarrow> string \<Rightarrow> byte list list \<Rightarrow> bool log_act" where
  "appender_session env lib align m name recs w = do {
     (ok, a, w) \<leftarrow> Open env lib name (new_FileAppender m) w;
     if \<not> ok then Some (False, w)
     else do {
       (ok, w) \<leftarrow> append_all (Append env lib align a) recs w;
       (_, w) \<leftarrow> Close a w;
       Some (ok, w)
     }
   }"

text \<open>The machine after a file has been created, and the object that has it open.\<close>

definition with_file :: "string \<Rightarrow> log_world \<Rightarrow> log_world" where
  "with_file name w = w\<lparr>dir := (dir w)(name \<mapsto> next_ino w), inodes := (inodes w)(next_ino w := empty_file),
     next_ino := Suc (next_ino w), fdtab := (fdtab w)(next_fd w \<mapsto> next_ino w), next_fd := Suc (next_fd w)\<rparr>"

lemma sys_open_creat_new:
  assumes "faults w = []" "dir w name = None"
  shows "sys_open_creat name w = (Some (next_fd w), with_file name w)"
  using assms by (simp add: sys_open_creat_def new_file_def new_fd_def with_file_def)

lemma with_file_simps [simp]:
  "faults (with_file name w) = faults w" "dir (with_file name w) name = Some (next_ino w)"
  "fdtab (with_file name w) (next_fd w) = Some (next_ino w)" "inodes (with_file name w) (next_ino w) = empty_file"
  by (simp_all add: with_file_def)

lemma file_bytes_empty [simp]: "file_bytes empty_file = []"
  by (simp add: file_bytes_def empty_file_def)

lemma append_all_cong:
  "(\<And>xs s. xs \<in> set xss \<Longrightarrow> app xs s = app' xs s) \<Longrightarrow> append_all app xss s = append_all app' xss s"
proof (induction xss arbitrary: s)
  case (Cons xs xss)
  have "append_all app xss s = append_all app' xss s" for s using Cons by simp
  with Cons.prems [of xs] show ?case by (cases "app' xs s") auto
qed simp

lemma plain_session:
  assumes "plain_open name a ino w" "file_bytes (inodes w ino) = []" "mmlog_handle a = None"
    and "[] \<notin> set recs" "length (concat recs) \<le> 2 ^ 32"
    and app: "\<And>bs w. bs \<in> set recs \<Longrightarrow> app bs w = Append env lib align a bs w"
    and "mmlog_handle b = None"
  shows "\<exists>w' w''. append_all app recs w = Some (True, w') \<and> (\<exists>c. Close b w' = Some (c, w'')) \<and>
     dir w'' name = Some ino \<and> file_bytes (inodes w'' ino) = concat recs"
proof -
  have "length (file_bytes (inodes w ino)) = 0" using assms(2) by (simp only: list.size)
  then have "fsize (inodes w ino) = 0" by simp
  then have "length (concat recs) \<le> file_space ino w" using assms(5) by (simp add: file_space_def)
  then obtain w' where w': "append_all (Append env lib align a) recs w = Some (True, w')" "plain_open name a ino w'"
      "file_bytes (inodes w' ino) = concat recs"
    using plain_file.append_all_holds [OF assms(1,4), of env lib align] assms(2) by auto
  have "append_all app recs w = Some (True, w')"
    using append_all_cong [of recs app "Append env lib align a" w] app w'(1) by simp
  then show ?thesis
    using w'(2,3) assms(7) by (auto simp: Close_def plain_open_def Let_def split: option.splits)
qed

lemma mmlog_session:
  assumes fresh: "faults w = []" "world_ok w" "name \<noteq> []" "dir w (name @ meta_suffix) = None"
    and recs: "[] \<notin> set recs" "length (concat recs) + 32768 \<le> 2 ^ 32"
  shows "\<exists>w' di. appender_session env lib align MMLOG_APPEND name recs w = Some (True, w') \<and>
     dir w' name = Some di \<and> file_bytes (inodes w' di) = concat recs"
proof -
  let ?a = "(new_FileAppender MMLOG_APPEND)\<lparr>mmlog_handle := Some (next_handle w)\<rparr>"
  have k: "(8 * 4096 :: u64) \<noteq> 0" "page dvd unat (8 * 4096 :: u64)" "unat (8 * 4096 :: u64) < 2 ^ 32" "2 \<le> unat (4 :: u32)"
    by (simp_all add: page_def)
  let ?h = "next_handle w" and ?mi = "next_ino w"
  obtain w1 di where w1: "mmlog_open env (Some name) (8 * 4096) 4 w = Some (Some ?h, w1)" "log_ok ?h ?mi di w1"
      "log_contents ?mi di w1 = []" "log_space ?mi w1 = 2 ^ 32 - unat (8 * 4096 :: u64)" "published name ?mi di w1"
    using mmlog_open_creates [OF fresh(1,3,4) k fresh(2), of env] by blast
  have "length (concat recs) \<le> log_space ?mi w1" using recs(2) unfolding w1(4) by simp
  then obtain w2 where w2: "append_all (insert_record env ?h) recs w1 = Some (True, w2)" "published name ?mi di w2"
      "log_ok ?h ?mi di w2" "log_contents ?mi di w2 = concat recs"
    using mmlog_shared.one.append_all_holds [of name ?mi di w1 ?h recs env] w1 recs(1) by auto
  have op: "Open env lib name (new_FileAppender MMLOG_APPEND) w = Some (True, ?a, w1)"
    using w1(1) by (simp add: Open_def new_FileAppender_def)
  have "append_all (Append env lib align ?a) recs w1 = Some (True, w2)"
    using w2(1) append_all_cong [of recs "Append env lib align ?a" "insert_record env ?h" w1]
    by (simp add: Append_def new_FileAppender_def)
  moreover have "length (log_contents ?mi di w2) = unat (cursor (metas w2 ?mi))"
    using log_contents_bytes [OF w2(3)] by (simp add: log_contents_def)
  then have "unat (cursor (metas w2 ?mi)) < 2 ^ 63" using recs(2) by (simp add: w2(4))
  moreover have "faults w2 = []" "dir w2 name = Some di" using w2(2) by (simp_all add: published_def)
  ultimately show ?thesis
    using op mmlog_trim_fine [OF w2(3)] take_file_bytes_resize [OF log_contents_bytes [OF w2(3)]] w2(4)
    by (simp add: appender_session_def Close_def new_FileAppender_def log_contents_def)
qed

text \<open>
  C38. The ways to append are interchangeable: with any of them but the asynchronous one, a session
  that opens a new file, appends any non-empty records and closes it succeeds and leaves
  a file that holds exactly the records. Direct writes are included when the records fit
  its buffer and the alignment; the log needs the total, and one chunk, below \<open>2 ^ 32\<close>.
\<close>

theorem append_methods_agree:
  assumes "faults w = []" and "world_ok w" and "name \<noteq> []" and "dir w name = None" and "dir w (name @ meta_suffix) = None"
    and "[] \<notin> set recs" and "length (concat recs) + 32768 \<le> 2 ^ 32" and "m \<noteq> AIO_APPEND"
    and "m = DIRECT_APPEND \<longrightarrow> list_all (\<lambda>bs. length bs \<le> 4096 \<and> align dvd length bs) recs"
  shows "\<exists>w' di. appender_session env lib align m name recs w = Some (True, w') \<and>
     dir w' name = Some di \<and> file_bytes (inodes w' di) = concat recs"
proof (cases "m = MMLOG_APPEND")
  case True
  then show ?thesis using mmlog_session [OF assms(1-3,5-7)] by simp
next
  case False
  let ?fd = "Some (next_fd w)" and ?ino = "next_ino w" and ?w = "with_file name w"
  define p where "p = (if m = DIRECT_APPEND then WRITE_APPEND else m)"
  define a where "a = (if m = FWRITE_APPEND then (new_FileAppender m)\<lparr>afile := ?fd\<rparr>
     else if m = DIRECT_APPEND then (new_FileAppender m)\<lparr>afd := ?fd, aligned_buffer_size := 4096, aligned_buffer := True\<rparr>
     else (new_FileAppender m)\<lparr>afd := ?fd\<rparr>)"
  have op: "Open env lib name (new_FileAppender m) w = Some (True, a, ?w)"
    using False assms(1,8) sys_open_creat_new [OF assms(1,4)]
    by (cases m) (simp_all add: Open_def a_def new_FileAppender_def sys_alloc_fine)
  have pl: "plain_open name (a\<lparr>amethod := p\<rparr>) ?ino ?w"
    using False assms(1,8)
    by (cases m) (simp_all add: plain_open_def plain_method_def descriptor_def p_def a_def new_FileAppender_def)
  have same: "Append env lib align a bs v = Append env lib align (a\<lparr>amethod := p\<rparr>) bs v" if "bs \<in> set recs" for bs v
    using that assms(9) by (cases m) (auto simp: p_def a_def Append_def new_FileAppender_def list_all_iff)
  have "mmlog_handle a = None" by (simp add: a_def new_FileAppender_def)
  moreover have "length (concat recs) \<le> 2 ^ 32" using assms(7) by linarith
  ultimately obtain w' w'' c where "append_all (Append env lib align a) recs ?w = Some (True, w')" "Close a w' = Some (c, w'')"
      "dir w'' name = Some ?ino" "file_bytes (inodes w'' ?ino) = concat recs"
    using plain_session [OF pl _ _ assms(6) _ same, of a] by auto
  then show ?thesis using op by (simp add: appender_session_def)
qed

definition no_aio :: libaio where
  "no_aio = \<lparr>io_setup = (\<lambda>w. (False, w)), io_submit = (\<lambda>_ _ w. (-1, w)), io_getevents = (\<lambda>w. (-1, w))\<rparr>"

theorem append_methods_agree_witness:
  "\<exists>w' di. appender_session (\<lambda>w. w) no_aio 512 MMLOG_APPEND ''f'' [[1, 2], [3]] empty_world = Some (True, w') \<and>
     dir w' ''f'' = Some di \<and> file_bytes (inodes w' di) = concat [[1, 2], [3]]"
  by (rule append_methods_agree) (simp_all add: world_ok_empty, simp_all add: empty_world_def)

lemma direct_append_refused:
  assumes "amethod a = DIRECT_APPEND" "aligned_buffer a" "\<not> align dvd length bs"
  shows "append_ignoring (Append env lib align a) n bs w = Some w"
  using assms by (induction n) (simp_all add: Append_def)

lemma direct_child_idle:
  assumes "faults w = []" and "\<not> align dvd data_size"
    and "dir w (benchmark_file DIRECT_APPEND) = None \<or> (\<exists>d. dir w (benchmark_file DIRECT_APPEND) = Some d \<and> fsize (inodes w d) = 0)"
  shows "\<exists>w' d. benchmark_child env lib align DIRECT_APPEND ops data_size w = Some (0, w') \<and> faults w' = [] \<and>
     dir w' (benchmark_file DIRECT_APPEND) = Some d \<and> fsize (inodes w' d) = 0"
proof -
  let ?f = "benchmark_file DIRECT_APPEND"
  obtain w1 d where w1: "sys_open_creat ?f w = (Some (next_fd w), w1)" "faults w1 = []" "dir w1 ?f = Some d" "fsize (inodes w1 d) = 0"
    using assms(1,3) by (auto simp: sys_open_creat_def new_file_def new_fd_def empty_file_def)
  let ?a = "(new_FileAppender DIRECT_APPEND)\<lparr>afd := Some (next_fd w), aligned_buffer_size := 4096, aligned_buffer := True\<rparr>"
  have "Open env lib ?f (new_FileAppender DIRECT_APPEND) w = Some (True, ?a, w1)"
    using w1(1,2) by (simp add: Open_def new_FileAppender_def sys_alloc_fine)
  moreover have "append_ignoring (Append env lib align ?a) ops (replicate data_size 88) w1 = Some w1"
    using assms(2) by (intro direct_append_refused) (simp_all add: new_FileAppender_def)
  ultimately show ?thesis
    using w1(2-4) by (simp add: benchmark_child_def)
qed

lemma direct_children_idle:
  assumes "faults w = []" and "\<not> align dvd data_size" and "0 < n"
    and "dir w (benchmark_file DIRECT_APPEND) = None \<or> (\<exists>d. dir w (benchmark_file DIRECT_APPEND) = Some d \<and> fsize (inodes w d) = 0)"
  shows "\<exists>w' d. run_children (benchmark_child env lib align DIRECT_APPEND ops data_size) n w = Some (replicate n 0, w') \<and>
     dir w' (benchmark_file DIRECT_APPEND) = Some d \<and> fsize (inodes w' d) = 0"
  using assms(1,3,4)
proof (induction n arbitrary: w)
  case (Suc n)
  obtain w1 d where w1: "benchmark_child env lib align DIRECT_APPEND ops data_size w = Some (0, w1)" "faults w1 = []"
      "dir w1 (benchmark_file DIRECT_APPEND) = Some d" "fsize (inodes w1 d) = 0"
    using direct_child_idle [OF Suc.prems(1) assms(2) Suc.prems(3), of env lib ops] by blast
  have "n = 0 \<or> (\<exists>w' d. run_children (benchmark_child env lib align DIRECT_APPEND ops data_size) n w1 = Some (replicate n 0, w') \<and>
     dir w' (benchmark_file DIRECT_APPEND) = Some d \<and> fsize (inodes w' d) = 0)"
    using Suc.IH [OF w1(2)] w1(3,4) by blast
  with w1 show ?case by auto
qed simp

text \<open>
  The benchmark of direct writes measures nothing: its records of \<open>4095\<close> bytes are no multiple of
  the alignment, every write is refused, nobody looks at the results, all children exit
  with zero, and the file is as empty as it was created.
\<close>

theorem direct_benchmark_writes_nothing:
  assumes "faults w = []" and "\<not> align dvd data_size" and "0 < n"
  shows "\<exists>w' d. RunBenchmark env lib align DIRECT_APPEND n ops data_size w =
       Some ((''Direct I/O (O_DIRECT)'', replicate n 0), w') \<and>
     dir w' (benchmark_file DIRECT_APPEND) = Some d \<and> fsize (inodes w' d) = 0"
proof -
  let ?f = "benchmark_file DIRECT_APPEND"
  let ?w = "sys_unlink (?f @ ''.mmlog'') (sys_unlink ?f w)"
  have "faults ?w = []" "dir ?w ?f = None"
    using assms(1) by (auto simp: sys_unlink_def)
  with direct_children_idle [OF this(1) assms(2,3), of env lib ops] show ?thesis
    by (auto simp: RunBenchmark_def GetMethodName_def)
qed

theorem direct_benchmark_writes_nothing_witness:
  "\<exists>w' d. RunBenchmark (\<lambda>w. w) no_aio 512 DIRECT_APPEND 4 10000 4095 empty_world =
       Some ((''Direct I/O (O_DIRECT)'', replicate 4 0), w') \<and>
     dir w' (benchmark_file DIRECT_APPEND) = Some d \<and> fsize (inodes w' d) = 0"
  by (rule direct_benchmark_writes_nothing) (simp_all add: empty_world_def)

end
