(* ===== verification/Tcp_Connect_Rate.thy ===== *)
theory Tcp_Connect_Rate
  imports C_Stdio "HOL-Library.Signed_Division"
begin

text \<open>
  The experiment \<^verbatim>\<open>tcp_connect_rate/src/main.c\<close>: a server forks one client per processor but one, the
  clients share a number of connections between them, and the server accepts that many.

  The network is its listening port and the connections nobody has accepted yet;
  \<open>tfaults\<close> says for the next calls whether they fail. The clients run before the
  server accepts; a client that has its connections waits until the server is gone.
  A status \<^const>\<open>None\<close> of a client is undefined behaviour (it reads outside of its array, or
  stores through a null pointer). The times that are measured are left out.
\<close>

section \<open>The network\<close>

record tcp_os =
  tfaults :: "bool list"
  sock_fd :: int
  ephemeral :: "16 word"
  listening :: "16 word option"
  backlog :: nat

definition tcp_fails :: "tcp_os \<Rightarrow> bool \<times> tcp_os" where
  "tcp_fails w = (case tfaults w of [] \<Rightarrow> (False, w) | f # fs \<Rightarrow> (f, w\<lparr>tfaults := fs\<rparr>))"



section \<open>The server socket\<close>


section \<open>Clients\<close>



definition num_clients :: "int \<Rightarrow> int" where
  "num_clients nprocs = (if nprocs - 1 \<le> 0 then 1 else nprocs - 1)"

definition connections_per_client :: "int \<Rightarrow> int \<Rightarrow> int" where
  "connections_per_client nprocs total_connections =
     (total_connections + num_clients nprocs - 1) sdiv num_clients nprocs"

definition my_connections :: "int \<Rightarrow> int \<Rightarrow> int \<Rightarrow> int" where
  "my_connections nprocs total_connections i =
     (if i = num_clients nprocs - 1
      then total_connections - connections_per_client nprocs total_connections * (num_clients nprocs - 1)
      else connections_per_client nprocs total_connections)"



section \<open>Accepting\<close>





section \<open>How the connections are shared\<close>

lemma num_clients_pos: "0 < num_clients nprocs"
  by (simp add: num_clients_def)

lemma quotient_pos: "0 < (t :: int) \<Longrightarrow> 0 < n \<Longrightarrow> t mod n = 0 \<Longrightarrow> 0 < t div n"
  by (simp add: pos_imp_zdiv_pos_iff zmod_le_nonneg_dividend mod_eq_0_iff_dvd zdvd_imp_le)

lemma per_client_ceil:
  assumes "0 < tot"
  shows "connections_per_client nprocs tot =
     (let n = num_clients nprocs in tot div n + (if tot mod n = 0 then 0 else 1))"
proof -
  let ?n = "num_clients nprocs" and ?q = "tot div num_clients nprocs" and ?r = "tot mod num_clients nprocs"
  have n: "0 < ?n" by (rule num_clients_pos)
  then have r: "0 \<le> ?r" "?r < ?n" by simp_all
  have t: "tot + ?n - 1 = ?q * ?n + (?r + ?n - 1)" by simp
  have "connections_per_client nprocs tot = (tot + ?n - 1) div ?n"
    using assms n by (simp add: connections_per_client_def signed_divide_int_def)
  also have "\<dots> = (?q * ?n + (?r + ?n - 1)) div ?n" by (simp only: t)
  also have "\<dots> = ?q + (?r + ?n - 1) div ?n" using n by simp
  also have "(?r + ?n - 1) div ?n = (if ?r = 0 then 0 else 1)"
  proof (cases "?r = 0")
    case False
    then have "(?r - 1) div ?n = 0" using r by (intro div_pos_pos_trivial) linarith+
    then have "(?r - 1 + ?n) div ?n = 1" using n by (subst div_add_self2) simp_all
    moreover have "?r + ?n - 1 = ?r - 1 + ?n" by simp
    ultimately show ?thesis using False by (simp only: if_False)
  qed (use n in simp)
  finally show ?thesis by (simp add: Let_def)
qed

lemma per_client_pos: "0 < tot \<Longrightarrow> 0 < connections_per_client nprocs tot"
  using quotient_pos [of tot "num_clients nprocs"] num_clients_pos [of nprocs]
    pos_imp_zdiv_nonneg_iff [of "num_clients nprocs" tot]
  by (auto simp: per_client_ceil Let_def)

definition client_connections :: "int \<Rightarrow> int \<Rightarrow> int list" where
  "client_connections nprocs tot = map (my_connections nprocs tot) [0..num_clients nprocs - 1]"

lemma client_connections_eq:
  "client_connections nprocs tot =
     replicate (nat (num_clients nprocs) - 1) (connections_per_client nprocs tot) @
       [my_connections nprocs tot (num_clients nprocs - 1)]"
proof -
  let ?n = "num_clients nprocs"
  have "[0..?n - 1] = [0..?n - 2] @ [?n - 1]"
    using num_clients_pos [of nprocs] upto_rec2 [of 0 "?n - 1"] by simp
  moreover have "map (my_connections nprocs tot) [0..?n - 2] =
     replicate (nat ?n - 1) (connections_per_client nprocs tot)"
    by (rule nth_equalityI) (auto simp: my_connections_def)
  ultimately show ?thesis by (simp add: client_connections_def)
qed

lemma sum_client_connections: "sum_list (client_connections nprocs tot) = tot"
proof -
  have "int (nat (num_clients nprocs) - 1) = num_clients nprocs - 1"
    using num_clients_pos [of nprocs] by simp
  then show ?thesis
    by (simp add: client_connections_eq my_connections_def sum_list_replicate)
qed

lemma last_client:
  assumes "0 < tot"
  shows "my_connections nprocs tot (num_clients nprocs - 1) =
     (let n = num_clients nprocs; q = tot div n; r = tot mod n in if r = 0 then q else q + r + 1 - n)"
proof -
  let ?n = "num_clients nprocs" and ?q = "tot div num_clients nprocs" and ?r = "tot mod num_clients nprocs"
  have t: "tot = ?q * ?n + ?r" by simp
  have "?q * ?n + ?r - (?q + c) * (?n - 1) = ?q + ?r - c * (?n - 1)" for c
    by (simp add: algebra_simps)
  from this [of 0] this [of 1] show ?thesis
    using per_client_ceil [OF assms, of nprocs] by (simp add: my_connections_def Let_def)
qed

lemma last_client_pos:
  assumes "0 < tot"
  shows "0 < my_connections nprocs tot (num_clients nprocs - 1) \<longleftrightarrow>
     num_clients nprocs dvd tot \<or> num_clients nprocs \<le> tot div num_clients nprocs + tot mod num_clients nprocs"
proof -
  let ?n = "num_clients nprocs"
  have "0 < tot div ?n" if "tot mod ?n = 0"
    using quotient_pos [OF assms num_clients_pos that] .
  then show ?thesis
    by (auto simp: last_client [OF assms] Let_def dvd_eq_mod_eq_0)
qed

section \<open>A run without failing calls\<close>

lemma tcp_fails_none [simp]: "tfaults w = [] \<Longrightarrow> tcp_fails w = (False, w)"
  by (simp add: tcp_fails_def)






section \<open>Properties\<close>

text \<open>
  The clients share the connections: what they are asked for adds up to the requested number,
  and every client has something to do exactly when the number of clients divides it, or
  quotient and remainder together reach the number of clients. Otherwise the last
  client is asked for none or for a negative number of connections.
\<close>

theorem clients_share_connections:
  assumes "0 < tot"
  shows "sum_list (client_connections nprocs tot) = tot \<and>
     (list_all (\<lambda>k. 0 < k) (client_connections nprocs tot) \<longleftrightarrow>
        num_clients nprocs dvd tot \<or>
        num_clients nprocs \<le> tot div num_clients nprocs + tot mod num_clients nprocs)"
proof -
  have "0 < connections_per_client nprocs tot" using assms by (rule per_client_pos)
  then have "list_all (\<lambda>k. 0 < k) (client_connections nprocs tot) \<longleftrightarrow> 0 < my_connections nprocs tot (num_clients nprocs - 1)"
    by (auto simp: client_connections_eq list_all_iff)
  then show ?thesis
    using last_client_pos [OF assms, of nprocs] by (simp add: sum_client_connections)
qed

theorem clients_share_connections_witness:
  "sum_list (client_connections 9 10000) = 10000 \<and> list_all (\<lambda>k. 0 < k) (client_connections 9 10000)"
  using clients_share_connections [of 10000 9] by (simp add: num_clients_def)



end
