(* ===== verification/Memcpy_Safe.thy ===== *)
theory Memcpy_Safe
  imports Posix
begin

text \<open>
  \<^verbatim>\<open>not_my_segfault/memcpy_safe.h\<close>: copying from memory that may not be there. The kernel is
  asked to write the source to a file, which fails instead of raising a signal, and
  the copy is taken from a mapping of that file.

  \<open>mem\<close> is the memory of the process, \<^const>\<open>None\<close> where nothing is mapped. A copy that
  returns \<^const>\<open>None\<close> died of a signal. \<open>sfaults\<close> says for the next system calls whether they fail
  for reasons of their own.
\<close>

section \<open>The buffer and the calls\<close>

record safe_copy =
  sfaults :: "bool list"
  g_fd :: bool
  g_file :: "file"
  g_pos :: nat
  g_buffer :: bool
  mem :: "nat \<rightharpoonup> byte"

definition safe_fails :: "safe_copy \<Rightarrow> bool \<times> safe_copy" where
  "safe_fails w = (case sfaults w of [] \<Rightarrow> (False, w) | f # fs \<Rightarrow> (f, w\<lparr>sfaults := fs\<rparr>))"

definition g_buffer_size :: nat where
  "g_buffer_size = 100 * 4096 * 1024"

text \<open>\<open>mkstemp\<close>, \<open>ftruncate\<close> and \<open>mmap\<close>; \<open>g_fd\<close> and \<open>g_buffer\<close> are \<open>-1\<close> and \<open>NULL\<close> at first.\<close>

definition init_memcpy_safe :: "safe_copy \<Rightarrow> safe_copy" where
  "init_memcpy_safe w =
     (let w = w\<lparr>g_fd := False, g_buffer := False\<rparr>
      in case safe_fails w of
           (True, w) \<Rightarrow> w
         | (False, w) \<Rightarrow>
             (let w = w\<lparr>g_fd := True, g_pos := 0, g_file := empty_file\<rparr>
              in case safe_fails w of
                   (True, w) \<Rightarrow> w
                 | (False, w) \<Rightarrow>
                     (let w = w\<lparr>g_file := resize g_buffer_size (g_file w)\<rparr>
                      in case safe_fails w of (True, w) \<Rightarrow> w | (False, w) \<Rightarrow> w\<lparr>g_buffer := True\<rparr>)))"

text \<open>The bytes from an address on, up to the first one that cannot be read.\<close>

fun readable :: "(nat \<rightharpoonup> byte) \<Rightarrow> nat \<Rightarrow> nat \<Rightarrow> byte list" where
  "readable m a 0 = []"
| "readable m a (Suc n) = (case m a of None \<Rightarrow> [] | Some b \<Rightarrow> b # readable m (Suc a) n)"

text \<open>
  \<open>writev\<close> of one vector at the position of the file, which moves on: the number of bytes
  written, less than asked for when the source ends early, or a failure.
\<close>

definition sys_writev :: "nat \<Rightarrow> nat \<Rightarrow> safe_copy \<Rightarrow> nat option \<times> safe_copy" where
  "sys_writev src n w =
     (if \<not> g_fd w then (None, w)
      else (case safe_fails w of
              (True, w) \<Rightarrow> (None, w)
            | (False, w) \<Rightarrow>
                (let bs = readable (mem w) src n
                 in if bs = [] \<and> 0 < n then (None, w)
                    else (Some (length bs), w\<lparr>g_file := write_at (g_pos w) bs (g_file w), g_pos := g_pos w + length bs\<rparr>))))"

definition memget_safe :: "nat \<Rightarrow> nat \<Rightarrow> safe_copy \<Rightarrow> bool \<times> safe_copy" where
  "memget_safe src n w =
     (case sys_writev src n w of
        (None, w) \<Rightarrow> (False, w)
      | (Some _, w) \<Rightarrow> (g_buffer w, w))"

definition writable :: "(nat \<rightharpoonup> byte) \<Rightarrow> nat \<Rightarrow> nat \<Rightarrow> bool" where
  "writable m a n \<longleftrightarrow> list_all (\<lambda>k. m (a + k) \<noteq> None) [0..<n]"

definition mem_store :: "nat \<Rightarrow> byte list \<Rightarrow> (nat \<rightharpoonup> byte) \<Rightarrow> nat \<rightharpoonup> byte" where
  "mem_store a bs m = (\<lambda>x. if a \<le> x \<and> x < a + length bs then Some (bs ! (x - a)) else m x)"

definition memcpy_safe :: "nat \<Rightarrow> nat \<Rightarrow> nat \<Rightarrow> safe_copy \<Rightarrow> (bool \<times> safe_copy) option" where
  "memcpy_safe dst src n w =
     (if \<not> g_buffer w \<or> g_buffer_size < n then Some (False, w)
      else if n = 0 then Some (True, w)
      else (case memget_safe src n w of
              (False, w) \<Rightarrow> Some (False, w)
            | (True, w) \<Rightarrow>
                if writable (mem w) dst n
                then Some (True, w\<lparr>mem := mem_store dst (map (fdata (g_file w)) [0..<n]) (mem w)\<rparr>)
                else None))"

section \<open>What the file holds\<close>

lemma safe_fails_frame:
  "safe_fails w = (f, w') \<Longrightarrow> mem w' = mem w \<and> g_buffer w' = g_buffer w \<and> g_fd w' = g_fd w"
  by (auto simp: safe_fails_def split: list.splits)

lemma safe_fails_none [simp]: "sfaults w = [] \<Longrightarrow> safe_fails w = (False, w)"
  by (simp add: safe_fails_def)

lemma memget_safe_frame:
  assumes "memget_safe src n w = (ok, w')"
  shows "mem w' = mem w \<and> g_buffer w' = g_buffer w"
proof -
  obtain f w1 where "safe_fails w = (f, w1)" by (cases "safe_fails w")
  then show ?thesis
    using assms safe_fails_frame [of w f w1]
    by (auto simp: memget_safe_def sys_writev_def Let_def split: bool.splits if_splits)
qed

lemma length_readable: "length (readable m a n) \<le> n"
  by (induction n arbitrary: a) (auto split: option.splits)

text \<open>The file behind the mapping: all sources so far, one after the other, then zeros.\<close>

definition streamed :: "byte list \<Rightarrow> safe_copy \<Rightarrow> bool" where
  "streamed log w \<longleftrightarrow> sfaults w = [] \<and> g_fd w \<and> g_buffer w \<and> g_pos w = length log \<and>
     fdata (g_file w) = (\<lambda>i. if i < length log then log ! i else 0)"

lemma streamed_init: "sfaults w = [] \<Longrightarrow> streamed [] (init_memcpy_safe w)"
  by (simp add: streamed_def init_memcpy_safe_def Let_def resize_def empty_file_def)

lemma streamed_copy:
  assumes "streamed log w" "0 < n" "n \<le> g_buffer_size" "length (readable (mem w) src n) = n" "writable (mem w) dst n"
  shows "\<exists>w'. memcpy_safe dst src n w = Some (True, w') \<and> streamed (log @ readable (mem w) src n) w' \<and>
     mem w' = mem_store dst (take n (log @ readable (mem w) src n)) (mem w)"
proof -
  let ?bs = "readable (mem w) src n"
  let ?w = "w\<lparr>g_file := write_at (g_pos w) ?bs (g_file w), g_pos := g_pos w + n\<rparr>"
  have "?bs \<noteq> []" using assms(2,4) by auto
  then have get: "memget_safe src n w = (True, ?w)"
    using assms(1,4) by (simp add: memget_safe_def sys_writev_def streamed_def Let_def)
  have f: "fdata (g_file ?w) i = (if i < length (log @ ?bs) then (log @ ?bs) ! i else 0)" for i
    using assms(1) by (auto simp: streamed_def fdata_write_at nth_append)
  then have "map (fdata (g_file ?w)) [0..<n] = take n (log @ ?bs)"
    using assms(4) by (intro nth_equalityI) (auto simp: nth_append)
  then show ?thesis
    using get assms f by (auto simp: memcpy_safe_def streamed_def fun_eq_iff)
qed

lemma mem_store_other: "x < a \<or> a + length bs \<le> x \<Longrightarrow> mem_store a bs m x = m x"
  by (auto simp: mem_store_def)

lemma readable_mem_store: "readable (mem_store a bs m) a (length bs) = bs"
proof -
  have "readable (mem_store a (xs @ ys) m) (a + length xs) (length ys) = ys" for xs ys
  proof (induction ys arbitrary: xs)
    case (Cons y ys)
    from Cons.IH [of "xs @ [y]"] show ?case by (simp add: mem_store_def nth_append)
  qed simp
  from this [of "[]" bs] show ?thesis by simp
qed

text \<open>A process with memory from \<open>10\<close> up to \<open>15\<close>.\<close>

definition demo_copy :: "bool list \<Rightarrow> safe_copy" where
  "demo_copy fs = \<lparr>sfaults = fs, g_fd = False, g_file = empty_file, g_pos = 0, g_buffer = False,
     mem = (\<lambda>a. if 10 \<le> a \<and> a < 16 then Some 1 else None)\<rparr>"

definition after_copy :: safe_copy where
  "after_copy = (demo_copy [])\<lparr>g_fd := True, g_buffer := True, g_pos := 3, g_file := write_at 0 [7, 8, 9] empty_file\<rparr>"

section \<open>Properties\<close>

text \<open>
  The source of a copy never hurts: whatever is or is not mapped there and whichever
  system calls fail, a copy to mapped memory returns; when it reports failure no byte of
  memory has changed, and it never changes memory outside of its destination.
\<close>

theorem memcpy_safe_survives:
  assumes "writable (mem w) dst n"
  shows "\<exists>ok w'. memcpy_safe dst src n w = Some (ok, w') \<and> (\<not> ok \<longrightarrow> mem w' = mem w) \<and>
     (\<forall>a. a < dst \<or> dst + n \<le> a \<longrightarrow> mem w' a = mem w a)"
proof -
  obtain ok w1 where g: "memget_safe src n w = (ok, w1)" by (cases "memget_safe src n w")
  then have "mem w1 = mem w" using memget_safe_frame by blast
  then show ?thesis
    using assms g by (cases ok) (auto simp: memcpy_safe_def mem_store_other)
qed

text \<open>
  C9. Only the first copy is right. The file position moves with every copy while the mapping
  is always read from its start: after any copies of the sources \<open>log\<close>, a further copy of \<open>n\<close>
  readable bytes reports success and delivers the first \<open>n\<close> bytes of \<open>log\<close> followed by the
  new ones, which is the new source when \<open>log\<close> is empty, and nothing of it when \<open>log\<close> has
  \<open>n\<close> bytes or more.
\<close>

theorem memcpy_safe_delivers_stream:
  assumes "streamed log w" and "0 < n" and "n \<le> g_buffer_size"
    and "length (readable (mem w) src n) = n" and "writable (mem w) dst n"
  shows "\<exists>w'. memcpy_safe dst src n w = Some (True, w') \<and> streamed (log @ readable (mem w) src n) w' \<and>
     readable (mem w') dst n =
       (if n \<le> length log then take n log else log @ take (n - length log) (readable (mem w) src n))"
proof -
  let ?bs = "readable (mem w) src n"
  obtain w' where w': "memcpy_safe dst src n w = Some (True, w')" "streamed (log @ ?bs) w'"
      "mem w' = mem_store dst (take n (log @ ?bs)) (mem w)"
    using streamed_copy [OF assms] by blast
  moreover have "length (take n (log @ ?bs)) = n" using assms(4) by simp
  ultimately show ?thesis
    using readable_mem_store [of dst "take n (log @ ?bs)" "mem w"] by auto
qed

theorem memcpy_safe_survives_witness:
  "\<exists>ok w'. memcpy_safe 10 20 2 (init_memcpy_safe (demo_copy [False, False, False, True])) = Some (ok, w') \<and>
     (\<not> ok \<longrightarrow> mem w' = mem (init_memcpy_safe (demo_copy [False, False, False, True]))) \<and>
     (\<forall>a. a < 10 \<or> 10 + 2 \<le> a \<longrightarrow> mem w' a = mem (init_memcpy_safe (demo_copy [False, False, False, True])) a)"
  by (rule memcpy_safe_survives)
    (simp add: demo_copy_def init_memcpy_safe_def safe_fails_def Let_def writable_def numeral_2_eq_2)

theorem memcpy_safe_delivers_stream_witness:
  "\<exists>w'. memcpy_safe 10 14 2 after_copy = Some (True, w') \<and> streamed [7, 8, 9, 1, 1] w' \<and> readable (mem w') 10 2 = [7, 8]"
proof -
  have "streamed [7, 8, 9] after_copy"
    by (simp add: streamed_def after_copy_def demo_copy_def write_at_def empty_file_def fun_eq_iff)
  moreover have "readable (mem after_copy) 14 2 = [1, 1]" "writable (mem after_copy) 10 2"
    by (simp_all add: after_copy_def demo_copy_def writable_def numeral_2_eq_2)
  ultimately show ?thesis
    using memcpy_safe_delivers_stream [of "[7, 8, 9]" after_copy 2 14 10] by (simp add: g_buffer_size_def)
qed

end
