(* ===== verification/Watchseg.thy ===== *)
theory Watchseg
  imports Prelude
begin

text \<open>
  The experiment \<^verbatim>\<open>sigsegv_return_from_kill/watchseg.c\<close>: a handler for \<open>SIGSEGV\<close> that restores the default
  action and raises the signal again, in many variants chosen on the command line.

  The kernel is modelled as the signal manual pages and the experiment's notes describe it. A signal sent
  with \<open>kill\<close> or \<open>tgkill\<close> runs the handler, or takes the default action and ends
  the process, except that the first process of a PID namespace ignores it. A store to
  address zero repeats until it succeeds, which it never does, and the default action
  for it ends every process. The lines the program prints are collected without
  their process numbers.
\<close>

section \<open>State\<close>

datatype disposition = Default | Handler

datatype line =
  Reply string | Unknown_argument string | Help string string
  | Kill | Tgkill | Segfault | Unknown_type char
  | Wrong_signal int | Pausing | Completing | Alive | Hello string | Goodbye string

record watch =
  onstack :: bool
  crash_type :: char
  fastexit :: bool
  signal_crash_type :: char
  pause_in_handler :: bool
  skip_reraise :: bool
  disposition :: disposition
  pid1 :: bool
  bg_threads :: nat
  wfaults :: "bool list"
  printed :: "line list"


definition say :: "line \<Rightarrow> watch \<Rightarrow> watch" where
  "say l w = w\<lparr>printed := printed w @ [l]\<rparr>"


section \<open>Raising the signal and handling it\<close>





section \<open>Commands\<close>










section \<open>The program\<close>



section \<open>What the commands choose\<close>

text \<open>The last of several commands for the same setting counts.\<close>

definition chosen :: "(string \<rightharpoonup> char) \<Rightarrow> char \<Rightarrow> string list \<Rightarrow> char" where
  "chosen t c args = fold (\<lambda>a c. case t a of None \<Rightarrow> c | Some x \<Rightarrow> x) args c"



lemma chosen_simps [simp]:
  "chosen t c [] = c" "chosen t c (a # as) = chosen t (case t a of None \<Rightarrow> c | Some x \<Rightarrow> x) as"
  by (simp_all add: chosen_def)

text \<open>The settings that decide what happens.\<close>

definition settings :: "watch \<Rightarrow> bool \<times> bool \<times> char \<times> char \<times> bool \<times> disposition" where
  "settings w = (skip_reraise w, pid1 w, crash_type w, signal_crash_type w, fastexit w, disposition w)"

lemma settings_say [simp]: "settings (say l w) = settings w"
  by (simp add: settings_def say_def)











section \<open>What the signal does\<close>







section \<open>Properties\<close>



end
