(* ===== verification/Ld_Preload.thy ===== *)
theory Ld_Preload
  imports C_Stdio
begin

text \<open>
  \<^verbatim>\<open>ld_preload_wrapper\<close>: a library that prints every access to the environment (\<open>env.c\<close>), and a
  program that puts it into the environment of another one (\<open>inject_library.h\<close>,
  \<open>peekenv.c\<close>).

  What both rely on is the interface \<open>environment\<close> below: the functions of the
  C library on a state of any type, the variables that state holds, and when it has
  memory enough. The wrapper
  satisfies it whenever the functions it wraps do; the injection is proved for any
  implementation of it. A null pointer is \<^const>\<open>None\<close>; a call that does not
  return (a call through a null pointer, an unmapping of an arbitrary address) is \<^const>\<open>None\<close> too.
\<close>

section \<open>The interface\<close>

definition valid_name :: "string \<Rightarrow> bool" where
  "valid_name n \<longleftrightarrow> n \<noteq> [] \<and> CHR ''='' \<notin> set n"

locale environment =
  fixes setenv :: "string option \<Rightarrow> string option \<Rightarrow> int \<Rightarrow> 's \<Rightarrow> (int \<times> 's) option"
    and getenv :: "string option \<Rightarrow> 's \<Rightarrow> (string option \<times> 's) option"
    and vars :: "'s \<Rightarrow> string \<rightharpoonup> string"
    and ready :: "'s \<Rightarrow> bool"
  assumes setenv_law:
    "valid_name n \<Longrightarrow> \<exists>r s'. setenv (Some n) (Some v) ow s = Some (r, s') \<and>
       vars s' = (if r = 0 \<and> (ow \<noteq> 0 \<or> vars s n = None) then (vars s)(n \<mapsto> v) else vars s) \<and>
       (ready s \<longrightarrow> r = 0 \<and> ready s')"
    and getenv_law:
    "valid_name n \<Longrightarrow> \<exists>s'. getenv (Some n) s = Some (vars s n, s') \<and> vars s' = vars s \<and> (ready s \<longrightarrow> ready s')"

section \<open>The functions of the C library\<close>

text \<open>The environment, and which of the next calls run out of memory.\<close>

record libc =
  lvars :: "string \<rightharpoonup> string"
  no_memory :: "bool list"

definition libc_setenv :: "string option \<Rightarrow> string option \<Rightarrow> int \<Rightarrow> libc \<Rightarrow> (int \<times> libc) option" where
  "libc_setenv name value overwrite s =
     (case name of
        None \<Rightarrow> Some (-1, s)
      | Some n \<Rightarrow>
          if \<not> valid_name n then Some (-1, s)
          else if overwrite = 0 \<and> lvars s n \<noteq> None then Some (0, s)
          else if no_memory s \<noteq> [] \<and> hd (no_memory s) then Some (-1, s\<lparr>no_memory := tl (no_memory s)\<rparr>)
          else
            (case value of
               None \<Rightarrow> None
             | Some v \<Rightarrow> Some (0, s\<lparr>no_memory := tl (no_memory s), lvars := (lvars s)(n \<mapsto> v)\<rparr>)))"

definition libc_getenv :: "string option \<Rightarrow> libc \<Rightarrow> (string option \<times> libc) option" where
  "libc_getenv name s = (case name of None \<Rightarrow> None | Some n \<Rightarrow> Some (if n = [] then None else lvars s n, s))"

interpretation libc: environment libc_setenv libc_getenv lvars "\<lambda>s. no_memory s = []"
proof unfold_locales
  fix n v ow and s :: libc
  assume "valid_name n"
  then show "\<exists>r s'. libc_setenv (Some n) (Some v) ow s = Some (r, s') \<and>
     lvars s' = (if r = 0 \<and> (ow \<noteq> 0 \<or> lvars s n = None) then (lvars s)(n \<mapsto> v) else lvars s) \<and>
     (no_memory s = [] \<longrightarrow> r = 0 \<and> no_memory s' = [])"
    by (simp add: libc_setenv_def)
qed (auto simp: libc_getenv_def valid_name_def)

section \<open>The wrapper\<close>

text \<open>
  Standard output, and how many bytes the next calls of \<open>writev\<close> take; the wrapper does
  not look at their results.
\<close>

record console =
  shown :: string
  limits :: "nat list"

definition writev :: "string list \<Rightarrow> console \<Rightarrow> console" where
  "writev iov c =
     (case limits c of
        [] \<Rightarrow> c\<lparr>shown := shown c @ concat iov\<rparr>
      | n # ns \<Rightarrow> c\<lparr>shown := shown c @ take n (concat iov), limits := ns\<rparr>)"

text \<open>A null pointer and an empty string are treated alike.\<close>

definition text_of :: "string option \<Rightarrow> string" where
  "text_of s = (case s of None \<Rightarrow> [] | Some t \<Rightarrow> t)"

definition print_env_kv :: "string \<Rightarrow> string option \<Rightarrow> string option \<Rightarrow> console \<Rightarrow> console" where
  "print_env_kv msg name value c =
     (if text_of name = [] \<or> text_of value = [] then c
      else writev [if msg = [] then ''[]'' else msg, '' '', text_of name, ''='', text_of value, [newline]] c)"

definition print_val :: "string \<Rightarrow> string option \<Rightarrow> console \<Rightarrow> console" where
  "print_val msg value c =
     (if text_of value = [] then c else writev [if msg = [] then ''[]'' else msg, '' '', text_of value, [newline]] c)"

text \<open>The functions found behind the wrapper; \<^const>\<open>None\<close> where \<open>dlsym\<close> found nothing.\<close>

record 's real_env =
  real_setenv :: "(string option \<Rightarrow> string option \<Rightarrow> int \<Rightarrow> 's \<Rightarrow> (int \<times> 's) option) option"
  real_getenv :: "(string option \<Rightarrow> 's \<Rightarrow> (string option \<times> 's) option) option"
  real_unsetenv :: "(string option \<Rightarrow> 's \<Rightarrow> (int \<times> 's) option) option"
  real_putenv :: "(string option \<Rightarrow> 's \<Rightarrow> (int \<times> 's) option) option"
  real_clearenv :: "('s \<Rightarrow> 's option) option"

definition peek_setenv ::
  "'s real_env \<Rightarrow> string option \<Rightarrow> string option \<Rightarrow> int \<Rightarrow> 's \<times> console \<Rightarrow> (int \<times> 's \<times> console) option" where
  "peek_setenv real name value overwrite = (\<lambda>(s, c). do {
     let c = print_env_kv (if overwrite \<noteq> 0 then ''[O]'' else ''[N]'') name value c;
     f \<leftarrow> real_setenv real;
     (r, s) \<leftarrow> f name value overwrite s;
     Some (r, s, c)
   })"

definition peek_getenv :: "'s real_env \<Rightarrow> string option \<Rightarrow> 's \<times> console \<Rightarrow> (string option \<times> 's \<times> console) option" where
  "peek_getenv real name = (\<lambda>(s, c). do {
     f \<leftarrow> real_getenv real;
     (value, s) \<leftarrow> f name s;
     Some (value, s, print_env_kv ''[G]'' name value c)
   })"

definition peek_unsetenv :: "'s real_env \<Rightarrow> string option \<Rightarrow> 's \<times> console \<Rightarrow> (int \<times> 's \<times> console) option" where
  "peek_unsetenv real name = (\<lambda>(s, c). do {
     let c = print_val ''[U]'' name c;
     f \<leftarrow> real_unsetenv real;
     (r, s) \<leftarrow> f name s;
     Some (r, s, c)
   })"

definition peek_putenv :: "'s real_env \<Rightarrow> string option \<Rightarrow> 's \<times> console \<Rightarrow> (int \<times> 's \<times> console) option" where
  "peek_putenv real str = (\<lambda>(s, c). do {
     let c = print_val ''[P]'' str c;
     f \<leftarrow> real_putenv real;
     (r, s) \<leftarrow> f str s;
     Some (r, s, c)
   })"

definition peek_clearenv :: "'s real_env \<Rightarrow> 's \<times> console \<Rightarrow> ('s \<times> console) option" where
  "peek_clearenv real = (\<lambda>(s, c). do {
     let c = print_val ''[C]'' (Some ''---'') c;
     f \<leftarrow> real_clearenv real;
     s \<leftarrow> f s;
     Some (s, c)
   })"

text \<open>The wrapper around an environment is an environment.\<close>

context environment
begin

lemma wrapped:
  assumes "real_setenv real = Some setenv" "real_getenv real = Some getenv"
  shows "environment (peek_setenv real) (peek_getenv real) (vars \<circ> fst) (ready \<circ> fst)"
proof unfold_locales
  fix n v ow and s :: "'s \<times> console"
  assume "valid_name n"
  from setenv_law [OF this, of v ow "fst s"] obtain r s1 where s1: "setenv (Some n) (Some v) ow (fst s) = Some (r, s1)"
      "vars s1 = (if r = 0 \<and> (ow \<noteq> 0 \<or> vars (fst s) n = None) then (vars (fst s))(n \<mapsto> v) else vars (fst s))"
      "ready (fst s) \<longrightarrow> r = 0 \<and> ready s1" by blast
  then have "\<exists>c. peek_setenv real (Some n) (Some v) ow s = Some (r, s1, c)"
    using assms by (simp add: peek_setenv_def split_beta)
  with s1 show "\<exists>r s'. peek_setenv real (Some n) (Some v) ow s = Some (r, s') \<and>
     (vars \<circ> fst) s' = (if r = 0 \<and> (ow \<noteq> 0 \<or> (vars \<circ> fst) s n = None) then ((vars \<circ> fst) s)(n \<mapsto> v) else (vars \<circ> fst) s) \<and>
     ((ready \<circ> fst) s \<longrightarrow> r = 0 \<and> (ready \<circ> fst) s')"
    by fastforce
next
  fix n and s :: "'s \<times> console"
  assume "valid_name n"
  from getenv_law [OF this, of "fst s"] obtain s1 where "getenv (Some n) (fst s) = Some (vars (fst s) n, s1)"
      "vars s1 = vars (fst s)" "ready (fst s) \<longrightarrow> ready s1" by blast
  then show "\<exists>s'. peek_getenv real (Some n) s = Some ((vars \<circ> fst) s n, s') \<and> (vars \<circ> fst) s' = (vars \<circ> fst) s \<and>
     ((ready \<circ> fst) s \<longrightarrow> (ready \<circ> fst) s')"
    using assms by (simp add: peek_getenv_def split_beta)
qed

end

text \<open>The C library behind the wrapper; the other functions play no role here.\<close>

definition libc_real :: "libc real_env" where
  "libc_real = \<lparr>real_setenv = Some libc_setenv, real_getenv = Some libc_getenv, real_unsetenv = None,
     real_putenv = None, real_clearenv = None\<rparr>"

interpretation peek: environment "peek_setenv libc_real" "peek_getenv libc_real" "lvars \<circ> fst"
  "(\<lambda>s. no_memory s = []) \<circ> fst"
  by (rule libc.wrapped) (simp_all add: libc_real_def)

section \<open>Calls of a program\<close>

datatype env_call = Setenv "string option" "string option" int | Getenv "string option" | Unsetenv "string option"
  | Putenv "string option" | Clearenv

datatype reply = Code int | Text "string option" | Nothing

definition direct_call :: "'s real_env \<Rightarrow> env_call \<Rightarrow> 's \<Rightarrow> (reply \<times> 's) option" where
  "direct_call real k s =
     (case k of
        Setenv n v ow \<Rightarrow> do { f \<leftarrow> real_setenv real; (r, s) \<leftarrow> f n v ow s; Some (Code r, s) }
      | Getenv n \<Rightarrow> do { f \<leftarrow> real_getenv real; (v, s) \<leftarrow> f n s; Some (Text v, s) }
      | Unsetenv n \<Rightarrow> do { f \<leftarrow> real_unsetenv real; (r, s) \<leftarrow> f n s; Some (Code r, s) }
      | Putenv t \<Rightarrow> do { f \<leftarrow> real_putenv real; (r, s) \<leftarrow> f t s; Some (Code r, s) }
      | Clearenv \<Rightarrow> do { f \<leftarrow> real_clearenv real; s \<leftarrow> f s; Some (Nothing, s) })"

definition peek_call :: "'s real_env \<Rightarrow> env_call \<Rightarrow> 's \<times> console \<Rightarrow> (reply \<times> 's \<times> console) option" where
  "peek_call real k s =
     (case k of
        Setenv n v ow \<Rightarrow> do { (r, s) \<leftarrow> peek_setenv real n v ow s; Some (Code r, s) }
      | Getenv n \<Rightarrow> do { (v, s) \<leftarrow> peek_getenv real n s; Some (Text v, s) }
      | Unsetenv n \<Rightarrow> do { (r, s) \<leftarrow> peek_unsetenv real n s; Some (Code r, s) }
      | Putenv t \<Rightarrow> do { (r, s) \<leftarrow> peek_putenv real t s; Some (Code r, s) }
      | Clearenv \<Rightarrow> do { s \<leftarrow> peek_clearenv real s; Some (Nothing, s) })"

fun run_calls :: "(env_call \<Rightarrow> 's \<Rightarrow> (reply \<times> 's) option) \<Rightarrow> env_call list \<Rightarrow> 's \<Rightarrow> (reply list \<times> 's) option" where
  "run_calls f [] s = Some ([], s)"
| "run_calls f (k # ks) s = do { (r, s) \<leftarrow> f k s; (rs, s) \<leftarrow> run_calls f ks s; Some (r # rs, s) }"

text \<open>The line for a call and its reply.\<close>

definition kv_line :: "string \<Rightarrow> string option \<Rightarrow> string option \<Rightarrow> string" where
  "kv_line msg n v = (if text_of n = [] \<or> text_of v = [] then [] else msg @ '' '' @ text_of n @ ''='' @ text_of v @ [newline])"

fun call_line :: "env_call \<Rightarrow> reply \<Rightarrow> string" where
  "call_line (Setenv n v ow) r = kv_line (if ow \<noteq> 0 then ''[O]'' else ''[N]'') n v"
| "call_line (Getenv n) (Text v) = kv_line ''[G]'' n v"
| "call_line (Getenv n) r = []"
| "call_line (Unsetenv n) r = (if text_of n = [] then [] else ''[U] '' @ text_of n @ [newline])"
| "call_line (Putenv t) r = (if text_of t = [] then [] else ''[P] '' @ text_of t @ [newline])"
| "call_line Clearenv r = ''[C] ---'' @ [newline]"

lemma peek_call_line:
  assumes "limits c = []"
  shows "peek_call real k (s, c) =
     map_option (\<lambda>(r, s). (r, s, c\<lparr>shown := shown c @ call_line k r\<rparr>)) (direct_call real k s)"
  using assms
  by (cases k)
     (auto simp: peek_call_def direct_call_def peek_setenv_def peek_getenv_def peek_unsetenv_def peek_putenv_def
        peek_clearenv_def print_env_kv_def print_val_def writev_def kv_line_def text_of_def Let_def
        split: bind_splits option.splits)

lemma peek_calls_lines:
  assumes "limits c = []"
  shows "run_calls (peek_call real) ks (s, c) =
     map_option (\<lambda>(rs, s). (rs, s, c\<lparr>shown := shown c @ concat (map2 call_line ks rs)\<rparr>)) (run_calls (direct_call real) ks s)"
  using assms
proof (induction ks arbitrary: s c)
  case (Cons k ks)
  show ?case
  proof (cases "direct_call real k s")
    case (Some y)
    obtain r s1 where y: "y = (r, s1)" by (cases y)
    let ?c = "c\<lparr>shown := shown c @ call_line k r\<rparr>"
    have "limits ?c = []" using Cons.prems by simp
    from Cons.IH [OF this, of s1] show ?thesis
      using Some y peek_call_line [OF Cons.prems, of real k s]
      by (cases "run_calls (direct_call real) ks s1") auto
  qed (simp add: peek_call_line [OF Cons.prems])
qed simp

section \<open>Injecting the library\<close>

record 'e ld_world =
  lfaults :: "bool list"
  lfd :: int
  memfds :: "int \<rightharpoonup> byte list"
  lmaps :: nat
  lenv :: 'e

definition ld_fails :: "'e ld_world \<Rightarrow> bool \<times> 'e ld_world" where
  "ld_fails w = (case lfaults w of [] \<Rightarrow> (False, w) | f # fs \<Rightarrow> (f, w\<lparr>lfaults := fs\<rparr>))"

datatype maddr = Uninitialised | Map_failed | Mapped

record LdPreloadCtx =
  ctx_fd :: int
  addr :: maddr
  sz :: nat

text \<open>\<open>munmap\<close> of an address nobody has set may unmap anything; of \<open>MAP_FAILED\<close> it fails.\<close>

definition destroy_ctx :: "LdPreloadCtx \<Rightarrow> 'e ld_world \<Rightarrow> 'e ld_world option" where
  "destroy_ctx ctx w =
     (let close = (\<lambda>w. w\<lparr>memfds := (memfds w)(ctx_fd ctx := None)\<rparr>)
      in case addr ctx of
           Uninitialised \<Rightarrow> None
         | Map_failed \<Rightarrow> Some (close w)
         | Mapped \<Rightarrow> Some (close (w\<lparr>lmaps := lmaps w - 1\<rparr>)))"

definition map_ctx :: "byte list \<Rightarrow> 'e ld_world \<Rightarrow> ((bool \<times> LdPreloadCtx) \<times> 'e ld_world) option" where
  "map_ctx lib w =
     (let ctx = \<lparr>ctx_fd = -1, addr = Uninitialised, sz = length lib\<rparr>
      in case ld_fails w of
           (True, w) \<Rightarrow> Some ((False, ctx), w)
         | (False, w) \<Rightarrow>
             (let ctx = ctx\<lparr>ctx_fd := lfd w\<rparr>;
                  w = w\<lparr>lfd := lfd w + 1, memfds := (memfds w)(lfd w \<mapsto> [])\<rparr>
              in case ld_fails w of
                   (True, w) \<Rightarrow> do { w \<leftarrow> destroy_ctx ctx w; Some ((False, ctx), w) }
                 | (False, w) \<Rightarrow>
                     (let w = w\<lparr>memfds := (memfds w)(ctx_fd ctx \<mapsto> replicate (sz ctx) 0)\<rparr>
                      in case ld_fails w of
                           (True, w) \<Rightarrow>
                             (let ctx = ctx\<lparr>addr := Map_failed\<rparr>
                              in do { w \<leftarrow> destroy_ctx ctx w; Some ((False, ctx), w) })
                         | (False, w) \<Rightarrow>
                             Some ((True, ctx\<lparr>addr := Mapped\<rparr>),
                               w\<lparr>lmaps := Suc (lmaps w), memfds := (memfds w)(ctx_fd ctx \<mapsto> lib)\<rparr>))))"

text \<open>\<open>sizeof(fmt)\<close> is the size of a pointer.\<close>

definition fd_path :: "int \<Rightarrow> int \<Rightarrow> nat \<times> string" where
  "fd_path pid fd = snprintf (8 + 10 + 10) (''/proc/'' @ show_int pid @ ''/fd/'' @ show_int fd)"

text \<open>The part that changes the environment, and the whole.\<close>

definition put_preload ::
  "(string option \<Rightarrow> string option \<Rightarrow> int \<Rightarrow> 'e \<Rightarrow> (int \<times> 'e) option) \<Rightarrow>
     (string option \<Rightarrow> 'e \<Rightarrow> (string option \<times> 'e) option) \<Rightarrow> LdPreloadCtx \<Rightarrow> string \<Rightarrow> 'e ld_world \<Rightarrow> (bool \<times> 'e ld_world) option" where
  "put_preload setenv getenv ctx path w = do {
     (ld_preload, e) \<leftarrow> getenv (Some ''LD_PRELOAD'') (lenv w);
     let w = w\<lparr>lenv := e\<rparr>;
     (case ld_preload of
        Some old \<Rightarrow>
          (case snprintf 4096 (old @ '':'' @ path) of
             (n, new) \<Rightarrow>
               if 4096 \<le> n then do { w \<leftarrow> destroy_ctx ctx w; Some (False, w) }
               else do { (_, e) \<leftarrow> setenv (Some ''LD_PRELOAD'') (Some new) 1 e; Some (True, w\<lparr>lenv := e\<rparr>) })
      | None \<Rightarrow> do { (_, e) \<leftarrow> setenv (Some ''LD_PRELOAD'') (Some path) 0 e; Some (True, w\<lparr>lenv := e\<rparr>) })
   }"

definition add_to_ld_preload ::
  "(string option \<Rightarrow> string option \<Rightarrow> int \<Rightarrow> 'e \<Rightarrow> (int \<times> 'e) option) \<Rightarrow>
     (string option \<Rightarrow> 'e \<Rightarrow> (string option \<times> 'e) option) \<Rightarrow> int \<Rightarrow> byte list \<Rightarrow> 'e ld_world \<Rightarrow> (bool \<times> 'e ld_world) option" where
  "add_to_ld_preload setenv getenv pid lib w = do {
     ((ok, ctx), w) \<leftarrow> map_ctx lib w;
     if \<not> ok then Some (False, w)
     else (case fd_path pid (ctx_fd ctx) of
             (n, path) \<Rightarrow>
               if 28 \<le> n then do { w \<leftarrow> destroy_ctx ctx w; Some (False, w) }
               else put_preload setenv getenv ctx path w)
   }"

datatype 'e peekenv_end = Exit_code int | Exec "string list" 'e

text \<open>\<open>execvp\<close> replaces the program, or returns when it fails; the result of the injection is ignored.\<close>

definition peekenv_main ::
  "(string option \<Rightarrow> string option \<Rightarrow> int \<Rightarrow> 'e \<Rightarrow> (int \<times> 'e) option) \<Rightarrow>
     (string option \<Rightarrow> 'e \<Rightarrow> (string option \<times> 'e) option) \<Rightarrow> int \<Rightarrow> byte list \<Rightarrow> string list \<Rightarrow> 'e ld_world \<Rightarrow> 'e peekenv_end option" where
  "peekenv_main setenv getenv pid lib args w =
     (if args = [] then Some (Exit_code (-1))
      else do {
        (_, w) \<leftarrow> add_to_ld_preload setenv getenv pid lib w;
        (case ld_fails w of
           (True, w) \<Rightarrow> Some (Exit_code (-1))
         | (False, w) \<Rightarrow> Some (Exec args (lenv w)))
      })"

section \<open>What the injection does\<close>

lemma ld_fails_Cons [simp]: "lfaults w = f # fs \<Longrightarrow> ld_fails w = (f, w\<lparr>lfaults := fs\<rparr>)"
  by (simp add: ld_fails_def)

lemma ld_fails_none [simp]: "lfaults w = [] \<Longrightarrow> ld_fails w = (False, w)"
  by (simp add: ld_fails_def)

text \<open>The world with the library in a new memory file.\<close>

definition with_lib :: "byte list \<Rightarrow> 'e ld_world \<Rightarrow> 'e ld_world" where
  "with_lib lib w = w\<lparr>lfd := lfd w + 1, lmaps := Suc (lmaps w), memfds := (memfds w)(lfd w \<mapsto> lib)\<rparr>"

lemma map_ctx_cases:
  assumes "lfaults w = a # b # c # fs" "memfds w (lfd w) = None"
  shows "(\<not> a \<and> b \<longrightarrow> map_ctx lib w = None) \<and>
     (a \<or> \<not> b \<and> c \<longrightarrow> (\<exists>ctx w'. map_ctx lib w = Some ((False, ctx), w') \<and> memfds w' = memfds w \<and> lmaps w' = lmaps w \<and> lenv w' = lenv w)) \<and>
     (\<not> a \<and> \<not> b \<and> \<not> c \<longrightarrow> map_ctx lib w =
        Some ((True, \<lparr>ctx_fd = lfd w, addr = Mapped, sz = length lib\<rparr>), with_lib lib (w\<lparr>lfaults := fs\<rparr>)))"
  using assms
  by (cases a; cases b; cases c) (simp_all add: map_ctx_def Let_def destroy_ctx_def with_lib_def fun_upd_idem)

lemma destroy_with_lib:
  assumes "memfds w (lfd w) = None"
  shows "\<exists>w'. destroy_ctx \<lparr>ctx_fd = lfd w, addr = Mapped, sz = n\<rparr> ((with_lib lib w)\<lparr>lenv := e\<rparr>) = Some w' \<and>
     memfds w' = memfds w \<and> lmaps w' = lmaps w \<and> lenv w' = e"
  using assms by (auto simp: destroy_ctx_def with_lib_def Let_def fun_eq_iff)

definition full_path :: "int \<Rightarrow> int \<Rightarrow> string" where
  "full_path pid fd = ''/proc/'' @ show_int pid @ ''/fd/'' @ show_int fd"

lemma fd_path_eq: "fd_path pid fd = (length (full_path pid fd), take 27 (full_path pid fd))"
  by (simp add: fd_path_def full_path_def snprintf_def)

lemma preload_valid [simp]: "valid_name ''LD_PRELOAD''"
  by (simp add: valid_name_def)

context environment
begin

text \<open>What is put behind the libraries that are already preloaded.\<close>

lemma put_preload_cases:
  assumes "lenv w = e0" "old = vars e0 ''LD_PRELOAD''"
    and "new = (case old of None \<Rightarrow> [] | Some t \<Rightarrow> t @ '':'') @ path"
  shows "\<exists>e. put_preload setenv getenv ctx path w =
       (if old \<noteq> None \<and> 4096 \<le> length new then map_option (\<lambda>w. (False, w)) (destroy_ctx ctx (w\<lparr>lenv := e\<rparr>))
        else Some (True, w\<lparr>lenv := e\<rparr>)) \<and>
     (if old \<noteq> None \<and> 4096 \<le> length new then vars e = vars e0
      else vars e = vars e0 \<or> vars e = (vars e0)(''LD_PRELOAD'' \<mapsto> new)) \<and>
     (ready e0 \<longrightarrow> ready e \<and> (old = None \<or> length new < 4096 \<longrightarrow> vars e = (vars e0)(''LD_PRELOAD'' \<mapsto> new)))"
proof -
  obtain e1 where e1: "getenv (Some ''LD_PRELOAD'') e0 = Some (old, e1)" "vars e1 = vars e0" "ready e0 \<longrightarrow> ready e1"
    using getenv_law [OF preload_valid, of e0] assms(2) by blast
  show ?thesis
  proof (cases old)
    case None
    then obtain r e where "setenv (Some ''LD_PRELOAD'') (Some path) 0 e1 = Some (r, e)"
        "vars e = (if r = 0 then (vars e0)(''LD_PRELOAD'' \<mapsto> path) else vars e0)" "ready e1 \<longrightarrow> r = 0 \<and> ready e"
      using setenv_law [OF preload_valid, of path 0 e1] e1(2) assms(2) by auto
    then show ?thesis
      using None e1 assms(1,3) by (intro exI [of _ e]) (auto simp: put_preload_def Let_def)
  next
    case (Some t)
    then obtain r e where e: "setenv (Some ''LD_PRELOAD'') (Some new) 1 e1 = Some (r, e)"
        "vars e = (if r = 0 then (vars e0)(''LD_PRELOAD'' \<mapsto> new) else vars e0)" "ready e1 \<longrightarrow> r = 0 \<and> ready e"
      using setenv_law [OF preload_valid, of new 1 e1] e1(2) by auto
    have n: "new = t @ '':'' @ path" using Some assms(3) by simp
    show ?thesis
    proof (cases "4096 \<le> length new")
      case True
      then show ?thesis
        using Some n e1 assms(1)
        by (intro exI [of _ e1]) (simp add: put_preload_def Let_def snprintf_def split: bind_splits option.splits)
    next
      case False
      then have "snprintf 4096 (t @ '':'' @ path) = (length new, new)" using n by (simp add: snprintf_def)
      then show ?thesis
        using Some False n e1 e assms(1) by (intro exI [of _ e]) (auto simp: put_preload_def Let_def)
    qed
  qed
qed

lemma injection_outcomes:
  assumes f: "lfaults w = no_fd # no_size # no_map # fs" and fresh: "memfds w (lfd w) = None"
    and path: "path = full_path pid (lfd w)" and old: "old = vars (lenv w) ''LD_PRELOAD''"
    and new: "new = (case old of None \<Rightarrow> [] | Some t \<Rightarrow> t @ '':'') @ path"
    and ok: "ok \<longleftrightarrow> \<not> no_fd \<and> \<not> no_size \<and> \<not> no_map \<and> length path < 28 \<and> (old = None \<or> length new < 4096)"
  shows "if \<not> no_fd \<and> no_size then add_to_ld_preload setenv getenv pid lib w = None
     else \<exists>w'. add_to_ld_preload setenv getenv pid lib w = Some (ok, w') \<and>
       (if ok then memfds w' = (memfds w)(lfd w \<mapsto> lib) \<and>
          (ready (lenv w) \<longrightarrow> vars (lenv w') = (vars (lenv w))(''LD_PRELOAD'' \<mapsto> new))
        else vars (lenv w') = vars (lenv w) \<and> memfds w' = memfds w \<and> lmaps w' = lmaps w)"
proof (cases "no_fd \<or> no_size \<or> no_map")
  case True
  then show ?thesis
    using map_ctx_cases [OF f fresh, of lib] ok
    by (cases no_fd; cases no_size; cases no_map) (auto simp: add_to_ld_preload_def)
next
  case False
  let ?w = "w\<lparr>lfaults := fs\<rparr>" and ?ctx = "\<lparr>ctx_fd = lfd w, addr = Mapped, sz = length lib\<rparr>"
  have m: "map_ctx lib w = Some ((True, ?ctx), with_lib lib ?w)"
    using map_ctx_cases [OF f fresh, of lib] False by blast
  have gone: "\<exists>w'. destroy_ctx ?ctx ((with_lib lib ?w)\<lparr>lenv := e\<rparr>) = Some w' \<and>
      memfds w' = memfds w \<and> lmaps w' = lmaps w \<and> lenv w' = e" for e
    using destroy_with_lib [of ?w, where n = "length lib" and lib = lib and e = e] fresh by simp
  show ?thesis
  proof (cases "length path < 28")
    case True
    then have "fd_path pid (lfd w) = (length path, path)" by (simp add: fd_path_eq path)
    with m True have run: "add_to_ld_preload setenv getenv pid lib w = put_preload setenv getenv ?ctx path (with_lib lib ?w)"
      by (simp add: add_to_ld_preload_def)
    have l: "lenv (with_lib lib ?w) = lenv w" "memfds (with_lib lib ?w) = (memfds w)(lfd w \<mapsto> lib)"
      by (simp_all add: with_lib_def)
    from put_preload_cases [OF l(1) old new, of ?ctx] obtain e where
      e: "put_preload setenv getenv ?ctx path (with_lib lib ?w) =
         (if old \<noteq> None \<and> 4096 \<le> length new then map_option (\<lambda>w. (False, w)) (destroy_ctx ?ctx ((with_lib lib ?w)\<lparr>lenv := e\<rparr>))
          else Some (True, (with_lib lib ?w)\<lparr>lenv := e\<rparr>))"
       "old \<noteq> None \<and> 4096 \<le> length new \<longrightarrow> vars e = vars (lenv w)"
       "ready (lenv w) \<longrightarrow> old = None \<or> length new < 4096 \<longrightarrow> vars e = (vars (lenv w))(''LD_PRELOAD'' \<mapsto> new)"
      by (auto split: if_splits)
    show ?thesis
    proof (cases "old \<noteq> None \<and> 4096 \<le> length new")
      case True
      then show ?thesis using run e(1,2) gone [of e] ok False by auto
    next
      case b: False
      then show ?thesis using run e(1,3) ok False True l(2) by auto
    qed
  next
    case long: False
    then have "fd_path pid (lfd w) = (length path, take 27 path)" by (simp add: fd_path_eq path)
    then show ?thesis
      using m long ok False gone [of "lenv w"] by (auto simp: add_to_ld_preload_def with_lib_def)
  qed
qed

end

section \<open>Properties\<close>

text \<open>
  C25. The wrapper is transparent: for every implementation of the wrapped functions and every
  sequence of calls of a program, the replies and the environment are those of the
  direct calls, it crashes only where they do, and standard output gets exactly one line
  for each call with something to show, in order.
\<close>

theorem wrapper_transparent:
  assumes "limits c = []"
  shows "run_calls (peek_call real) ks (s, c) =
     (case run_calls (direct_call real) ks s of
        None \<Rightarrow> None
      | Some (rs, s') \<Rightarrow> Some (rs, s', c\<lparr>shown := shown c @ concat (map2 call_line ks rs)\<rparr>))"
  using peek_calls_lines [OF assms, of real ks s] by (simp split: option.splits)

theorem wrapper_transparent_witness:
  "run_calls (peek_call libc_real) [Setenv (Some ''A'') (Some ''b'') 1, Getenv (Some ''A'')]
       (\<lparr>lvars = Map.empty, no_memory = []\<rparr>, \<lparr>shown = [], limits = []\<rparr>) =
     Some ([Code 0, Text (Some ''b'')], \<lparr>lvars = [''A'' \<mapsto> ''b''], no_memory = []\<rparr>,
       \<lparr>shown = ''[O] A=b'' @ newline # ''[G] A=b'' @ [newline], limits = []\<rparr>)"
  by (subst wrapper_transparent)
     (simp_all add: direct_call_def libc_real_def libc_setenv_def libc_getenv_def valid_name_def kv_line_def text_of_def)

text \<open>
  C26. Every way out of the injection, with the C library's environment: it reports success exactly when none of its calls fails and
  the texts fit their buffers; then the memory file holds the library and, if memory
  lasts, \<open>LD_PRELOAD\<close> has its path behind what was there before, and no other variable has
  changed. When it reports failure, environment, files and mappings are as
  before. When the file cannot be resized it unmaps an address that was never set.
\<close>

theorem ld_preload_outcomes:
  assumes "lfaults w = no_fd # no_size # no_map # fs" and "memfds w (lfd w) = None"
    and "path = full_path pid (lfd w)" and "old = lvars (lenv w) ''LD_PRELOAD''"
    and "new = (case old of None \<Rightarrow> [] | Some t \<Rightarrow> t @ '':'') @ path"
    and "ok \<longleftrightarrow> \<not> no_fd \<and> \<not> no_size \<and> \<not> no_map \<and> length path < 28 \<and> (old = None \<or> length new < 4096)"
  shows "if \<not> no_fd \<and> no_size then add_to_ld_preload libc_setenv libc_getenv pid lib w = None
     else \<exists>w'. add_to_ld_preload libc_setenv libc_getenv pid lib w = Some (ok, w') \<and>
       (if ok then memfds w' = (memfds w)(lfd w \<mapsto> lib) \<and>
          (no_memory (lenv w) = [] \<longrightarrow> lvars (lenv w') = (lvars (lenv w))(''LD_PRELOAD'' \<mapsto> new))
        else lvars (lenv w') = lvars (lenv w) \<and> memfds w' = memfds w \<and> lmaps w' = lmaps w)"
  using libc.injection_outcomes [OF assms] by simp

theorem ld_preload_outcomes_witness:
  "\<exists>w'. add_to_ld_preload libc_setenv libc_getenv 42 [1, 2, 3]
       \<lparr>lfaults = [False, False, False], lfd = 3, memfds = Map.empty, lmaps = 0,
        lenv = \<lparr>lvars = [''LD_PRELOAD'' \<mapsto> ''a.so''], no_memory = []\<rparr>\<rparr> = Some (True, w') \<and>
     lvars (lenv w') ''LD_PRELOAD'' = Some ''a.so:/proc/42/fd/3''"
proof -
  let ?w = "\<lparr>lfaults = [False, False, False], lfd = 3, memfds = Map.empty, lmaps = 0,
        lenv = \<lparr>lvars = [''LD_PRELOAD'' \<mapsto> ''a.so''], no_memory = []\<rparr>\<rparr>"
  have p: "full_path 42 3 = ''/proc/42/fd/3''"
    by code_simp
  show ?thesis
    using ld_preload_outcomes [of ?w False False False "[]" "''/proc/42/fd/3''" 42 "Some ''a.so''" "''a.so:/proc/42/fd/3''" True "[1, 2, 3]"]
    by (auto simp: p)
qed

end
