(* ===== verification/Punning.thy ===== *)
theory Punning
  imports C_Stdio "HOL-Library.Sublist"
begin

text \<open>
  \<^verbatim>\<open>type_punning/punning.cpp\<close>: counting escape codes in a string, once by comparing eight bytes at a
  time as one word with masked words, once with \<open>strncmp\<close>. A string is its characters; both loops stop fifteen
  characters before its end. A word is read with its first byte lowest.
\<close>

section \<open>Codes as words\<close>

definition simple_codes :: "string list" where
  "simple_codes = [''$SP$'', ''$BP$'', ''$RF$'', ''$LT$'', ''$GT$'', ''$RP$'']"

definition uni_codes :: "string list" where
  "uni_codes = [''$u20$'', ''$u27$'', ''$u5b$'', ''$u5d$'', ''$u7b$'', ''$u7d$'', ''$u7e$'']"

text \<open>An array of eight characters, filled up with zeros, and the length of the code.\<close>

definition init_lookup_pre :: "(byte list \<times> nat) list" where
  "init_lookup_pre =
     map (\<lambda>c. (bytes_of c @ replicate (8 - length c) 0, 4)) simple_codes @
     map (\<lambda>c. (bytes_of c @ replicate (8 - length c) 0, 5)) uni_codes"

definition load_word :: "byte list \<Rightarrow> u64" where
  "load_word bs = of_nat (of_le_bytes (take 8 bs))"

definition init_lookup :: "(u64 \<times> nat) list" where
  "init_lookup = map (\<lambda>(bs, n). (load_word bs, n)) init_lookup_pre"

definition init_mask :: "u64 list" where
  "init_mask =
     [0x0000000000000000, 0x00000000000000ff, 0x000000000000ffff, 0x0000000000ffffff, 0x00000000ffffffff,
      0x000000ffffffffff, 0x0000ffffffffffff, 0x00ffffffffffffff, 0xffffffffffffffff]"

section \<open>The two loops\<close>

text \<open>The argument is the string from the current position on.\<close>

function count_hits :: "string \<Rightarrow> nat" where
  "count_hits str =
     (if length str \<le> 15 then 0
      else if hd str = CHR ''$''
      then (let match = load_word (bytes_of str)
            in case find (\<lambda>(v, n). match AND init_mask ! n = v) init_lookup of
                 Some (v, n) \<Rightarrow> Suc (count_hits (drop (n - 1) (tl str)))
               | None \<Rightarrow> count_hits (tl str))
      else count_hits (tl str))"
  by pat_completeness auto

termination count_hits
  by (relation "measure length") auto

declare count_hits.simps [simp del]

text \<open>\<open>!strncmp(str, code, n)\<close> for a code of \<open>n\<close> characters.\<close>

definition starts_with :: "string \<Rightarrow> string \<Rightarrow> bool" where
  "starts_with str code \<longleftrightarrow> take (length code) str = code"

function count_hits_bad :: "string \<Rightarrow> nat" where
  "count_hits_bad str =
     (if length str \<le> 15 then 0
      else if hd str = CHR ''$''
      then (if starts_with str ''$SP$'' \<or> starts_with str ''$BP$'' \<or> starts_with str ''$RF$'' \<or>
               starts_with str ''$LT$'' \<or> starts_with str ''$GT$'' \<or> starts_with str ''$LP$'' \<or> starts_with str ''$RP$''
            then Suc (count_hits_bad (drop 4 str))
            else if starts_with str ''$u20$'' \<or> starts_with str ''$u27$'' \<or> starts_with str ''$u5b$'' \<or>
                    starts_with str ''$u5d$'' \<or> starts_with str ''$u7b$'' \<or> starts_with str ''$u7d$'' \<or> starts_with str ''$u7e$''
            then Suc (count_hits_bad (drop 4 str))
            else count_hits_bad (tl str))
      else count_hits_bad (tl str))"
  by pat_completeness auto

termination count_hits_bad
  by (relation "measure length") auto

declare count_hits_bad.simps [simp del]

section \<open>Comparing words is comparing strings\<close>

lemma of_le_bytes_append: "of_le_bytes (xs @ ys) = of_le_bytes xs + 256 ^ length xs * of_le_bytes ys"
  by (induction xs) simp_all

lemma of_le_bytes_lt: "of_le_bytes xs < 256 ^ length xs"
proof (induction xs)
  case (Cons b xs)
  have "unat b < 256" using unsigned_less [where 'a = nat, of b] by simp
  moreover from Cons have "256 * of_le_bytes xs + 256 \<le> 256 * 256 ^ length xs" by simp
  ultimately show ?case by (simp only: of_le_bytes.simps length_Cons power_Suc)
qed simp

lemma low_digit_split:
  assumes "(x::nat) < 256" "y < 256"
  shows "x + 256 * u = y + 256 * v \<longleftrightarrow> x = y \<and> u = v"
proof
  assume "x + 256 * u = y + 256 * v"
  then have "(x + 256 * u) mod 256 = (y + 256 * v) mod 256" "(x + 256 * u) div 256 = (y + 256 * v) div 256" by simp_all
  with assms show "x = y \<and> u = v" by simp
qed simp

lemma of_le_bytes_inject: "length xs = length ys \<Longrightarrow> of_le_bytes xs = of_le_bytes ys \<longleftrightarrow> xs = ys"
proof (induction xs arbitrary: ys)
  case (Cons b xs)
  then obtain c zs where ys: "ys = c # zs" "length xs = length zs" by (cases ys) auto
  have "unat b < 256" "unat c < 256" using unsigned_less [where 'a = nat, of b] unsigned_less [where 'a = nat, of c] by simp_all
  then have "unat b + 256 * of_le_bytes xs = unat c + 256 * of_le_bytes zs \<longleftrightarrow> unat b = unat c \<and> of_le_bytes xs = of_le_bytes zs"
    by (rule low_digit_split)
  then show ?case using Cons.IH [OF ys(2)] ys(1) by (simp add: word_unat_eq_iff)
qed simp

lemma init_mask_nth: "n \<le> 8 \<Longrightarrow> init_mask ! n = mask (8 * n)"
proof -
  assume "n \<le> 8"
  then consider "n = 0" | "n = 1" | "n = 2" | "n = 3" | "n = 4" | "n = 5" | "n = 6" | "n = 7" | "n = 8" by linarith
  then show ?thesis by cases (simp_all add: init_mask_def mask_eq_exp_minus_1)
qed

lemma unat_load_word: "length bs = 8 \<Longrightarrow> unat (load_word bs) = of_le_bytes bs"
  using of_le_bytes_lt [of bs] by (simp add: load_word_def unsigned_of_nat take_bit_nat_eq_self)

lemma masked_word:
  assumes "8 \<le> length str" "length c = n" "n \<le> 8"
  shows "load_word str AND init_mask ! n = load_word (c @ replicate (8 - n) 0) \<longleftrightarrow> take n str = c"
proof -
  let ?s = "take 8 str"
  have s: "?s = take n str @ drop n ?s" using assms(3) append_take_drop_id [of n ?s] by (simp add: min_absorb1)
  have "unat (load_word str AND init_mask ! n) = take_bit (8 * n) (of_le_bytes ?s)"
    using assms(1) unat_load_word [of ?s]
    by (simp add: init_mask_nth [OF assms(3)] take_bit_eq_mask [symmetric] unsigned_take_bit_eq load_word_def)
  also have "\<dots> = of_le_bytes ?s mod 256 ^ n"
    by (simp add: take_bit_eq_mod power_mult)
  also have "\<dots> = of_le_bytes (take n str)"
    using of_le_bytes_lt [of "take n str"] assms(1,3)
    by (subst s, subst of_le_bytes_append) (simp add: min_absorb2)
  finally have 1: "unat (load_word str AND init_mask ! n) = of_le_bytes (take n str)" .
  have "of_le_bytes (replicate m 0) = 0" for m by (induction m) simp_all
  then have 2: "unat (load_word (c @ replicate (8 - n) 0)) = of_le_bytes c"
    using assms(2,3) by (simp add: unat_load_word of_le_bytes_append)
  show ?thesis
    unfolding word_unat_eq_iff 1 2 using of_le_bytes_inject [of "take n str" c] assms by simp
qed

section \<open>A reference: greedy search for codes\<close>

definition codes :: "string list" where
  "codes = simple_codes @ uni_codes"

lemma codes_length: "c \<in> set codes \<Longrightarrow> 4 \<le> length c \<and> length c \<le> 5 \<and> hd c = CHR ''$''"
  by (auto simp: codes_def simple_codes_def uni_codes_def)

function code_hits :: "string \<Rightarrow> nat" where
  "code_hits str =
     (if length str \<le> 15 then 0
      else case find (starts_with str) codes of
             Some c \<Rightarrow> Suc (code_hits (drop (length c) str))
           | None \<Rightarrow> code_hits (tl str))"
  by pat_completeness auto

termination code_hits
  by (relation "measure length") (auto simp: find_Some_iff dest!: nth_mem codes_length)

declare code_hits.simps [simp del]

lemma find_map: "find P (map f xs) = map_option f (find (P \<circ> f) xs)"
  by (induction xs) simp_all

lemma find_cong: "(\<And>x. x \<in> set xs \<Longrightarrow> P x = Q x) \<Longrightarrow> find P xs = find Q xs"
  by (induction xs) auto

lemma init_lookup_codes:
  "init_lookup = map (\<lambda>c. (load_word (bytes_of c @ replicate (8 - length c) 0), length c)) codes"
  by (simp add: init_lookup_def init_lookup_pre_def codes_def simple_codes_def uni_codes_def)

lemma bytes_of_inject: "bytes_of s = bytes_of t \<longleftrightarrow> s = t"
  using chars_of_bytes_of by metis

lemma find_lookup:
  assumes "8 \<le> length str"
  shows "find (\<lambda>(v, n). load_word (bytes_of str) AND init_mask ! n = v) init_lookup =
     map_option (\<lambda>c. (load_word (bytes_of c @ replicate (8 - length c) 0), length c)) (find (starts_with str) codes)"
proof -
  have "load_word (bytes_of str) AND init_mask ! length c = load_word (bytes_of c @ replicate (8 - length c) 0) \<longleftrightarrow>
      starts_with str c" if "c \<in> set codes" for c
    using masked_word [of "bytes_of str" "bytes_of c" "length c"] codes_length [OF that] assms
    by (simp add: take_bytes_of bytes_of_inject starts_with_def)
  then show ?thesis
    unfolding init_lookup_codes find_map by (intro arg_cong [where f = "map_option _"] find_cong) simp
qed

lemma starts_with_hd: "starts_with str c \<Longrightarrow> c \<noteq> [] \<Longrightarrow> hd str = hd c"
  by (cases c; cases str) (auto simp: starts_with_def)

lemma count_hits_code_hits: "count_hits str = code_hits str"
proof (induction str rule: code_hits.induct)
  case (1 str)
  show ?case
  proof (cases "length str \<le> 15")
    case False
    show ?thesis
    proof (cases "find (starts_with str) codes")
      case None
      then have "count_hits str = count_hits (tl str)"
        using False find_lookup [of str] by (subst count_hits.simps) (simp add: Let_def)
      moreover have "code_hits str = code_hits (tl str)" using None False by (subst code_hits.simps) simp
      ultimately show ?thesis using 1(1) [OF False None] by simp
    next
      case (Some c)
      then have c: "c \<in> set codes" "starts_with str c" by (auto simp: find_Some_iff)
      then have "hd str = CHR ''$''" "0 < length c" using starts_with_hd codes_length by fastforce+
      moreover from this have "drop (length c - 1) (tl str) = drop (length c) str"
        by (simp add: drop_Suc [symmetric])
      ultimately have "count_hits str = Suc (count_hits (drop (length c) str))"
        using False Some find_lookup [of str] by (subst count_hits.simps) (simp add: Let_def)
      moreover have "code_hits str = Suc (code_hits (drop (length c) str))" using Some False by (subst code_hits.simps) simp
      ultimately show ?thesis using 1(2) [OF False Some] by simp
    qed
  qed (simp add: count_hits.simps [of str] code_hits.simps [of str])
qed

section \<open>Where the two loops agree\<close>

text \<open>
  What the second loop takes for a code beyond the first: the code \<open>$LP$\<close>, and a code that
  begins with the dollar sign that ends a Unicode code.
\<close>

definition slow_codes :: "string list" where
  "slow_codes = ''$LP$'' # codes"

definition disputed :: "string list" where
  "disputed = ''$LP$'' # concat (map (\<lambda>u. map (\<lambda>c. u @ tl c) slow_codes) uni_codes)"

definition undisputed :: "string \<Rightarrow> bool" where
  "undisputed str \<longleftrightarrow> list_all (\<lambda>d. \<not> sublist d str) disputed"

lemma undisputed_drop: "undisputed str \<Longrightarrow> undisputed (drop n str)"
  using sublist_drop [of n str] by (auto simp: undisputed_def list_all_iff dest: sublist_order.order.trans)

lemma undisputed_tl: "undisputed str \<Longrightarrow> undisputed (tl str)"
  using undisputed_drop [of str 1] by (simp add: drop_Suc)

lemma starts_with_prefix: "starts_with str c \<longleftrightarrow> prefix c str"
  by (auto simp: starts_with_def prefix_def) (metis append_take_drop_id)

lemma undisputed_prefix: "undisputed str \<Longrightarrow> d \<in> set disputed \<Longrightarrow> \<not> prefix d str"
  by (auto simp: undisputed_def list_all_iff)

lemma count_hits_bad_step:
  assumes "15 < length str"
  shows "count_hits_bad str =
     (if list_ex (starts_with str) slow_codes then Suc (count_hits_bad (drop 4 str)) else count_hits_bad (tl str))"
proof (cases "hd str = CHR ''$''")
  case True
  then show ?thesis
    using assms by (subst count_hits_bad.simps) (auto simp: slow_codes_def codes_def simple_codes_def uni_codes_def)
next
  case False
  then have "\<not> list_ex (starts_with str) slow_codes"
    using starts_with_hd [of str] codes_length by (fastforce simp: slow_codes_def list_ex_iff)
  then show ?thesis
    using assms False by (subst count_hits_bad.simps) simp
qed

lemma find_None_codes: "find (starts_with str) codes = None \<longleftrightarrow> \<not> list_ex (starts_with str) codes"
  by (auto simp: find_None_iff list_ex_iff)

lemma count_hits_bad_short: "length str \<le> 15 \<Longrightarrow> count_hits_bad str = 0"
  by (subst count_hits_bad.simps) simp

text \<open>After a Unicode code, the second loop only skips the dollar sign it left.\<close>

lemma count_hits_bad_dollar:
  assumes "undisputed str" "u \<in> set uni_codes" "starts_with str u"
  shows "count_hits_bad (drop 4 str) = count_hits_bad (drop 5 str)"
proof (cases "length (drop 4 str) \<le> 15")
  case True
  then show ?thesis by (simp add: count_hits_bad_short)
next
  case False
  have u: "length u = 5" "u = take 4 u @ ''$''" using assms(2) by (auto simp: uni_codes_def)
  have "\<not> starts_with (drop 4 str) c" if "c \<in> set slow_codes" for c
  proof
    assume "starts_with (drop 4 str) c"
    then obtain t where t: "drop 4 str = c @ t" by (auto simp: starts_with_prefix prefix_def)
    have "hd c = CHR ''$''" "c \<noteq> []" using that codes_length [of c] by (auto simp: slow_codes_def)
    then have c: "c = ''$'' @ tl c" by (cases c) auto
    have "take 5 str = u" using assms(3) u(1) by (simp add: starts_with_def)
    then have "take 4 u = take 4 str" by (auto simp: min_def)
    then have "str = (take 4 u) @ c @ t" using append_take_drop_id [of 4 str] t by simp
    also have "\<dots> = (take 4 u @ ''$'') @ tl c @ t" by (subst c) simp
    finally have "str = u @ tl c @ t" using u(2) by simp
    then have "prefix (u @ tl c) str" by (auto simp: prefix_def)
    moreover have "u @ tl c \<in> set disputed" using assms(2) that by (auto simp: disputed_def)
    ultimately show False using undisputed_prefix [OF assms(1)] by blast
  qed
  then show ?thesis
    using count_hits_bad_step [of "drop 4 str"] False by (simp add: list_ex_iff drop_Suc [symmetric] tl_drop)
qed

lemma loops_agree: "undisputed str \<Longrightarrow> count_hits_bad str = code_hits str"
proof (induction str rule: code_hits.induct)
  case (1 str)
  show ?case
  proof (cases "length str \<le> 15")
    case False
    have lp: "\<not> starts_with str ''$LP$''"
      using undisputed_prefix [OF 1(3), of "''$LP$''"] by (simp add: disputed_def starts_with_prefix)
    show ?thesis
    proof (cases "find (starts_with str) codes")
      case None
      then have "count_hits_bad str = count_hits_bad (tl str)"
        using False lp count_hits_bad_step [of str] by (simp add: slow_codes_def find_None_codes)
      moreover have "code_hits str = code_hits (tl str)" using None False by (subst code_hits.simps) simp
      ultimately show ?thesis using 1(1) [OF False None undisputed_tl [OF 1(3)]] by simp
    next
      case (Some c)
      then have c: "c \<in> set codes" "starts_with str c" by (auto simp: find_Some_iff)
      then have "count_hits_bad str = Suc (count_hits_bad (drop 4 str))"
        using False count_hits_bad_step [of str] by (auto simp: slow_codes_def list_ex_iff)
      also have "count_hits_bad (drop 4 str) = count_hits_bad (drop (length c) str)"
      proof (cases "c \<in> set uni_codes")
        case True
        then have "length c = 5" by (auto simp: uni_codes_def)
        then show ?thesis using count_hits_bad_dollar [OF 1(3) True c(2)] by simp
      next
        case False
        then have "length c = 4" using c(1) by (auto simp: codes_def simple_codes_def)
        then show ?thesis by simp
      qed
      also have "\<dots> = code_hits (drop (length c) str)" using 1(2) [OF False Some undisputed_drop [OF 1(3)]] .
      finally show ?thesis using Some False by (subst code_hits.simps) simp
    qed
  qed (simp add: count_hits_bad_short code_hits.simps [of str])
qed

section \<open>Properties\<close>

text \<open>
  C28. Comparing masked words finds exactly the codes: the fast loop counts what a greedy search for the
  codes as strings counts, on every string. For a string without \<open>$LP$\<close> and
  without a code that shares the dollar sign of a Unicode code before it, the loop with
  \<open>strncmp\<close> counts the same.
\<close>

theorem fast_count_is_greedy:
  "count_hits str = code_hits str \<and> (undisputed str \<longrightarrow> count_hits_bad str = count_hits str)"
  by (simp add: count_hits_code_hits loops_agree)

text \<open>The test string of \<open>main\<close>, and a string on which the loops differ.\<close>

definition test_string :: string where
  "test_string = ''this is a long string with $SP$ all over and $BP$ and also $u7e$::h123456789abcdef''"

theorem fast_count_is_greedy_witness:
  "count_hits_bad test_string = count_hits test_string"
proof -
  have "undisputed test_string" by code_simp
  then show ?thesis using fast_count_is_greedy [of test_string] by simp
qed

end
