(* ===== verification/Perf_Event.thy ===== *)
theory Perf_Event
  imports C_Stdio
begin

text \<open>
  \<^verbatim>\<open>perf_event_open/src/main.c\<close>: one perf event per processor, its ring buffer mapped twice in a row, and
  the first event that arrives.

  \<open>pfaults\<close> says for the next calls whether they fail. What the kernel has put into the ring of each
  processor, and which of them are readable, are parameters. \<^const>\<open>None\<close> is a run that does not go on: it waits
  for ever, or reads memory that was never set or lies outside of an object.
\<close>

section \<open>Mapping a ring\<close>

record perf_os =
  pfaults :: "bool list"
  pfd :: int
  pclosed :: "int list"
  pmaps :: nat
  enabled :: "int list"

definition perf_fails :: "perf_os \<Rightarrow> bool \<times> perf_os" where
  "perf_fails w = (case pfaults w of [] \<Rightarrow> (False, w) | f # fs \<Rightarrow> (f, w\<lparr>pfaults := fs\<rparr>))"

definition page_size :: nat where "page_size = 4096"
definition rb_data :: nat where "rb_data = 2 * 2 * page_size"
definition rb_size :: nat where "rb_size = page_size + rb_data"

text \<open>Reserve the addresses, then map the ring over their end and over their start.\<close>

definition fd_to_buf :: "perf_os \<Rightarrow> bool \<times> perf_os" where
  "fd_to_buf w =
     (case perf_fails w of
        (True, w) \<Rightarrow> (False, w)
      | (False, w) \<Rightarrow>
          (let w = w\<lparr>pmaps := Suc (pmaps w)\<rparr>
           in case perf_fails w of
                (True, w) \<Rightarrow> (False, w\<lparr>pmaps := pmaps w - 1\<rparr>)
              | (False, w) \<Rightarrow>
                  (case perf_fails w of
                     (True, w) \<Rightarrow> (False, w\<lparr>pmaps := pmaps w - 1\<rparr>)
                   | (False, w) \<Rightarrow> (True, w))))"

text \<open>Which byte of the ring's file is at an address, relative to the start of the mapping.\<close>

definition mapped_at :: "nat \<Rightarrow> nat option" where
  "mapped_at a = (if a < rb_size then Some a else if a < rb_size + rb_data then Some (a - rb_data) else None)"

section \<open>Setting up\<close>

record PerfEventConfig =
  fds :: "nat \<rightharpoonup> int"
  cfg_n :: "nat option"

fun setup_loop :: "nat list \<Rightarrow> PerfEventConfig \<Rightarrow> perf_os \<Rightarrow> PerfEventConfig \<times> perf_os" where
  "setup_loop [] config w = (config, w)"
| "setup_loop (i # is) config w =
     (case perf_fails w of
        (True, w) \<Rightarrow> setup_loop is config w
      | (False, w) \<Rightarrow>
          (let fd = pfd w; w = w\<lparr>pfd := pfd w + 1\<rparr>
           in case fd_to_buf w of
                (False, w) \<Rightarrow> setup_loop is config (w\<lparr>pclosed := pclosed w @ [fd]\<rparr>)
              | (True, w) \<Rightarrow> setup_loop is (config\<lparr>fds := (fds config)(i \<mapsto> fd), cfg_n := Some i\<rparr>) w))"

text \<open>The arrays have \<open>1024\<close> places, and the result of \<open>malloc\<close> is not checked.\<close>

definition setup_perf_event :: "nat \<Rightarrow> perf_os \<Rightarrow> (PerfEventConfig \<times> perf_os) option" where
  "setup_perf_event num_cpus w =
     (case perf_fails w of
        (no_memory, w) \<Rightarrow>
          if (no_memory \<and> 0 < num_cpus) \<or> 1024 < num_cpus then None
          else Some (setup_loop [0..<num_cpus] \<lparr>fds = Map.empty, cfg_n = None\<rparr> w))"

fun enable_loop :: "nat list \<Rightarrow> (nat \<rightharpoonup> int) \<Rightarrow> perf_os \<Rightarrow> perf_os option" where
  "enable_loop [] f w = Some w"
| "enable_loop (i # is) f w =
     (case f i of None \<Rightarrow> None | Some fd \<Rightarrow> enable_loop is f (w\<lparr>enabled := enabled w @ [fd]\<rparr>))"

definition enable_perf_events :: "PerfEventConfig \<Rightarrow> perf_os \<Rightarrow> perf_os option" where
  "enable_perf_events config w = do { n \<leftarrow> cfg_n config; enable_loop [0..<n] (fds config) w }"

section \<open>Reading\<close>

text \<open>The control page of a ring and its data.\<close>

record ring =
  data_size :: u64
  data_head :: u64
  data_tail :: u64
  ring_data :: "nat \<Rightarrow> byte"

definition ring_byte :: "ring \<Rightarrow> nat \<Rightarrow> byte option" where
  "ring_byte r a =
     (case mapped_at a of
        None \<Rightarrow> None
      | Some f \<Rightarrow> if page_size \<le> f then Some (ring_data r (f - page_size)) else None)"

text \<open>The address of the event, relative to the start of the mapping, or \<open>NULL\<close>; a ring without data divides by zero.\<close>

definition header_from_buf :: "ring \<Rightarrow> nat option option" where
  "header_from_buf r =
     (if data_head r = data_tail r then Some None
      else if data_size r = 0 then None
      else
        (let offset = data_tail r mod data_size r
         in if data_head r - data_tail r < 8 then Some None else Some (Some (page_size + unat offset))))"

datatype poll_error = Interrupted | Other_error

text \<open>Interrupted calls of \<open>poll\<close> are repeated; without a readable descriptor it waits for ever.\<close>

fun poll_ready :: "poll_error list \<Rightarrow> (nat \<Rightarrow> bool) \<Rightarrow> nat \<Rightarrow> nat option option" where
  "poll_ready [] readable n = (case find readable [0..<n] of None \<Rightarrow> None | Some i \<Rightarrow> Some (Some i))"
| "poll_ready (e # es) readable n = (case e of Interrupted \<Rightarrow> poll_ready es readable n | Other_error \<Rightarrow> Some None)"

definition get_next_event :: "poll_error list \<Rightarrow> (nat \<Rightarrow> bool) \<Rightarrow> (nat \<Rightarrow> ring) \<Rightarrow> nat \<Rightarrow> (nat \<times> nat) option option" where
  "get_next_event es readable rings n = do {
     p \<leftarrow> poll_ready es readable n;
     (case p of
        None \<Rightarrow> Some None
      | Some i \<Rightarrow> do { e \<leftarrow> header_from_buf (rings i); Some (map_option (\<lambda>a. (i, a)) e) })
   }"

fun read_bytes :: "ring \<Rightarrow> nat \<Rightarrow> nat \<Rightarrow> byte list option" where
  "read_bytes r a 0 = Some []"
| "read_bytes r a (Suc n) = do { b \<leftarrow> ring_byte r a; bs \<leftarrow> read_bytes r (Suc a) n; Some (b # bs) }"

text \<open>A string of the mapping; \<open>n\<close> bounds the scan by the end of the mapping.\<close>

fun read_string :: "ring \<Rightarrow> nat \<Rightarrow> nat \<Rightarrow> byte list option" where
  "read_string r a 0 = None"
| "read_string r a (Suc n) = do {
     b \<leftarrow> ring_byte r a;
     if b = 0 then Some [] else do { bs \<leftarrow> read_string r (Suc a) n; Some (b # bs) }
   }"

text \<open>
  What \<open>main\<close> prints: nothing, or the type of the event and the name behind the header and the two numbers.
\<close>

definition perf_main ::
  "nat \<Rightarrow> poll_error list \<Rightarrow> (nat \<Rightarrow> bool) \<Rightarrow> (nat \<Rightarrow> ring) \<Rightarrow> perf_os \<Rightarrow> (nat \<times> string) option option" where
  "perf_main num_cpus es readable rings w = do {
     (config, w) \<leftarrow> setup_perf_event num_cpus w;
     w \<leftarrow> enable_perf_events config w;
     n \<leftarrow> cfg_n config;
     event \<leftarrow> get_next_event es readable rings n;
     (case event of
        None \<Rightarrow> Some None
      | Some (i, a) \<Rightarrow> do {
          t \<leftarrow> read_bytes (rings i) a 4;
          c \<leftarrow> read_string (rings i) (a + 16) (rb_size + rb_data - (a + 16));
          Some (Some (of_le_bytes t, chars_of c))
        })
   }"

section \<open>The mirrored ring\<close>

lemma sizes: "page_size = 4096" "rb_data = 16384" "rb_size = 20480"
  by (simp_all add: page_size_def rb_data_def rb_size_def)

lemma ring_byte_data: "x < 2 * rb_data \<Longrightarrow> ring_byte r (page_size + x) = Some (ring_data r (x mod rb_data))"
  by (auto simp: ring_byte_def mapped_at_def sizes mod_if)

lemma read_bytes_data:
  "x + n \<le> 2 * rb_data \<Longrightarrow>
     read_bytes r (page_size + x) n = Some (map (\<lambda>k. ring_data r ((x + k) mod rb_data)) [0..<n])"
proof (induction n arbitrary: x)
  case (Suc n)
  have "ring_byte r (page_size + x) = Some (ring_data r (x mod rb_data))"
    using Suc.prems by (intro ring_byte_data) simp
  moreover have "read_bytes r (page_size + Suc x) n = Some (map (\<lambda>k. ring_data r ((Suc x + k) mod rb_data)) [0..<n])"
    using Suc.prems by (intro Suc.IH) simp
  ultimately show ?case
    by (simp add: upt_conv_Cons map_Suc_upt [symmetric] comp_def del: upt_Suc)
qed simp

lemma read_string_data:
  assumes "\<And>k. k < length s \<Longrightarrow> ring_data r ((x + k) mod rb_data) = s ! k" "ring_data r ((x + length s) mod rb_data) = 0"
    and "0 \<notin> set s" "x + length s < 2 * rb_data" "length s < n"
  shows "read_string r (page_size + x) n = Some s"
  using assms
proof (induction s arbitrary: x n)
  case Nil
  then show ?case using ring_byte_data [of x r] by (cases n) auto
next
  case (Cons b s)
  obtain m where n: "n = Suc m" using Cons.prems(5) by (cases n) auto
  have "ring_byte r (page_size + x) = Some b"
    using ring_byte_data [of x r] Cons.prems(1) [of 0] Cons.prems(4) by simp
  moreover have "read_string r (page_size + Suc x) m = Some s"
  proof (rule Cons.IH)
    show "ring_data r ((Suc x + k) mod rb_data) = s ! k" if "k < length s" for k
      using Cons.prems(1) [of "Suc k"] that by simp
  qed (use Cons.prems n in auto)
  ultimately show ?case using n Cons.prems(3) by auto
qed

section \<open>A run\<close>

text \<open>A ring whose next event has type \<open>t\<close> and carries the name \<open>nm\<close>, possibly across the end of the data.\<close>

definition holds_event :: "ring \<Rightarrow> nat \<Rightarrow> string \<Rightarrow> bool" where
  "holds_event r t nm \<longleftrightarrow>
     (let x = unat (data_tail r mod data_size r)
      in data_size r = of_nat rb_data \<and> data_head r \<noteq> data_tail r \<and> \<not> data_head r - data_tail r < 8 \<and>
         t < 2 ^ 32 \<and> CHR 0x00 \<notin> set nm \<and> 16 + length nm < rb_data \<and>
         (\<forall>k < 4. ring_data r ((x + k) mod rb_data) = le_bytes 4 t ! k) \<and>
         (\<forall>k < length nm. ring_data r ((x + 16 + k) mod rb_data) = bytes_of nm ! k) \<and>
         ring_data r ((x + 16 + length nm) mod rb_data) = 0)"

lemma perf_fails_none [simp]: "pfaults w = [] \<Longrightarrow> perf_fails w = (False, w)"
  by (simp add: perf_fails_def)

lemma setup_loop_fine:
  assumes "pfaults w = []"
  shows "\<exists>f w'. setup_loop [0..<k] \<lparr>fds = Map.empty, cfg_n = None\<rparr> w =
       (\<lparr>fds = f, cfg_n = (if k = 0 then None else Some (k - 1))\<rparr>, w') \<and> dom f = {0..<k} \<and> pfaults w' = []"
proof -
  have "\<exists>f w'. setup_loop [a..<b] c w = (\<lparr>fds = f, cfg_n = (if b \<le> a then cfg_n c else Some (b - 1))\<rparr>, w') \<and>
      dom f = dom (fds c) \<union> {a..<b} \<and> pfaults w' = []"
    if "pfaults w = []" for a b and c :: PerfEventConfig and w
    using that
  proof (induction "b - a" arbitrary: a c w)
    case 0
    then show ?case by (intro exI [of _ "fds c"] exI [of _ w]) simp
  next
    case (Suc m)
    then have ab: "a < b" "m = b - Suc a" by auto
    let ?w = "w\<lparr>pfd := pfd w + 1, pmaps := Suc (pmaps w)\<rparr>" and ?c = "c\<lparr>fds := (fds c)(a \<mapsto> pfd w), cfg_n := Some a\<rparr>"
    have "setup_loop [a..<b] c w = setup_loop [Suc a..<b] ?c ?w"
      using Suc.prems ab(1) by (simp add: upt_conv_Cons fd_to_buf_def Let_def)
    moreover obtain f w' where "setup_loop [Suc a..<b] ?c ?w =
        (\<lparr>fds = f, cfg_n = (if b \<le> Suc a then cfg_n ?c else Some (b - 1))\<rparr>, w')"
        "dom f = dom (fds ?c) \<union> {Suc a..<b}" "pfaults w' = []"
      using Suc.hyps(1) [OF ab(2), of ?w ?c] Suc.prems by auto
    ultimately show ?case using ab(1) by (auto simp: le_Suc_eq)
  qed
  from this [OF assms, of 0 k "\<lparr>fds = Map.empty, cfg_n = None\<rparr>"] show ?thesis by auto
qed

lemma enable_loop_fine: "set is \<subseteq> dom f \<Longrightarrow> \<exists>w'. enable_loop is f w = Some w'"
  by (induction "is" arbitrary: w) auto

lemma poll_interrupted: "poll_ready (replicate m Interrupted) readable n = poll_ready [] readable n"
  by (induction m) simp_all

lemma event_read:
  assumes "holds_event r t nm"
  shows "\<exists>a. header_from_buf r = Some (Some a) \<and> map_option of_le_bytes (read_bytes r a 4) = Some t \<and>
     read_string r (a + 16) (rb_size + rb_data - (a + 16)) = Some (bytes_of nm)"
proof -
  let ?x = "unat (data_tail r mod data_size r)"
  have ds: "data_size r = 16384" using assms by (simp add: holds_event_def Let_def sizes)
  then have x: "?x < rb_data" by (simp add: unat_mod sizes)
  have "read_bytes r (page_size + ?x) 4 = Some (map (\<lambda>k. ring_data r ((?x + k) mod rb_data)) [0..<4])"
    using x by (intro read_bytes_data) (simp add: sizes)
  also have "map (\<lambda>k. ring_data r ((?x + k) mod rb_data)) [0..<4] = le_bytes 4 t"
    using assms by (intro nth_equalityI) (auto simp: holds_event_def Let_def)
  finally have t: "map_option of_le_bytes (read_bytes r (page_size + ?x) 4) = Some t"
    using assms of_le_bytes_le_bytes [of t 4] by (simp add: holds_event_def Let_def)
  have "read_string r (page_size + (?x + 16)) (rb_size + rb_data - (page_size + ?x + 16)) = Some (bytes_of nm)"
  proof (rule read_string_data)
    show "0 \<notin> set (bytes_of nm)" using assms by (simp add: zero_not_in_bytes_of holds_event_def Let_def)
  qed (use assms x in \<open>auto simp: holds_event_def Let_def sizes\<close>)
  with t show ?thesis
    using assms ds by (intro exI [of _ "page_size + ?x"]) (simp add: header_from_buf_def holds_event_def Let_def add.assoc)
qed

section \<open>Properties\<close>

text \<open>
  C13. A run on a machine with \<open>k\<close> processors without failing calls: among all processors but the
  last, the first one with an event is found, however often the wait is interrupted, and type and name of its
  event are printed, also when it reaches across the end of the ring. The last
  processor is never looked at: if only that one has an event, or there is only one
  processor, the program waits for ever.
\<close>

theorem perf_main_outcome:
  assumes "pfaults w = []" and "0 < k" and "k \<le> 1024" and "\<And>i. readable i \<Longrightarrow> holds_event (rings i) (ty i) (nm i)"
  shows "perf_main k (replicate m Interrupted) readable rings w =
     (case find readable [0..<k - 1] of None \<Rightarrow> None | Some i \<Rightarrow> Some (Some (ty i, nm i)))"
proof -
  obtain f w1 where s: "setup_perf_event k w = Some (\<lparr>fds = f, cfg_n = Some (k - 1)\<rparr>, w1)" "dom f = {0..<k}"
    using setup_loop_fine [OF assms(1), of k] assms(1-3) by (auto simp: setup_perf_event_def)
  obtain w2 where e: "enable_perf_events \<lparr>fds = f, cfg_n = Some (k - 1)\<rparr> w1 = Some w2"
    using enable_loop_fine [of "[0..<k - 1]" f w1] s(2) by (auto simp: enable_perf_events_def)
  show ?thesis
  proof (cases "find readable [0..<k - 1]")
    case None
    then show ?thesis using s(1) e by (simp add: perf_main_def get_next_event_def poll_interrupted)
  next
    case (Some i)
    then have "readable i" by (auto simp: find_Some_iff)
    from event_read [OF assms(4) [OF this]] Some show ?thesis
      using s(1) e by (auto simp: perf_main_def get_next_event_def poll_interrupted)
  qed
qed

text \<open>A ring with an event for a new name that begins eight bytes before the end of the data.\<close>

definition demo_event :: "byte list" where
  "demo_event = le_bytes 4 3 @ replicate 12 0 @ bytes_of ''poop''"

definition demo_ring :: ring where
  "demo_ring = \<lparr>data_size = 16384, data_head = 16400, data_tail = 16376,
     ring_data = (\<lambda>p. let q = (p + 8) mod 16384 in if q < 20 then demo_event ! q else 0)\<rparr>"

lemma demo_ring_data: "k < 16384 \<Longrightarrow> ring_data demo_ring ((16376 + k) mod 16384) = (if k < 20 then demo_event ! k else 0)"
proof -
  assume "k < 16384"
  then have "((16376 + k) mod 16384 + 8) mod 16384 = k"
    by (simp add: mod_add_left_eq)
  then show ?thesis by (simp add: demo_ring_def Let_def)
qed

lemma demo_ring_event: "holds_event demo_ring 3 ''poop''"
proof -
  have x: "unat (data_tail demo_ring mod data_size demo_ring) = 16376" by (simp add: demo_ring_def unat_mod)
  have "ring_data demo_ring ((16376 + k) mod 16384) = le_bytes 4 3 ! k" if "k < 4" for k
    using demo_ring_data [of k] that by (simp add: demo_event_def nth_append)
  moreover have "ring_data demo_ring ((16376 + 16 + k) mod 16384) = bytes_of ''poop'' ! k" if "k < 4" for k
    using demo_ring_data [of "16 + k"] that by (simp add: demo_event_def nth_append add.assoc)
  moreover have "ring_data demo_ring ((16376 + 16 + 4) mod 16384) = 0"
    using demo_ring_data [of 20] by simp
  ultimately show ?thesis
    unfolding holds_event_def x Let_def sizes by (simp add: demo_ring_def)
qed

theorem perf_main_outcome_witness:
  "perf_main 2 [Interrupted] (\<lambda>i. i = 0) (\<lambda>_. demo_ring)
      \<lparr>pfaults = [], pfd = 3, pclosed = [], pmaps = 0, enabled = []\<rparr> = Some (Some (3, ''poop''))"
  using perf_main_outcome [of "\<lparr>pfaults = [], pfd = 3, pclosed = [], pmaps = 0, enabled = []\<rparr>" 2 "\<lambda>i. i = 0" "\<lambda>_. demo_ring"
      "\<lambda>_. 3" "\<lambda>_. ''poop''" 1] demo_ring_event by (simp add: numeral_2_eq_2)

end
