(* ===== verification/Argv.thy ===== *)
theory Argv
  imports C_Stdio
begin

text \<open>
  \<^verbatim>\<open>argv/lib.c\<close> and \<^verbatim>\<open>argv0/lib.c\<close>: finding the arguments of the process from the address of its
  environment, and overwriting them.

  The stack is a function from word addresses to words, the memory of the strings one from addresses to
  characters. A loop that runs over the end of a string that has none does not return.
\<close>

section \<open>Finding the arguments\<close>

record Args =
  argc :: nat
  argv :: "int option"

text \<open>The loop: \<open>p\<close> is the variable \<open>argv\<close>; \<open>fuel\<close> counts the rounds up to \<open>1024\<close>.\<close>

fun find_argc :: "(int \<Rightarrow> int) \<Rightarrow> nat \<Rightarrow> nat \<Rightarrow> int \<Rightarrow> Args" where
  "find_argc stack 0 k p = \<lparr>argc = 0, argv = None\<rparr>"
| "find_argc stack (Suc fuel) k p =
     (if int k = stack (p - 1) then \<lparr>argc = k, argv = Some p\<rparr> else find_argc stack fuel (Suc k) (p - 1))"

definition get_args :: "(int \<Rightarrow> int) \<Rightarrow> int \<Rightarrow> Args" where
  "get_args stack environ = find_argc stack 1024 0 (environ - 1)"

section \<open>Overwriting them\<close>

partial_function (option) mask_string :: "(int \<Rightarrow> char) \<Rightarrow> int \<Rightarrow> (int \<Rightarrow> char) option" where
  "mask_string m p = (if m p = CHR 0x00 then Some m else mask_string (m(p := CHR ''*'')) (p + 1))"

fun mask_all :: "(int \<Rightarrow> int) \<Rightarrow> int list \<Rightarrow> (int \<Rightarrow> char) \<Rightarrow> (int \<Rightarrow> char) option" where
  "mask_all stack [] m = Some m"
| "mask_all stack (a # as) m = do { m \<leftarrow> mask_string m (stack a); mask_all stack as m }"

definition sanitize_args :: "(int \<Rightarrow> int) \<Rightarrow> Args \<Rightarrow> (int \<Rightarrow> char) \<Rightarrow> (int \<Rightarrow> char) option" where
  "sanitize_args stack args m =
     (case argv args of
        None \<Rightarrow> if argc args \<le> 1 then Some m else None
      | Some p \<Rightarrow> mask_all stack (map (\<lambda>i. p + int i) [1..<argc args]) m)"

section \<open>The library that is loaded before the program\<close>

record argv_lib =
  has_run :: bool
  this_argc :: nat
  this_argv :: int

text \<open>As above, with the position left where the search ended when nothing is found.\<close>

fun search :: "(int \<Rightarrow> int) \<Rightarrow> nat \<Rightarrow> nat \<Rightarrow> int \<Rightarrow> nat \<times> int" where
  "search stack 0 k p = (0, p)"
| "search stack (Suc fuel) k p = (if int k = stack (p - 1) then (k, p) else search stack fuel (Suc k) (p - 1))"

definition get_argc :: "(int \<Rightarrow> int) \<Rightarrow> int \<Rightarrow> argv_lib \<Rightarrow> nat \<times> argv_lib" where
  "get_argc stack environ s =
     (if has_run s then (this_argc s, s)
      else (case search stack 1024 0 (environ - 1) of (n, p) \<Rightarrow> (n, s\<lparr>has_run := True, this_argv := p\<rparr>)))"

definition get_argv :: "(int \<Rightarrow> int) \<Rightarrow> argv_lib \<Rightarrow> int \<Rightarrow> int option" where
  "get_argv stack s idx = (if idx < 0 \<or> int (this_argc s) < idx then None else Some (stack (this_argv s + idx)))"

definition init_for_fun :: "(int \<Rightarrow> int) \<Rightarrow> int \<Rightarrow> argv_lib \<Rightarrow> argv_lib" where
  "init_for_fun stack environ s = (case get_argc stack environ s of (n, s) \<Rightarrow> s\<lparr>this_argc := n\<rparr>)"

section \<open>The stack of a new process\<close>

text \<open>
  From address \<open>a\<close>: the number of arguments, the pointers to them, a null pointer; then the
  environment. No pointer to an argument is as small as a number of arguments.
\<close>

definition process_stack :: "(int \<Rightarrow> int) \<Rightarrow> int \<Rightarrow> int list \<Rightarrow> int \<Rightarrow> bool" where
  "process_stack stack a ptrs environ \<longleftrightarrow>
     stack a = int (length ptrs) \<and> (\<forall>i < length ptrs. stack (a + 1 + int i) = ptrs ! i) \<and>
     stack (a + 1 + int (length ptrs)) = 0 \<and> environ = a + 2 + int (length ptrs) \<and> (\<forall>p \<in> set ptrs. 1024 \<le> p)"

lemma process_stackD:
  assumes "process_stack stack a ptrs environ"
  shows "stack a = int (length ptrs)" "environ = a + 2 + int (length ptrs)"
    "i < length ptrs \<Longrightarrow> stack (a + 1 + int i) = ptrs ! i" "q \<in> set ptrs \<Longrightarrow> 1024 \<le> q"
  using assms unfolding process_stack_def by blast+

lemma stack_slot:
  assumes "process_stack stack a ptrs environ" "length ptrs < 1024" "k \<le> length ptrs"
  shows "int k = stack (environ - 1 - int k - 1) \<longleftrightarrow> k = length ptrs"
proof (cases "k = length ptrs")
  case False
  let ?i = "length ptrs - 1 - k"
  have i: "?i < length ptrs" using False assms(3) by simp
  have "int ?i = int (length ptrs) - 1 - int k" using False assms(3) by (simp add: of_nat_diff)
  moreover note process_stackD(2) [OF assms(1)]
  ultimately have "environ - 1 - int k - 1 = a + 1 + int ?i" by linarith
  then have "stack (environ - 1 - int k - 1) = ptrs ! ?i" using process_stackD(3) [OF assms(1) i] by (simp only:)
  moreover have "1024 \<le> ptrs ! ?i" using process_stackD(4) [OF assms(1) nth_mem [OF i]] .
  ultimately show ?thesis using False assms(2,3) by linarith
qed (use process_stackD(1,2) [OF assms(1)] in simp)

lemma search_finds:
  assumes "process_stack stack a ptrs environ" "length ptrs < 1024" "k \<le> length ptrs" "length ptrs < k + fuel"
  shows "search stack fuel k (environ - 1 - int k) = (length ptrs, a + 1) \<and>
     find_argc stack fuel k (environ - 1 - int k) = \<lparr>argc = length ptrs, argv = Some (a + 1)\<rparr>"
  using assms(3,4)
proof (induction fuel arbitrary: k)
  case (Suc fuel)
  have next_p: "environ - 1 - int k - 1 = environ - 1 - int (Suc k)" by simp
  have found: "k = length ptrs \<Longrightarrow> environ - 1 - int k = a + 1" using process_stackD(2) [OF assms(1)] by simp
  show ?case
  proof (cases "k = length ptrs")
    case True
    then show ?thesis using stack_slot [OF assms(1,2) Suc.prems(1)] found by simp
  next
    case False
    then have "Suc k \<le> length ptrs" "length ptrs < Suc k + fuel" using Suc.prems by auto
    from Suc.IH [OF this] show ?thesis
      using stack_slot [OF assms(1,2) Suc.prems(1)] False by (simp only: search.simps find_argc.simps next_p if_False)
  qed
qed simp

section \<open>The strings behind each other\<close>

fun text_at :: "(int \<Rightarrow> char) \<Rightarrow> int \<Rightarrow> string \<Rightarrow> bool" where
  "text_at m p [] = True"
| "text_at m p (c # s) = (m p = c \<and> text_at m (p + 1) s)"

lemma text_at_append [simp]: "text_at m p (s @ t) \<longleftrightarrow> text_at m p s \<and> text_at m (p + int (length s)) t"
  by (induction s arbitrary: p) (auto simp: algebra_simps)

lemma text_at_cong: "text_at m p s \<Longrightarrow> (\<And>x. p \<le> x \<Longrightarrow> x < p + int (length s) \<Longrightarrow> m' x = m x) \<Longrightarrow> text_at m' p s"
  by (induction s arbitrary: p) auto

text \<open>Outside of \<open>n\<close> characters from \<open>p\<close> on nothing has changed.\<close>

definition same_outside :: "int \<Rightarrow> nat \<Rightarrow> (int \<Rightarrow> char) \<Rightarrow> (int \<Rightarrow> char) \<Rightarrow> bool" where
  "same_outside p n m m' \<longleftrightarrow> (\<forall>x. x < p \<or> p + int n \<le> x \<longrightarrow> m' x = m x)"

lemma same_outsideD: "same_outside p n m m' \<Longrightarrow> x < p \<or> p + int n \<le> x \<Longrightarrow> m' x = m x"
  by (auto simp: same_outside_def)

lemma same_outside_trans:
  assumes "same_outside p n m m1" "same_outside q k m1 m'" "p \<le> q" "q + int k \<le> p + int l" "n \<le> l"
  shows "same_outside p l m m'"
  unfolding same_outside_def
proof (intro allI impI)
  fix x assume "x < p \<or> p + int l \<le> x"
  then have "x < q \<or> q + int k \<le> x" "x < p \<or> p + int n \<le> x" using assms(3-5) by linarith+
  then show "m' x = m x" using same_outsideD [OF assms(1)] same_outsideD [OF assms(2)] by simp
qed

lemma text_at_outside:
  assumes "text_at m p s" "same_outside q n m m'" "p + int (length s) \<le> q \<or> q + int n \<le> p"
  shows "text_at m' p s"
proof (rule text_at_cong [OF assms(1)])
  fix x assume "p \<le> x" "x < p + int (length s)"
  then show "m' x = m x" using assms(3) by (intro same_outsideD [OF assms(2)]) linarith
qed

lemma mask_string_masks:
  assumes "text_at m p (s @ [CHR 0x00])" "CHR 0x00 \<notin> set s"
  shows "\<exists>m'. mask_string m p = Some m' \<and> text_at m' p (replicate (length s) (CHR ''*'') @ [CHR 0x00]) \<and>
     same_outside p (length s) m m'"
  using assms
proof (induction s arbitrary: m p)
  case Nil
  then show ?case by (subst mask_string.simps) (simp add: same_outside_def)
next
  case (Cons c s)
  let ?m = "m(p := CHR ''*'')"
  have first: "same_outside p 1 m ?m" by (simp add: same_outside_def)
  have "text_at m (p + 1) (s @ [CHR 0x00])" using Cons.prems(1) by simp
  then have "text_at ?m (p + 1) (s @ [CHR 0x00])" by (rule text_at_outside [OF _ first]) simp
  moreover have "CHR 0x00 \<notin> set s" using Cons.prems(2) by simp
  ultimately obtain m' where m': "mask_string ?m (p + 1) = Some m'"
      "text_at m' (p + 1) (replicate (length s) (CHR ''*'') @ [CHR 0x00])" "same_outside (p + 1) (length s) ?m m'"
    using Cons.IH by blast
  have "mask_string m p = Some m'"
    using m'(1) Cons.prems by (subst mask_string.simps) auto
  moreover have "m' p = CHR ''*''" using same_outsideD [OF m'(3), of p] by simp
  moreover have "same_outside p (length (c # s)) m m'"
    by (rule same_outside_trans [OF first m'(3)]) simp_all
  ultimately show ?case using m'(2) by auto
qed

definition block :: "string list \<Rightarrow> string" where
  "block ss = concat (map (\<lambda>s. s @ [CHR 0x00]) ss)"

fun starts :: "int \<Rightarrow> string list \<Rightarrow> int list" where
  "starts p [] = []"
| "starts p (s # ss) = p # starts (p + int (length s) + 1) ss"

lemma block_Cons [simp]: "block [] = []" "block (s # ss) = s @ CHR 0x00 # block ss"
  by (simp_all add: block_def)

definition stars :: "string \<Rightarrow> string" where
  "stars s = replicate (length s) (CHR ''*'')"

lemma length_block_stars [simp]: "length (block (map stars ss)) = length (block ss)"
  by (induction ss) (simp_all add: stars_def)

lemma mask_all_masks:
  assumes "text_at m p (block ss)" "list_all (\<lambda>s. CHR 0x00 \<notin> set s) ss" "map stack as = starts p ss"
  shows "\<exists>m'. mask_all stack as m = Some m' \<and> text_at m' p (block (map stars ss)) \<and> same_outside p (length (block ss)) m m'"
  using assms
proof (induction ss arbitrary: m p as)
  case (Cons s ss)
  then obtain a bs where as: "as = a # bs" "stack a = p" "map stack bs = starts (p + int (length s) + 1) ss" by auto
  let ?q = "p + int (length s) + 1"
  obtain m1 where m1: "mask_string m p = Some m1" "text_at m1 p (stars s @ [CHR 0x00])" "same_outside p (length s) m m1"
    using mask_string_masks [of m p s] Cons.prems(1,2) by (auto simp: stars_def)
  have "text_at m1 ?q (block ss)"
    using Cons.prems(1) by (intro text_at_outside [OF _ m1(3)]) (simp_all add: add.assoc)
  then obtain m' where m': "mask_all stack bs m1 = Some m'" "text_at m' ?q (block (map stars ss))"
      "same_outside ?q (length (block ss)) m1 m'"
    using Cons.IH [OF _ _ as(3)] Cons.prems(2) by auto
  have "text_at m' p (stars s @ [CHR 0x00])"
    by (rule text_at_outside [OF m1(2) m'(3)]) (simp add: stars_def)
  moreover have "same_outside p (length (block (s # ss))) m m'"
    by (rule same_outside_trans [OF m1(3) m'(3)]) simp_all
  ultimately show ?case
    using m1(1) m'(1,2) as by (auto simp: add.assoc stars_def [of s])
qed (auto simp: same_outside_def)

section \<open>Properties\<close>

text \<open>
  C39. The search finds the arguments: on the stack of a process with fewer than \<open>1024\<close> arguments,
  both libraries find their number and the address of the first pointer. Overwriting
  them then returns, turns every character of all arguments but the first into a star,
  keeps the first one, the lengths and the ends of all of them, and changes no memory
  outside of the arguments.
\<close>

theorem arguments_found_and_masked:
  assumes "process_stack stack a (starts p (name # args)) environ" and "length args < 1023"
    and "text_at m p (block (name # args))" and "list_all (\<lambda>s. CHR 0x00 \<notin> set s) (name # args)"
  shows "get_args stack environ = \<lparr>argc = length args + 1, argv = Some (a + 1)\<rparr> \<and>
     get_argc stack environ \<lparr>has_run = False, this_argc = 0, this_argv = 0\<rparr> =
       (length args + 1, \<lparr>has_run = True, this_argc = 0, this_argv = a + 1\<rparr>) \<and>
     (\<exists>m'. sanitize_args stack (get_args stack environ) m = Some m' \<and>
        text_at m' p (block (name # map stars args)) \<and> same_outside p (length (block (name # args))) m m')"
proof -
  let ?q = "p + int (length name) + 1"
  have len: "length (starts p ss) = length ss" for p ss by (induction ss arbitrary: p) simp_all
  have n: "length (starts p (name # args)) = length args + 1" by (simp add: len)
  have found: "search stack 1024 0 (environ - 1) = (length args + 1, a + 1)"
      "find_argc stack 1024 0 (environ - 1) = \<lparr>argc = length args + 1, argv = Some (a + 1)\<rparr>"
    using search_finds [OF assms(1), of 0 1024] assms(2) n by simp_all
  have "map stack (map (\<lambda>i. a + 1 + int i) [1..<length args + 1]) = starts ?q args"
  proof (rule nth_equalityI)
    fix i assume "i < length (map stack (map (\<lambda>i. a + 1 + int i) [1..<length args + 1]))"
    then have i: "i < length args" by (simp del: upt_Suc)
    then have "stack (a + 1 + int (Suc i)) = starts p (name # args) ! Suc i"
      using process_stackD(3) [OF assms(1), of "Suc i"] n by simp
    then show "map stack (map (\<lambda>i. a + 1 + int i) [1..<length args + 1]) ! i = starts ?q args ! i"
      using i by (simp del: upt_Suc)
  qed (simp add: len del: upt_Suc)
  from mask_all_masks [OF _ _ this, of m] obtain m' where m':
    "mask_all stack (map (\<lambda>i. a + 1 + int i) [1..<length args + 1]) m = Some m'"
    "text_at m' ?q (block (map stars args))" "same_outside ?q (length (block args)) m m'"
    using assms(3,4) by (auto simp: add.assoc)
  have "text_at m' p (name @ [CHR 0x00])"
    using assms(3) by (intro text_at_outside [OF _ m'(3)]) simp_all
  moreover have "same_outside p 0 m m" by (simp add: same_outside_def)
  then have "same_outside p (length (block (name # args))) m m'"
    using m'(3) by (rule same_outside_trans) simp_all
  ultimately show ?thesis
    using found m'(1,2) by (simp add: get_args_def get_argc_def sanitize_args_def add.assoc)
qed

text \<open>The process \<open>x -y\<close>: its arguments are at \<open>2000\<close>, its stack begins at \<open>0\<close>.\<close>

definition demo_stack :: "int \<Rightarrow> int" where
  "demo_stack = (\<lambda>_. 0)(0 := 2, 1 := 2000, 2 := 2002)"

definition demo_text :: "int \<Rightarrow> char" where
  "demo_text = (\<lambda>_. CHR 0x00)(2000 := CHR ''x'', 2002 := CHR ''-'', 2003 := CHR ''y'')"

theorem arguments_found_and_masked_witness:
  "get_args demo_stack 4 = \<lparr>argc = 2, argv = Some 1\<rparr> \<and>
   (\<exists>m'. sanitize_args demo_stack (get_args demo_stack 4) demo_text = Some m' \<and> text_at m' 2000 (block [''x'', ''**'']))"
proof -
  have "process_stack demo_stack 0 (starts 2000 [''x'', ''-y'']) 4"
    by (auto simp: process_stack_def demo_stack_def less_Suc_eq)
  from arguments_found_and_masked [OF this, of demo_text] show ?thesis
    by (auto simp: demo_text_def stars_def numeral_2_eq_2)
qed

end
