(* ===== verification/Start_So.thy ===== *)
theory Start_So
  imports Argv
begin

text \<open>
  \<^verbatim>\<open>start_so/foo.cpp\<close>: a shared library that can be executed. Its main function prints the command line of the process, overwrites
  the arguments and prints the command line again.

  Stack and strings are those of \<open>Argv\<close>. The kernel delivers the command line from the memory of the arguments, \<open>len\<close>
  characters from \<open>base\<close> on, in portions of what the reader asks for. A read outside of the buffer is undefined: \<^const>\<open>None\<close>.
\<close>

section \<open>The command line in portions\<close>

record proc_args =
  base :: int
  len :: nat

definition region :: "(int \<Rightarrow> char) \<Rightarrow> int \<Rightarrow> nat \<Rightarrow> string" where
  "region m p n = map (\<lambda>i. m (p + int i)) [0..<n]"

definition cmdline :: "proc_args \<Rightarrow> (int \<Rightarrow> char) \<Rightarrow> string" where
  "cmdline k m = region m (base k) (len k)"

function portions :: "nat \<Rightarrow> string \<Rightarrow> string list" where
  "portions n s = (if s = [] \<or> n = 0 then [] else take n s # portions n (drop n s))"
  by auto
termination portions
  by (relation "measure (length \<circ> snd)") auto

declare portions.simps [simp del]

section \<open>Printing\<close>

fun read_loop :: "string list \<Rightarrow> string" where
  "read_loop [] = []"
| "read_loop (buf # rest) = map (\<lambda>c. if c = CHR 0x00 then CHR '' '' else c) buf @ read_loop rest"

definition read_cmdline :: "proc_args \<Rightarrow> (int \<Rightarrow> char) \<Rightarrow> string" where
  "read_cmdline k m = read_loop (portions 1024 (cmdline k m)) @ [newline]"

section \<open>Overwriting\<close>

text \<open>
  The counting loop looks at \<open>buf[n]\<close> down to \<open>buf[1]\<close>, where \<open>n\<close> characters were read; a full buffer makes it
  look behind its end. What an earlier portion left in the buffer stays there.
\<close>

definition count_zeros :: "string \<Rightarrow> nat \<Rightarrow> nat option" where
  "count_zeros buf n = (if n < length buf then Some (length (filter (\<lambda>i. buf ! i = CHR 0x00) [1..<Suc n])) else None)"

fun count_args :: "string list \<Rightarrow> string \<Rightarrow> nat \<Rightarrow> nat option" where
  "count_args [] buf n = Some n"
| "count_args (s # rest) buf n =
     (let buf = s @ drop (length s) buf
      in do {
        k \<leftarrow> count_zeros buf (length s);
        count_args rest buf (n + k)
      })"

partial_function (option) strlen :: "(int \<Rightarrow> char) \<Rightarrow> int \<Rightarrow> nat option" where
  "strlen m p = (if m p = CHR 0x00 then Some 0 else do { k \<leftarrow> strlen m (p + 1); Some (Suc k) })"

definition memset :: "(int \<Rightarrow> char) \<Rightarrow> int \<Rightarrow> char \<Rightarrow> nat \<Rightarrow> (int \<Rightarrow> char)" where
  "memset m p c n = (\<lambda>x. if p \<le> x \<and> x < p + int n then c else m x)"

fun scrub_loop :: "(int \<Rightarrow> int) \<Rightarrow> int \<Rightarrow> nat \<Rightarrow> (int \<Rightarrow> char) \<Rightarrow> (int \<Rightarrow> char) option" where
  "scrub_loop stack args n m =
     (if 1 < n
      then do {
        k \<leftarrow> strlen m (stack (args - int n));
        scrub_loop stack args (n - 1) (memset m (stack (args - int n)) (CHR ''?'') k)
      }
      else Some m)"

declare scrub_loop.simps [simp del]

definition scrub_args :: "proc_args \<Rightarrow> (int \<Rightarrow> int) \<Rightarrow> int \<Rightarrow> (int \<Rightarrow> char) \<Rightarrow> (int \<Rightarrow> char) option" where
  "scrub_args k stack environ m = do {
     n \<leftarrow> count_args (portions 1024 (cmdline k m)) (replicate 1024 (CHR 0x00)) 0;
     scrub_loop stack environ n m
   }"

definition mymain :: "proc_args \<Rightarrow> (int \<Rightarrow> int) \<Rightarrow> int \<Rightarrow> (int \<Rightarrow> char) \<Rightarrow> string list option" where
  "mymain k stack environ m = do {
     let before = read_cmdline k m;
     m \<leftarrow> scrub_args k stack environ m;
     Some [''Main from lib'' @ [newline], before, ''OK, done.'' @ [newline, newline], read_cmdline k m]
   }"

section \<open>Lemmas\<close>

lemma concat_portions: "0 < n \<Longrightarrow> concat (portions n s) = s"
proof (induction n s rule: portions.induct)
  case (1 n s)
  then show ?case by (subst portions.simps) simp
qed

lemma read_loop_portions: "read_loop (portions 1024 s) = map (\<lambda>c. if c = CHR 0x00 then CHR '' '' else c) s"
proof -
  have "read_loop ss = map (\<lambda>c. if c = CHR 0x00 then CHR '' '' else c) (concat ss)" for ss
    by (induction ss) simp_all
  then show ?thesis by (simp add: concat_portions)
qed

lemma portions_short: "s \<noteq> [] \<Longrightarrow> length s < n \<Longrightarrow> portions n s = [s]"
  by (subst portions.simps) (auto simp: portions.simps [of _ "[]"])

lemma region_text: "text_at m p s \<longleftrightarrow> region m p (length s) = s"
proof (induction s arbitrary: p)
  case (Cons c s)
  have "region m p (length (c # s)) = m p # region m (p + 1) (length s)"
    by (simp add: region_def upt_conv_Cons map_Suc_upt [symmetric] comp_def algebra_simps del: upt_Suc)
  with Cons show ?case by simp
qed (simp add: region_def)

lemma strlen_text:
  assumes "text_at m p (s @ [CHR 0x00])" "CHR 0x00 \<notin> set s"
  shows "strlen m p = Some (length s)"
  using assms
proof (induction s arbitrary: p)
  case Nil
  then show ?case by (subst strlen.simps) simp
next
  case (Cons c s)
  then have "strlen m (p + 1) = Some (length s)" by auto
  with Cons.prems show ?case by (subst strlen.simps) auto
qed

lemma memset_outside: "same_outside p n m (memset m p c n)"
  by (simp add: same_outside_def memset_def)

lemma memset_text: "text_at (memset m p c n) p (replicate n c)"
  unfolding region_text by (auto simp: region_def memset_def intro: nth_equalityI)

definition marks :: "string \<Rightarrow> string" where
  "marks s = replicate (length s) (CHR ''?'')"

lemma scrub_loop_marks:
  assumes "text_at m q (block ss)" "list_all (\<lambda>s. CHR 0x00 \<notin> set s) ss"
    and "\<And>j. j < length ss \<Longrightarrow> stack (environ - int (length ss + 1 - j)) = starts q ss ! j"
  shows "\<exists>m'. scrub_loop stack environ (length ss + 1) m = Some m' \<and> text_at m' q (block (map marks ss)) \<and>
     same_outside q (length (block ss)) m m'"
  using assms
proof (induction ss arbitrary: q m)
  case Nil
  then show ?case by (simp add: scrub_loop.simps same_outside_def)
next
  case (Cons s ss)
  let ?q = "q + int (length s) + 1" and ?m = "memset m q (CHR ''?'') (length s)"
  have out: "same_outside q (length s) m ?m" by (rule memset_outside)
  have first: "stack (environ - int (length ss + 2)) = q" using Cons.prems(3) [of 0] by simp
  have len: "strlen m q = Some (length s)" using Cons.prems(1,2) by (intro strlen_text) simp_all
  have "text_at m ?q (block ss)" using Cons.prems(1) by (simp add: add.assoc)
  then have "text_at ?m ?q (block ss)" by (rule text_at_outside [OF _ out]) simp
  moreover have "stack (environ - int (length ss + 1 - j)) = starts ?q ss ! j" if "j < length ss" for j
    using Cons.prems(3) [of "Suc j"] that by simp
  moreover have "list_all (\<lambda>s. CHR 0x00 \<notin> set s) ss" using Cons.prems(2) by simp
  ultimately obtain m' where m': "scrub_loop stack environ (length ss + 1) ?m = Some m'" "text_at m' ?q (block (map marks ss))"
      "same_outside ?q (length (block ss)) ?m m'"
    using Cons.IH [of ?m ?q] by blast
  have "scrub_loop stack environ (length (s # ss) + 1) m = Some m'"
    using len first m'(1) by (subst scrub_loop.simps) simp
  moreover have "text_at ?m q (marks s)" by (simp add: marks_def memset_text)
  then have "text_at m' q (marks s)" by (rule text_at_outside [OF _ m'(3)]) (simp add: marks_def)
  moreover have "?m (q + int (length s)) = CHR 0x00" using Cons.prems(1) by (simp add: memset_def)
  then have "m' (q + int (length s)) = CHR 0x00" using same_outsideD [OF m'(3), of "q + int (length s)"] by simp
  moreover have "same_outside q (length (block (s # ss))) m m'"
    by (rule same_outside_trans [OF out m'(3)]) simp_all
  ultimately show ?case using m'(2) by (auto simp: marks_def [of s] add.assoc)
qed

lemma zeros_of_block:
  "list_all (\<lambda>s. CHR 0x00 \<notin> set s) ss \<Longrightarrow> length (filter (\<lambda>c. c = CHR 0x00) (block ss)) = length ss"
proof (induction ss)
  case (Cons s ss)
  then have "filter (\<lambda>c. c = CHR 0x00) s = []" by (auto simp: filter_empty_conv)
  with Cons show ?case by simp
qed simp

lemma count_args_block:
  assumes "name \<noteq> []" "list_all (\<lambda>s. CHR 0x00 \<notin> set s) (name # args)" "length (block (name # args)) < 1024"
  shows "count_args (portions 1024 (block (name # args))) (replicate 1024 (CHR 0x00)) 0 = Some (length (name # args) + 1)"
proof -
  let ?b = "block (name # args)"
  let ?buf = "?b @ drop (length ?b) (replicate 1024 (CHR 0x00))"
  obtain c t where ct: "?b = c # t" "c \<noteq> CHR 0x00"
    using assms(1,2) by (cases name) auto
  have "map ((!) ?buf) [0..<Suc (length ?b)] = ?b @ [CHR 0x00]"
    using assms(3) by (intro nth_equalityI) (auto simp: nth_append less_Suc_eq simp del: upt_Suc block_Cons)
  then have "length (filter (\<lambda>c. c = CHR 0x00) (map ((!) ?buf) [0..<Suc (length ?b)])) = length (name # args) + 1"
    using zeros_of_block [OF assms(2)] by (simp only: filter_append length_append) simp
  then have "length (filter (\<lambda>i. ?buf ! i = CHR 0x00) [0..<Suc (length ?b)]) = length (name # args) + 1"
    by (simp only: filter_map comp_def length_map)
  moreover have "filter (\<lambda>i. ?buf ! i = CHR 0x00) [1..<Suc (length ?b)] = filter (\<lambda>i. ?buf ! i = CHR 0x00) [0..<Suc (length ?b)]"
    using ct by (simp add: upt_conv_Cons del: upt_Suc)
  ultimately have "count_zeros ?buf (length ?b) = Some (length (name # args) + 1)"
    using assms(3) by (simp add: count_zeros_def del: upt_Suc block_Cons)
  moreover have "portions 1024 ?b = [?b]" using ct assms(3) by (intro portions_short) simp_all
  ultimately show ?thesis by (simp add: Let_def del: block_Cons)
qed

section \<open>Properties\<close>

definition spaced :: "string list \<Rightarrow> string" where
  "spaced ss = concat (map (\<lambda>s. s @ '' '') ss)"

lemma spaced_block:
  "list_all (\<lambda>s. CHR 0x00 \<notin> set s) ss \<Longrightarrow> map (\<lambda>c. if c = CHR 0x00 then CHR '' '' else c) (block ss) = spaced ss"
proof (induction ss)
  case (Cons s ss)
  then have "map (\<lambda>c. if c = CHR 0x00 then CHR '' '' else c) s = s" by (intro map_idI) auto
  with Cons show ?case by (simp add: spaced_def)
qed (simp add: spaced_def)

lemma length_block_marks [simp]: "length (block (map marks ss)) = length (block ss)"
  by (induction ss) (simp_all add: marks_def)

text \<open>
  C35. The library scrubs all arguments, the name of the program included: for a process whose command line is shorter than
  \<open>1024\<close> characters, \<open>mymain\<close> prints the arguments and then as many question marks for each of them. The zero
  behind the last argument is counted twice, once more than there are arguments, which is what makes the loop reach
  the first one.
\<close>

theorem mymain_scrubs_all:
  assumes "process_stack stack a (starts p (name # args)) environ" and "text_at m p (block (name # args))"
    and "list_all (\<lambda>s. CHR 0x00 \<notin> set s) (name # args)" and "name \<noteq> []" and "length (block (name # args)) < 1024"
  shows "mymain \<lparr>base = p, len = length (block (name # args))\<rparr> stack environ m =
     Some [''Main from lib'' @ [newline], spaced (name # args) @ [newline], ''OK, done.'' @ [newline, newline],
       spaced (map marks (name # args)) @ [newline]]"
proof -
  let ?ss = "name # args"
  let ?k = "\<lparr>base = p, len = length (block ?ss)\<rparr>"
  have len: "length (starts p ss) = length ss" for p ss by (induction ss arbitrary: p) simp_all
  have c: "cmdline ?k m = block ?ss" using assms(2) unfolding cmdline_def region_text by (simp only: proc_args.simps)
  have n: "count_args (portions 1024 (cmdline ?k m)) (replicate 1024 (CHR 0x00)) 0 = Some (length ?ss + 1)"
    unfolding c using assms(3-5) by (intro count_args_block)
  have slots: "stack (environ - int (length ?ss + 1 - j)) = starts p ?ss ! j" if "j < length ?ss" for j
  proof -
    have "environ - int (length ?ss + 1 - j) = a + 1 + int j"
      using process_stackD(2) [OF assms(1)] that by (simp add: len of_nat_diff del: starts.simps)
    then show ?thesis using process_stackD(3) [OF assms(1), of j] that by (simp only: len)
  qed
  obtain m' where m': "scrub_loop stack environ (length ?ss + 1) m = Some m'" "text_at m' p (block (map marks ?ss))"
    using scrub_loop_marks [OF assms(2,3) slots] by blast
  have "cmdline ?k m' = block (map marks ?ss)"
    using m'(2) unfolding cmdline_def region_text by (simp only: length_block_marks proc_args.simps)
  moreover have "list_all (\<lambda>s. CHR 0x00 \<notin> set s) (map marks ?ss)" by (simp add: list_all_iff marks_def)
  ultimately show ?thesis
    using n m'(1) spaced_block [OF assms(3)] spaced_block [of "map marks ?ss"]
    by (simp add: mymain_def scrub_args_def read_cmdline_def read_loop_portions c Let_def
        del: block_Cons proc_args.simps list.map)
qed

theorem mymain_scrubs_all_witness:
  "mymain \<lparr>base = 2000, len = 5\<rparr> demo_stack 4 demo_text =
     Some [''Main from lib'' @ [newline], ''x -y '' @ [newline], ''OK, done.'' @ [newline, newline], ''? ?? '' @ [newline]]"
proof -
  have "process_stack demo_stack 0 (starts 2000 [''x'', ''-y'']) 4"
    by (auto simp: process_stack_def demo_stack_def less_Suc_eq)
  from mymain_scrubs_all [OF this, of demo_text] show ?thesis
    by (simp add: demo_text_def spaced_def marks_def eval_nat_numeral)
qed

end
