(* ===== verification/Secret.thy ===== *)
theory Secret
  imports Start_So
begin

unbundle bit_operations_syntax

text \<open>
  \<^verbatim>\<open>memfd_secret/secret.c\<close>: a program that moves its arguments into memory that the kernel cannot read, and
  shows its command line before and after.

  A process has the contents of its memory, the set of mapped addresses, and the set of addresses backed by secret memory.
    Copying from addresses that are not mapped ends the process. The kernel delivers the command line up to the first
  character in secret memory. Which of the calls fail comes from a list.
\<close>

section \<open>Pages\<close>

definition PAGE_SZ :: u64 where "PAGE_SZ = 4096"

definition ALIGN_up :: "u64 \<Rightarrow> u64 \<Rightarrow> u64" where
  "ALIGN_up x a = (x + (a - 1)) AND NOT (a - 1)"

definition PAGE_ALIGN :: "u64 \<Rightarrow> u64" where
  "PAGE_ALIGN x = ALIGN_up x PAGE_SZ"

definition PAGE_TRUNC :: "u64 \<Rightarrow> u64" where
  "PAGE_TRUNC x = PAGE_ALIGN x - PAGE_SZ"

section \<open>The process\<close>

record sproc =
  contents :: "int \<Rightarrow> char"
  mapped :: "int set"
  secret :: "int set"
  sfaults :: "bool list"

definition sfails :: "sproc \<Rightarrow> bool \<times> sproc" where
  "sfails s = (case sfaults s of [] \<Rightarrow> (False, s) | f # fs \<Rightarrow> (f, s\<lparr>sfaults := fs\<rparr>))"

datatype sstop = Exit_failure | Fault

definition addresses :: "u64 \<Rightarrow> nat \<Rightarrow> int set" where
  "addresses p n = {int (unat p)..<int (unat p) + int n}"

text \<open>
  \<open>protect_argv\<close>. \<open>ptrs\<close> are the pointers of \<open>argv\<close>, of which there is at least one. Both pages are multiples of the
  page size, so that the division is exact. The first \<open>mmap\<close> is not checked, so that its failure is a copy to an
  invalid address; the second is not checked either, and its failure leaves everything as it was.
\<close>

definition protect_argv :: "int list \<Rightarrow> sproc \<Rightarrow> sstop + sproc" where
  "protect_argv ptrs s =
     (case sfails s of
        (True, s) \<Rightarrow> Inl Exit_failure
      | (False, s) \<Rightarrow>
          (case strlen (contents s) (last ptrs) of
             None \<Rightarrow> Inl Fault
           | Some l \<Rightarrow>
               (let first_page = PAGE_TRUNC (of_int (hd ptrs));
                    last_page = PAGE_TRUNC (of_int (last ptrs) + of_nat l);
                    num_pages = of_int (sint (last_page - first_page) div sint PAGE_SZ) + 1;
                    range = addresses first_page (unat (num_pages * PAGE_SZ))
                in case sfails s of
                     (True, s) \<Rightarrow> Inl Exit_failure
                   | (False, s) \<Rightarrow>
                       (case sfails s of
                          (True, s) \<Rightarrow> Inl Fault
                        | (False, s) \<Rightarrow>
                            if \<not> range \<subseteq> mapped s then Inl Fault
                            else
                              (case sfails s of
                                 (True, s) \<Rightarrow> Inr s
                               | (False, s) \<Rightarrow> Inr (s\<lparr>secret := secret s \<union> range\<rparr>))))))"

section \<open>Showing the command line\<close>

text \<open>The result of a \<open>write\<close>: some characters, interrupted, or failed.\<close>

datatype wresult = Written nat | Interrupted | Write_error

fun write_out :: "wresult list \<Rightarrow> string \<Rightarrow> string" where
  "write_out rs [] = []"
| "write_out [] s = s"
| "write_out (Interrupted # rs) s = write_out rs s"
| "write_out (Write_error # rs) s = []"
| "write_out (Written n # rs) s = (if n = 0 then [] else take n s @ write_out rs (drop n s))"

definition blank_zeros :: "string \<Rightarrow> string" where
  "blank_zeros s = map (\<lambda>c. if c = CHR 0x00 then CHR '' '' else c) s"

definition proc_cmdline :: "proc_args \<Rightarrow> sproc \<Rightarrow> string" where
  "proc_cmdline k s = region (contents s) (base k)
     (length (takeWhile (\<lambda>i. base k + int i \<notin> secret s) [0..<len k]))"

text \<open>The lines with the arguments, and what is written of the command line; \<open>ws i\<close> are the results of writing its \<open>i\<close>-th page.\<close>

definition cstring_at :: "(int \<Rightarrow> char) \<Rightarrow> int \<Rightarrow> string option" where
  "cstring_at m p = map_option (region m p) (strlen m p)"

definition print_validation_info ::
  "(nat \<Rightarrow> wresult list) \<Rightarrow> int list \<Rightarrow> proc_args \<Rightarrow> sproc \<Rightarrow> (string list \<times> string) option" where
  "print_validation_info ws ptrs k s = do {
     args \<leftarrow> those (map (cstring_at (contents s)) ptrs);
     let pages = portions 4096 (proc_cmdline k s);
     Some (map (\<lambda>i. ''argv['' @ dec i @ ''] = '' @ args ! i @ [newline]) [0..<length args],
       concat (map (\<lambda>i. write_out (ws i) (blank_zeros (pages ! i))) [0..<length pages]))
   }"

definition secret_main ::
  "(nat \<Rightarrow> wresult list) \<Rightarrow> (nat \<Rightarrow> wresult list) \<Rightarrow> int list \<Rightarrow> proc_args \<Rightarrow> sproc \<Rightarrow>
     ((string list \<times> string) \<times> (sstop + (string list \<times> string) \<times> sproc)) option" where
  "secret_main ws1 ws2 ptrs k s = do {
     before \<leftarrow> print_validation_info ws1 ptrs k s;
     (case protect_argv ptrs s of
        Inl e \<Rightarrow> Some (before, Inl e)
      | Inr s \<Rightarrow> do {
          after \<leftarrow> print_validation_info ws2 ptrs k s;
          Some (before, Inr (after, s))
        })
   }"

section \<open>Pages of addresses\<close>

lemma unat_of_addr: "0 \<le> x \<Longrightarrow> x < 2 ^ 63 \<Longrightarrow> int (unat (of_int x :: u64)) = x"
  by (simp add: unsigned_of_int take_bit_int_eq_self)

lemma unat_PAGE_ALIGN:
  assumes "unat x < 2 ^ 63"
  shows "unat (PAGE_ALIGN x) = (unat x + 4095) div 4096 * 4096"
proof -
  have m: "(4095 :: u64) = mask 12" by (simp add: mask_eq_exp_minus_1)
  have u: "unat (x + 4095) = unat x + 4095"
    using assms by (subst unat_add_no_wrap) simp_all
  have "unat ((x + 4095) AND 4095) = (unat x + 4095) mod 4096"
    using unat_and_mask [of 12 "x + 4095"] by (simp only: m [symmetric] u) simp
  then have "unat ((x + 4095) AND NOT 4095) = (unat x + 4095) - (unat x + 4095) mod 4096"
    by (simp only: unat_and_not u)
  then show ?thesis
    by (simp add: PAGE_ALIGN_def ALIGN_up_def PAGE_SZ_def minus_mod_eq_div_mult)
qed

text \<open>
  \<open>PAGE_TRUNC\<close> gives the page of the address before: for an address at the beginning of a page that is the page before it,
  not, as its comment says, the containing one.
\<close>

lemma unat_PAGE_TRUNC:
  assumes "0 < unat x" "unat x < 2 ^ 63"
  shows "unat (PAGE_TRUNC x) = (unat x - 1) div 4096 * 4096"
proof -
  obtain y where y: "unat x = Suc y" using assms(1) gr0_implies_Suc by blast
  have "(y + 4096) div 4096 = Suc (y div 4096)" by simp
  then have d: "(unat x + 4095) div 4096 = Suc ((unat x - 1) div 4096)" by (simp add: y)
  have "unat (PAGE_SZ) \<le> unat (PAGE_ALIGN x)"
    unfolding unat_PAGE_ALIGN [OF assms(2)] d by (simp add: PAGE_SZ_def)
  then have "unat (PAGE_TRUNC x) = unat (PAGE_ALIGN x) - unat PAGE_SZ"
    unfolding PAGE_TRUNC_def by (intro unat_sub_le)
  then show ?thesis
    unfolding unat_PAGE_ALIGN [OF assms(2)] d by (simp add: PAGE_SZ_def)
qed

lemma PAGE_TRUNC_addr:
  assumes "0 < x" "x < 2 ^ 63"
  shows "int (unat (PAGE_TRUNC (of_int x))) = (x - 1) div 4096 * 4096"
proof -
  note u = unat_of_addr [of x]
  have "int (unat (of_int x :: u64)) < int (2 ^ 63)" using u assms by simp
  then have "unat (of_int x :: u64) < 2 ^ 63" by (simp only: of_nat_less_iff)
  moreover have "0 < unat (of_int x :: u64)" using u assms by linarith
  ultimately have x: "0 < unat (of_int x :: u64)" "unat (of_int x :: u64) < 2 ^ 63" by blast+
  from unat_PAGE_TRUNC [OF x] have "int (unat (PAGE_TRUNC (of_int x))) = int ((unat (of_int x :: u64) - 1) div 4096 * 4096)" by simp
  also have "\<dots> = (int (unat (of_int x :: u64)) - 1) div 4096 * 4096"
    using x(1) by (simp add: zdiv_int of_nat_diff)
  also have "\<dots> = (x - 1) div 4096 * 4096" using u assms by simp
  finally show ?thesis .
qed

text \<open>The pages from that of \<open>p\<close> to that of \<open>q\<close>, each of them the page of the address before.\<close>

definition page_range :: "int \<Rightarrow> int \<Rightarrow> int set" where
  "page_range p q = {(p - 1) div 4096 * 4096..<(q - 1) div 4096 * 4096 + 4096}"

lemma in_page_range:
  assumes "p \<le> x" "x < q"
  shows "x \<in> page_range p q"
proof -
  have "(p - 1) div 4096 * 4096 \<le> p - 1" by simp
  moreover have "q - 1 < (q - 1) div 4096 * 4096 + 4096" by (simp add: algebra_simps)
  ultimately show ?thesis using assms by (simp add: page_range_def)
qed

lemma protected_range:
  assumes "0 < p" "p \<le> q" "q < 2 ^ 62"
  shows "addresses (PAGE_TRUNC (of_int p))
     (unat ((of_int (sint (PAGE_TRUNC (of_int q) - PAGE_TRUNC (of_int p)) div sint PAGE_SZ) + 1) * PAGE_SZ)) = page_range p q"
proof -
  let ?f = "PAGE_TRUNC (of_int p)" and ?l = "PAGE_TRUNC (of_int q)"
  have f: "int (unat ?f) = (p - 1) div 4096 * 4096" and l: "int (unat ?l) = (q - 1) div 4096 * 4096"
    using PAGE_TRUNC_addr [of p] PAGE_TRUNC_addr [of q] assms by simp_all
  define i where "i = nat ((p - 1) div 4096)"
  define j where "j = nat ((q - 1) div 4096)"
  have i: "int i = (p - 1) div 4096" and j: "int j = (q - 1) div 4096"
    using assms by (simp_all add: i_def j_def)
  have "int (unat ?f) = int (i * 4096)" "int (unat ?l) = int (j * 4096)" using f l i j by simp_all
  then have fl: "unat ?f = i * 4096" "unat ?l = j * 4096" by (simp_all only: of_nat_eq_iff)
  have le: "i \<le> j" using assms by (simp add: i_def j_def nat_mono zdiv_mono1)
  have jb: "j < 2 ^ 50" using assms(3) j by simp
  have d: "unat (?l - ?f) = (j - i) * 4096" using le fl by (subst unat_sub_le) (simp_all add: diff_mult_distrib)
  then have "sint (?l - ?f) = int ((j - i) * 4096)" using jb by (subst sint_u64_small) simp_all
  then have n: "of_int (sint (?l - ?f) div sint PAGE_SZ) = (of_nat (j - i) :: u64)" by (simp add: PAGE_SZ_def)
  have "unat (of_nat (j - i) + 1 :: u64) = j - i + 1"
    using jb by (subst unat_add_no_wrap) (simp_all add: unsigned_of_nat take_bit_nat_eq_self)
  then have "unat (of_int (sint (?l - ?f) div sint PAGE_SZ) + 1 :: u64) = j - i + 1" by (simp only: n)
  then have "unat ((of_int (sint (?l - ?f) div sint PAGE_SZ) + 1) * PAGE_SZ) = (j - i + 1) * 4096"
    using jb by (subst unat_mult_no_wrap) (simp_all add: PAGE_SZ_def)
  then show ?thesis
    using fl i j le by (simp add: addresses_def page_range_def of_nat_diff algebra_simps)
qed

section \<open>What is shown\<close>

definition progressing :: "wresult list \<Rightarrow> bool" where
  "progressing rs = list_all (\<lambda>r. r \<noteq> Write_error \<and> r \<noteq> Written 0) rs"

lemma write_out_all: "progressing rs \<Longrightarrow> write_out rs s = s"
  by (induction rs s rule: write_out.induct) (auto simp: progressing_def)

lemma cstrings_at:
  "text_at m p (block ss) \<Longrightarrow> list_all (\<lambda>s. CHR 0x00 \<notin> set s) ss \<Longrightarrow> those (map (cstring_at m) (starts p ss)) = Some ss"
proof (induction ss arbitrary: p)
  case (Cons s ss)
  have "strlen m p = Some (length s)" using Cons.prems by (intro strlen_text) simp_all
  moreover have "region m p (length s) = s" using Cons.prems(1) by (simp flip: region_text)
  ultimately have "cstring_at m p = Some s" by (simp add: cstring_at_def)
  moreover have "text_at m (p + int (length s) + 1) (block ss)" using Cons.prems(1) by (simp add: add.assoc)
  ultimately show ?case using Cons.IH Cons.prems(2) by simp
qed simp

lemma last_argument:
  "text_at m p (block ss) \<Longrightarrow> list_all (\<lambda>s. CHR 0x00 \<notin> set s) ss \<Longrightarrow> ss \<noteq> [] \<Longrightarrow>
     strlen m (last (starts p ss)) = Some (length (last ss)) \<and>
     last (starts p ss) + int (length (last ss)) = p + int (length (block ss)) - 1"
proof (induction ss arbitrary: p)
  case (Cons s ss)
  show ?case
  proof (cases ss)
    case Nil
    with Cons.prems show ?thesis by (auto intro: strlen_text)
  next
    case ss: (Cons t ts)
    have "text_at m (p + int (length s) + 1) (block ss)" using Cons.prems(1) by (simp add: add.assoc)
    then have "strlen m (last (starts (p + int (length s) + 1) ss)) = Some (length (last ss)) \<and>
        last (starts (p + int (length s) + 1) ss) + int (length (last ss)) = p + int (length s) + 1 + int (length (block ss)) - 1"
      using ss Cons.prems(2) by (intro Cons.IH) simp_all
    then show ?thesis by (simp add: ss)
  qed
qed simp

definition argument_lines :: "string list \<Rightarrow> string list" where
  "argument_lines ss = map (\<lambda>i. ''argv['' @ dec i @ ''] = '' @ ss ! i @ [newline]) [0..<length ss]"

lemma print_validation_info_args:
  assumes "text_at (contents s) p (block ss)" "list_all (\<lambda>s. CHR 0x00 \<notin> set s) ss" "\<And>i. progressing (ws i)"
  shows "print_validation_info ws (starts p ss) k s = Some (argument_lines ss, blank_zeros (proc_cmdline k s))"
proof -
  let ?ps = "portions 4096 (proc_cmdline k s)"
  have "concat (map (\<lambda>i. write_out (ws i) (blank_zeros (?ps ! i))) [0..<length ?ps]) = blank_zeros (concat (map ((!) ?ps) [0..<length ?ps]))"
    using assms(3) by (simp add: write_out_all blank_zeros_def map_concat comp_def)
  also have "\<dots> = blank_zeros (proc_cmdline k s)" by (simp only: map_nth concat_portions)
  finally show ?thesis
    using cstrings_at [OF assms(1,2)] by (simp add: print_validation_info_def argument_lines_def Let_def)
qed

lemma protect_argv_range:
  assumes "text_at (contents s) p (block ss)" "list_all (\<lambda>s. CHR 0x00 \<notin> set s) ss" "ss \<noteq> []" "sfaults s = []"
    and "0 < p" "q = p + int (length (block ss)) - 1" "q < 2 ^ 62" "page_range p q \<subseteq> mapped s"
  shows "protect_argv (starts p ss) s = Inr (s\<lparr>secret := secret s \<union> page_range p q\<rparr>)"
proof -
  note l = last_argument [OF assms(1-3)]
  have "(of_int (last (starts p ss) + int (length (last ss))) :: u64) = of_int q"
    using l assms(6) by (simp only:)
  then have q: "(of_int (last (starts p ss)) + of_nat (length (last ss)) :: u64) = of_int q"
    by (simp only: of_int_add of_int_of_nat_eq)
  have h: "hd (starts p ss) = p" using assms(3) by (cases ss) simp_all
  have "block ss \<noteq> []" using assms(3) by (cases ss) simp_all
  then have "p \<le> q" using assms(6) by (cases "block ss") simp_all
  note r = protected_range [OF assms(5) this assms(7)]
  show ?thesis
    using l assms(4,8) by (simp add: protect_argv_def sfails_def Let_def q h r)
qed

text \<open>
  Without failing calls and with writes that make progress, the program shows its arguments and its command line, then its
  arguments and an empty command line: the kernel no longer reads the arguments, which the program still does. The
  program's name is not empty. With an empty name at the beginning of a page, the page before would have been moved.
\<close>

theorem secret_main_hides:
  assumes "text_at (contents s) p (block ss)" "list_all (\<lambda>s. CHR 0x00 \<notin> set s) ss" "ss \<noteq> []" "hd ss \<noteq> []"
    and "sfaults s = []" "secret s = {}" "0 < p" "q = p + int (length (block ss)) - 1" "q < 2 ^ 62" "page_range p q \<subseteq> mapped s"
    and "\<And>i. progressing (ws1 i)" "\<And>i. progressing (ws2 i)"
  shows "secret_main ws1 ws2 (starts p ss) \<lparr>base = p, len = length (block ss)\<rparr> s =
     Some ((argument_lines ss, spaced ss), Inr ((argument_lines ss, []), s\<lparr>secret := page_range p q\<rparr>))"
proof -
  let ?k = "\<lparr>base = p, len = length (block ss)\<rparr>" and ?s = "s\<lparr>secret := page_range p q\<rparr>"
  have "proc_cmdline ?k s = block ss" using assms(1,6) by (simp add: proc_cmdline_def region_text takeWhile_eq_all_conv [THEN iffD2])
  then have b: "blank_zeros (proc_cmdline ?k s) = spaced ss" using spaced_block [OF assms(2)] by (simp add: blank_zeros_def)
  have "1 < length (block ss)" using assms(3,4) by (cases ss; cases "hd ss") simp_all
  then have "p \<in> page_range p q" using assms(8) by (intro in_page_range) linarith+
  then have "proc_cmdline ?k ?s = []" by (cases "length (block ss)") (simp_all add: proc_cmdline_def region_def upt_conv_Cons del: upt_Suc)
  moreover have "protect_argv (starts p ss) s = Inr ?s"
    using protect_argv_range [OF assms(1-3,5,7-10)] assms(6) by simp
  moreover have "text_at (contents ?s) p (block ss)" using assms(1) by simp
  ultimately show ?thesis
    using print_validation_info_args [of s, OF assms(1,2,11)] print_validation_info_args [of ?s, OF _ assms(2,12)] b
    by (simp add: secret_main_def blank_zeros_def)
qed

end
