(* ===== verification/Deadlock.thy ===== *)
theory Deadlock
  imports C_Stdio
begin

text \<open>
  \<^verbatim>\<open>sigaction_deadlock/deadlock.c\<close>: a handler for \<open>SIGSEGV\<close> that may itself fault.

  The kernel is modelled as its manual pages describe it: while the handler runs the signal is blocked, unless
  \<open>SA_NODEFER\<close> was given; a fault while it is blocked, or when there is no stack left for the handler,
  ends the process. The stack has room for a given number of calls of the handler.
\<close>

section \<open>State\<close>

record fault_state =
  segfault_in_segfault :: bool
  use_static_check :: bool
  is_first :: bool
  nodefer :: bool
  blocked :: bool
  written :: "string list"

datatype ending = Exit int | Killed_by_SIGSEGV

definition initial_fault_state :: fault_state where
  "initial_fault_state = \<lparr>segfault_in_segfault = False, use_static_check = False, is_first = True, nodefer = False,
     blocked = False, written = []\<rparr>"

text \<open>The messages are written with \<open>sizeof\<close>, which counts their final zero.\<close>

definition put :: "string \<Rightarrow> fault_state \<Rightarrow> fault_state" where
  "put msg s = s\<lparr>written := written s @ [msg @ [newline, CHR 0x00]]\<rparr>"

section \<open>The handler\<close>

text \<open>\<open>do_segfault\<close> does not return to its caller: what happens instead is the argument.\<close>

definition segfault_handler :: "(fault_state \<Rightarrow> ending \<times> fault_state) \<Rightarrow> fault_state \<Rightarrow> ending \<times> fault_state" where
  "segfault_handler do_segfault s =
     (if use_static_check s \<and> \<not> is_first s then (Exit 1, put ''Static check failed'' s)
      else
        (let s = (if use_static_check s \<and> is_first s then put ''Static check'' (s\<lparr>is_first := False\<rparr>) else s);
             s = put ''Segmentation fault'' s
         in if segfault_in_segfault s then do_segfault (put ''Double fault'' s)
            else (Exit 1, put ''Exiting'' s)))"

text \<open>The store to address zero, with room for \<open>n\<close> more handlers on the stack.\<close>

fun do_segfault :: "nat \<Rightarrow> fault_state \<Rightarrow> ending \<times> fault_state" where
  "do_segfault 0 s = (Killed_by_SIGSEGV, s)"
| "do_segfault (Suc n) s =
     (if blocked s then (Killed_by_SIGSEGV, s)
      else segfault_handler (do_segfault n) (s\<lparr>blocked := \<not> nodefer s\<rparr>))"

section \<open>The program\<close>

definition user_wants_thing :: "string list \<Rightarrow> string list \<Rightarrow> bool" where
  "user_wants_thing args patterns = list_ex (\<lambda>a. list_ex (\<lambda>p. a = p) patterns) (tl args)"

definition user_needs_help :: "string list \<Rightarrow> bool" where
  "user_needs_help args = user_wants_thing args [''help'', ''-help'', ''--help'', ''-h'', ''?'']"

definition user_wants_recurse :: "string list \<Rightarrow> bool" where
  "user_wants_recurse args = user_wants_thing args [''recurse'', ''-recurse'', ''--recurse'', ''-r'']"

definition user_wants_nodefer :: "string list \<Rightarrow> bool" where
  "user_wants_nodefer args = user_wants_thing args [''nodefer'', ''-nodefer'', ''--nodefer'', ''-n'']"

definition user_wants_static_check :: "string list \<Rightarrow> bool" where
  "user_wants_static_check args = user_wants_thing args [''static'', ''-static'', ''--static'', ''-s'']"

definition print_help :: "fault_state \<Rightarrow> fault_state" where
  "print_help s = put ''Usage: deadlock [help|nodefer|recurse|static]'' s"

definition deadlock_main :: "nat \<Rightarrow> string list \<Rightarrow> ending \<times> fault_state" where
  "deadlock_main n args =
     (let s = initial_fault_state
      in if user_needs_help args then (Exit 0, print_help s)
         else
           (let s = (if user_wants_nodefer args then s\<lparr>nodefer := True\<rparr> else s);
                s = (if user_wants_recurse args then s\<lparr>segfault_in_segfault := True\<rparr> else s);
                s = (if user_wants_static_check args then s\<lparr>use_static_check := True\<rparr> else s)
            in do_segfault n s))"

section \<open>Properties\<close>

definition line :: "string \<Rightarrow> string" where
  "line msg = msg @ [newline, CHR 0x00]"

lemma written_put [simp]: "written (put msg s) = written s @ [line msg]"
  by (simp add: put_def line_def)

lemma put_frame [simp]:
  "segfault_in_segfault (put msg s) = segfault_in_segfault s" "use_static_check (put msg s) = use_static_check s"
  "is_first (put msg s) = is_first s" "nodefer (put msg s) = nodefer s" "blocked (put msg s) = blocked s"
  by (simp_all add: put_def)

text \<open>Without any protection the handlers pile up until the stack is used up.\<close>

lemma unprotected_recursion:
  assumes "segfault_in_segfault s" "\<not> use_static_check s" "nodefer s" "\<not> blocked s"
  shows "fst (do_segfault n s) = Killed_by_SIGSEGV \<and>
     written (snd (do_segfault n s)) = written s @ concat (replicate n [line ''Segmentation fault'', line ''Double fault''])"
  using assms
proof (induction n arbitrary: s)
  case (Suc n)
  let ?s = "put ''Double fault'' (put ''Segmentation fault'' (s\<lparr>blocked := False\<rparr>))"
  have "do_segfault (Suc n) s = do_segfault n ?s"
    using Suc.prems by (simp add: segfault_handler_def Let_def)
  with Suc.IH [of ?s] Suc.prems show ?case by simp
qed simp

text \<open>
  C23. All endings of the program, for every command line and every stack with room for two handlers: with a request for help it prints the usage and exits with zero; without
  recursion the handler runs once and exits with one; with recursion the second fault kills the process inside the handler,
  unless \<open>SA_NODEFER\<close> was asked for, when the static check stops it in the second handler, and without
  that check the handlers fill the stack.
\<close>

theorem deadlock_main_outcome:
  "case deadlock_main (Suc (Suc n)) args of (e, s) \<Rightarrow>
     (let checked = (if user_wants_static_check args then [line ''Static check''] else [])
      in if user_needs_help args then e = Exit 0 \<and> written s = [line ''Usage: deadlock [help|nodefer|recurse|static]'']
         else if \<not> user_wants_recurse args
         then e = Exit 1 \<and> written s = checked @ [line ''Segmentation fault'', line ''Exiting'']
         else if \<not> user_wants_nodefer args
         then e = Killed_by_SIGSEGV \<and> written s = checked @ [line ''Segmentation fault'', line ''Double fault'']
         else if user_wants_static_check args
         then e = Exit 1 \<and> written s = [line ''Static check'', line ''Segmentation fault'', line ''Double fault'', line ''Static check failed'']
         else e = Killed_by_SIGSEGV \<and> written s = concat (replicate (Suc (Suc n)) [line ''Segmentation fault'', line ''Double fault'']))"
proof (cases "user_wants_recurse args \<and> user_wants_nodefer args \<and> \<not> user_wants_static_check args \<and> \<not> user_needs_help args")
  case True
  let ?s = "initial_fault_state\<lparr>nodefer := True, segfault_in_segfault := True\<rparr>"
  have "deadlock_main (Suc (Suc n)) args = do_segfault (Suc (Suc n)) ?s" using True by (simp add: deadlock_main_def Let_def)
  then show ?thesis
    using unprotected_recursion [of ?s "Suc (Suc n)"] True by (simp add: initial_fault_state_def split_beta)
next
  case False
  then show ?thesis
    by (auto simp: deadlock_main_def initial_fault_state_def print_help_def segfault_handler_def Let_def)
qed

end
