(* ===== verification/C_Double.thy ===== *)
theory C_Double
  imports Complex_Main Prelude
begin

text \<open>
  Numbers of type \<open>double\<close>, as far as the programs use them. A finite number is the rational it stands for (zero
  has no sign here); every operation computes the exact result and then rounds it.
  The rounding, which also decides when a result is too large, is a parameter of the operations, and
  what is proved holds for all roundings unless a theorem says which ones it is about.
\<close>

section \<open>Numbers and their order\<close>

datatype double = NInf | Fin rat | PInf | NaN

type_synonym rounding = "rat \<Rightarrow> double"

text \<open>The comparison of the language: false as soon as one side is not a number.\<close>

fun d_lt :: "double \<Rightarrow> double \<Rightarrow> bool" where
  "d_lt NaN _ = False"
| "d_lt _ NaN = False"
| "d_lt NInf y = (y \<noteq> NInf)"
| "d_lt (Fin a) (Fin b) = (a < b)"
| "d_lt (Fin a) y = (y = PInf)"
| "d_lt PInf _ = False"

text \<open>A linear order that agrees with it on numbers, with what is not a number at the end.\<close>

instantiation double :: linorder
begin

definition less_double :: "double \<Rightarrow> double \<Rightarrow> bool" where
  "less_double x y \<longleftrightarrow> d_lt x y \<or> x \<noteq> NaN \<and> y = NaN"

definition less_eq_double :: "double \<Rightarrow> double \<Rightarrow> bool" where
  "less_eq_double x y \<longleftrightarrow> x = y \<or> x < (y :: double)"

instance
proof
  fix x y z :: double
  show "x < y \<longleftrightarrow> x \<le> y \<and> \<not> y \<le> x"
    by (cases x; cases y) (auto simp: less_double_def less_eq_double_def)
  show "x \<le> x" by (simp add: less_eq_double_def)
  show "x \<le> y \<Longrightarrow> y \<le> z \<Longrightarrow> x \<le> z"
    by (cases x; cases y; cases z) (auto simp: less_double_def less_eq_double_def)
  show "x \<le> y \<Longrightarrow> y \<le> x \<Longrightarrow> x = y"
    by (cases x; cases y) (auto simp: less_double_def less_eq_double_def)
  show "x \<le> y \<or> y \<le> x"
    by (cases x; cases y) (auto simp: less_double_def less_eq_double_def)
qed

end

lemma d_lt_less: "y \<noteq> NaN \<Longrightarrow> d_lt x y \<longleftrightarrow> x < y"
  by (simp add: less_double_def)

lemma Fin_le [simp]: "Fin a \<le> Fin b \<longleftrightarrow> a \<le> b" "Fin a < Fin b \<longleftrightarrow> a < b"
  by (auto simp: less_eq_double_def less_double_def)

section \<open>Arithmetic\<close>

fun d_neg :: "double \<Rightarrow> double" where
  "d_neg NaN = NaN" | "d_neg NInf = PInf" | "d_neg PInf = NInf" | "d_neg (Fin a) = Fin (- a)"

fun d_abs :: "double \<Rightarrow> double" where
  "d_abs NaN = NaN" | "d_abs (Fin a) = Fin \<bar>a\<bar>" | "d_abs _ = PInf"

fun d_add :: "rounding \<Rightarrow> double \<Rightarrow> double \<Rightarrow> double" where
  "d_add r (Fin a) (Fin b) = r (a + b)"
| "d_add r (Fin a) y = y"
| "d_add r x (Fin b) = x"
| "d_add r PInf PInf = PInf"
| "d_add r NInf NInf = NInf"
| "d_add r _ _ = NaN"

definition d_sub :: "rounding \<Rightarrow> double \<Rightarrow> double \<Rightarrow> double" where
  "d_sub r x y = d_add r x (d_neg y)"

text \<open>An infinity with the sign of the product of two signs.\<close>

fun d_inf :: "rat \<Rightarrow> double" where
  "d_inf a = (if a = 0 then NaN else if 0 < a then PInf else NInf)"

fun d_sign :: "double \<Rightarrow> rat" where
  "d_sign (Fin a) = sgn a" | "d_sign PInf = 1" | "d_sign NInf = -1" | "d_sign NaN = 0"

fun d_mul :: "rounding \<Rightarrow> double \<Rightarrow> double \<Rightarrow> double" where
  "d_mul r (Fin a) (Fin b) = r (a * b)"
| "d_mul r x y = d_inf (d_sign x * d_sign y)"

fun d_div :: "rounding \<Rightarrow> double \<Rightarrow> double \<Rightarrow> double" where
  "d_div r (Fin a) (Fin b) = (if b = 0 then d_inf a else r (a / b))"
| "d_div r NaN y = NaN"
| "d_div r x NaN = NaN"
| "d_div r (Fin a) y = Fin 0"
| "d_div r x (Fin b) = d_inf (d_sign x * (if b = 0 then 1 else sgn b))"
| "d_div r x y = NaN"

text \<open>\<open>std::max\<close> and \<open>std::clamp\<close>.\<close>

definition d_max :: "double \<Rightarrow> double \<Rightarrow> double" where
  "d_max x y = (if d_lt x y then y else x)"

definition d_clamp :: "double \<Rightarrow> double \<Rightarrow> double \<Rightarrow> double" where
  "d_clamp v lo hi = (if d_lt v lo then lo else if d_lt hi v then hi else v)"

lemma d_clamp_range: "lo \<le> hi \<Longrightarrow> d_clamp v (Fin lo) (Fin hi) = NaN \<and> v = NaN \<or> (\<exists>q. d_clamp v (Fin lo) (Fin hi) = Fin q \<and> lo \<le> q \<and> q \<le> hi)"
  by (cases v) (auto simp: d_clamp_def not_less)

section \<open>Conversions\<close>

definition d_of_int :: "rounding \<Rightarrow> int \<Rightarrow> double" where
  "d_of_int r i = r (of_int i)"

definition d_of_u64 :: "rounding \<Rightarrow> u64 \<Rightarrow> double" where
  "d_of_u64 r x = d_of_int r (uint x)"

definition d_trunc :: "rat \<Rightarrow> int" where
  "d_trunc a = (if 0 \<le> a then \<lfloor>a\<rfloor> else \<lceil>a\<rceil>)"

text \<open>Conversions to integers cut off the fraction; out of range they are undefined.\<close>

fun d_to_u64 :: "double \<Rightarrow> u64 option" where
  "d_to_u64 (Fin a) = (if 0 \<le> d_trunc a \<and> d_trunc a < 2 ^ 64 then Some (of_int (d_trunc a)) else None)"
| "d_to_u64 _ = None"

fun d_to_int64 :: "double \<Rightarrow> int option" where
  "d_to_int64 (Fin a) = (if - (2 ^ 63) \<le> d_trunc a \<and> d_trunc a < 2 ^ 63 then Some (d_trunc a) else None)"
| "d_to_int64 _ = None"

end
