(* ===== verification/Cycle_Counter.thy ===== *)
theory Cycle_Counter
  imports C_Double "HOL-Library.Monad_Syntax" "HOL-Library.Multiset"
begin

unbundle bit_operations_syntax

text \<open>
  \<^verbatim>\<open>tsc_time/include/accounting/cycle_counter.hpp\<close>: the processor's cycle counter, and its calibration
  against the wall clock. The counter of an x86 processor delivers two halves of 32 bits. The readings of
  counter and clock (in nanoseconds) are sequences; a wait for a clock that does not advance does not return.
\<close>

section \<open>Reading the counter\<close>

record hw =
  tsc :: "nat \<Rightarrow> u32 \<times> u32"
  tsc_reads :: nat
  wall :: "nat \<Rightarrow> int"
  wall_reads :: nat

definition read_cycles :: "hw \<Rightarrow> u64 \<times> hw" where
  "read_cycles m = (case tsc m (tsc_reads m) of (low, high) \<Rightarrow>
     (push_bit 32 (ucast high) OR ucast low, m\<lparr>tsc_reads := Suc (tsc_reads m)\<rparr>))"

definition wall_now :: "hw \<Rightarrow> int \<times> hw" where
  "wall_now m = (wall m (wall_reads m), m\<lparr>wall_reads := Suc (wall_reads m)\<rparr>)"

section \<open>Calibration\<close>

text \<open>\<open>duration_cast\<close> cuts towards zero; the comparison with the unsigned duration is one of unsigned numbers.\<close>

definition to_us :: "int \<Rightarrow> int" where
  "to_us ns = (if 0 \<le> ns then ns div 1000 else - (- ns div 1000))"

partial_function (option) wait_until :: "u64 \<Rightarrow> int \<Rightarrow> int \<Rightarrow> hw \<Rightarrow> (int \<times> hw) option" where
  "wait_until duration_us start_time now m =
     (if (of_int (to_us (now - start_time)) :: u64) < duration_us
      then (case wall_now m of (now, m) \<Rightarrow> wait_until duration_us start_time now m)
      else Some (now, m))"

definition take_sample :: "rounding \<Rightarrow> u64 \<Rightarrow> hw \<Rightarrow> (double \<times> hw) option" where
  "take_sample r duration_us m =
     (case wall_now m of (start_time, m) \<Rightarrow>
      case read_cycles m of (start_cycles, m) \<Rightarrow>
      case wall_now m of (now, m) \<Rightarrow> do {
        (now, m) \<leftarrow> wait_until duration_us start_time now m;
        (case read_cycles m of (end_cycles, m) \<Rightarrow>
           (let elapsed_ns = d_of_int r (now - start_time);
                elapsed_cycles = end_cycles - start_cycles
            in Some (d_div r (d_add r (d_of_u64 r elapsed_cycles) (Fin 0)) elapsed_ns, m)))
      })"

fun take_samples :: "rounding \<Rightarrow> u64 \<Rightarrow> nat \<Rightarrow> hw \<Rightarrow> (double list \<times> hw) option" where
  "take_samples r duration_us 0 m = Some ([], m)"
| "take_samples r duration_us (Suc n) m = do {
     (x, m) \<leftarrow> take_sample r duration_us m;
     (xs, m) \<leftarrow> take_samples r duration_us n m;
     Some (x # xs, m)
   }"

record cycle_counter =
  cycles_per_ns :: double
  is_calibrated :: bool
  initialized :: bool

definition new_counter :: cycle_counter where
  "new_counter = \<lparr>cycles_per_ns = Fin 0, is_calibrated = False, initialized = False\<rparr>"

text \<open>
  The middle of the sorted samples, or the mean of the two in the middle. Sorting is undefined when
  a sample is not a number, and so is reading the middle of no samples.
\<close>

definition median :: "rounding \<Rightarrow> double list \<Rightarrow> double option" where
  "median r xs =
     (if NaN \<in> set xs \<or> xs = [] then None
      else
        (let samples = sort xs; n = length xs
         in Some (if even n then d_div r (d_add r (samples ! (n div 2)) (samples ! (n div 2 - 1))) (Fin 2) else samples ! (n div 2))))"

definition calibrate :: "rounding \<Rightarrow> u64 \<Rightarrow> nat \<Rightarrow> cycle_counter \<Rightarrow> hw \<Rightarrow> (cycle_counter \<times> hw) option" where
  "calibrate r duration_us num_samples c m = do {
     (samples, m) \<leftarrow> take_samples r duration_us num_samples m;
     cpn \<leftarrow> median r samples;
     Some (c\<lparr>cycles_per_ns := cpn, is_calibrated := True\<rparr>, m)
   }"

section \<open>The public functions\<close>

definition cycles_to_ns :: "rounding \<Rightarrow> cycle_counter \<Rightarrow> u64 \<Rightarrow> u64 option" where
  "cycles_to_ns r c cycles =
     (if \<not> is_calibrated c then Some 0 else d_to_u64 (d_div r (d_of_u64 r cycles) (cycles_per_ns c)))"

definition initialize :: "rounding \<Rightarrow> cycle_counter \<Rightarrow> hw \<Rightarrow> (bool \<times> cycle_counter \<times> hw) option" where
  "initialize r c m =
     (if \<not> initialized c
      then do {
        (c, m) \<leftarrow> calibrate r 100 25 (c\<lparr>initialized := True\<rparr>) m;
        Some (is_calibrated c, c, m)
      }
      else Some (is_calibrated c, c, m))"

section \<open>Lemmas\<close>

lemma unat_read_cycles:
  assumes "tsc m (tsc_reads m) = (low, high)"
  shows "unat (fst (read_cycles m)) = 2 ^ 32 * unat high + unat low"
proof -
  have "unat (ucast high * 4294967296 :: u64) = unat (ucast high :: u64) * unat (4294967296 :: u64)"
    using unat_u32_lt [of high] by (intro unat_mult_no_wrap) simp
  then have "unat (push_bit 32 (ucast high) :: u64) = 2 ^ 32 * unat high"
    by (simp add: push_bit_eq_mult)
  moreover have "push_bit 32 (ucast high :: u64) AND ucast low = 0"
    by (rule bit_word_eqI) (auto simp: bit_simps dest: bit_imp_le_length)
  then have "push_bit 32 (ucast high :: u64) OR ucast low = push_bit 32 (ucast high) + ucast low"
    by (simp add: disjunctive_add_eq_or)
  moreover have "2 ^ 32 * unat high + unat low < 2 ^ 64"
  proof -
    have "unat high \<le> 4294967295" "unat low \<le> 4294967295" using unat_u32_lt [of high] unat_u32_lt [of low] by linarith+
    then show ?thesis by simp
  qed
  then have "unat (push_bit 32 (ucast high) + ucast low :: u64) = unat (push_bit 32 (ucast high) :: u64) + unat (ucast low :: u64)"
    using calculation(1) by (intro unat_add_no_wrap) simp
  ultimately show ?thesis
    using assms by (simp add: read_cycles_def)
qed

text \<open>A sorted list has at least its first elements below, and its last elements above, any of its elements.\<close>

lemma sorted_nth_counts:
  assumes "sorted s" "i < length s"
  shows "i < length (filter (\<lambda>x. x \<le> s ! i) s)" "length s - i \<le> length (filter (\<lambda>x. s ! i \<le> x) s)"
proof -
  have "filter (\<lambda>x. x \<le> s ! i) (take (Suc i) s) = take (Suc i) s"
    using assms by (auto simp: filter_id_conv in_set_conv_nth sorted_nth_mono)
  then have "length (filter (\<lambda>x. x \<le> s ! i) (take (Suc i) s @ drop (Suc i) s)) \<ge> Suc i"
    using assms(2) by (simp del: append_take_drop_id)
  then show "i < length (filter (\<lambda>x. x \<le> s ! i) s)" by simp
  have "filter (\<lambda>x. s ! i \<le> x) (drop i s) = drop i s"
    using assms by (auto simp: filter_id_conv in_set_conv_nth sorted_nth_mono)
  then have "length (filter (\<lambda>x. s ! i \<le> x) (take i s @ drop i s)) \<ge> length s - i"
    by (simp del: append_take_drop_id)
  then show "length s - i \<le> length (filter (\<lambda>x. s ! i \<le> x) s)" by simp
qed

lemma length_filter_sort: "length (filter P (sort xs)) = length (filter P xs)"
  by (metis mset_filter mset_sort size_mset)

lemma median_odd:
  assumes "NaN \<notin> set xs" "odd (length xs)"
  shows "\<exists>x. median r xs = Some x \<and> x \<in> set xs \<and>
     length xs div 2 < length (filter (\<lambda>y. y \<le> x) xs) \<and> length xs div 2 < length (filter (\<lambda>y. x \<le> y) xs)"
proof -
  let ?s = "sort xs" and ?i = "length xs div 2"
  have ne: "xs \<noteq> []" using assms(2) by auto
  then have i: "?i < length ?s" by simp
  have "length xs - ?i = Suc ?i" using assms(2) by presburger
  with sorted_nth_counts [OF sorted_sort i]
  have "?i < length (filter (\<lambda>y. y \<le> ?s ! ?i) ?s)" "?i < length (filter (\<lambda>y. ?s ! ?i \<le> y) ?s)" by simp_all
  moreover have "?s ! ?i \<in> set xs" using nth_mem [OF i] by simp
  ultimately show ?thesis
    using assms ne unfolding length_filter_sort by (auto simp: median_def Let_def)
qed

section \<open>Calibration returns\<close>

text \<open>What is used of the rounding: it never makes up an error, and keeps zero and the rough size of numbers up to \<open>2 ^ 64\<close>.\<close>

definition good_rounding :: "rounding \<Rightarrow> bool" where
  "good_rounding r \<longleftrightarrow> (\<forall>q. r q \<noteq> NaN) \<and>
     (\<forall>q. \<bar>q\<bar> \<le> 2 ^ 64 \<longrightarrow> (\<exists>q'. r q = Fin q' \<and> \<bar>q'\<bar> \<le> 2 ^ 64 \<and> (q = 0 \<longrightarrow> q' = 0) \<and> (1 \<le> \<bar>q\<bar> \<longrightarrow> 1 \<le> \<bar>q'\<bar>)))"

lemma good_roundingE:
  assumes "good_rounding r" "\<bar>q\<bar> \<le> 2 ^ 64"
  obtains q' where "r q = Fin q'" "\<bar>q'\<bar> \<le> 2 ^ 64" "q = 0 \<Longrightarrow> q' = 0" "1 \<le> \<bar>q\<bar> \<Longrightarrow> 1 \<le> \<bar>q'\<bar>"
  using assms unfolding good_rounding_def by blast

text \<open>The clock never goes back, never jumps by \<open>2 ^ 62\<close> nanoseconds or more, and always goes on.\<close>

definition good_wall :: "(nat \<Rightarrow> int) \<Rightarrow> bool" where
  "good_wall w \<longleftrightarrow> (\<forall>i. 0 \<le> w (Suc i) - w i \<and> w (Suc i) - w i < 2 ^ 62) \<and> (\<forall>i. \<exists>n. w i + 100000 \<le> w (i + n))"

lemma to_us_less:
  assumes "0 \<le> d" "d < 2 ^ 63"
  shows "(of_int (to_us d) :: u64) < 100 \<longleftrightarrow> d < 100000"
proof -
  have "unat (of_int (to_us d) :: u64) = nat (d div 1000)"
    using assms by (simp add: to_us_def unsigned_of_int take_bit_int_eq_self nat_less_iff)
  then show ?thesis using assms(1) by (simp add: word_less_nat_alt) linarith
qed

lemma wait_until_returns:
  assumes "good_wall (wall m)" "wall_reads m = Suc j" "0 \<le> wall m j - st" "wall m j - st < 2 ^ 63"
    and "st + 100000 \<le> wall m (j + n)"
  shows "\<exists>now m'. wait_until 100 st (wall m j) m = Some (now, m') \<and> wall m' = wall m \<and> 100000 \<le> now - st \<and> now - st < 2 ^ 63"
  using assms
proof (induction n arbitrary: j m)
  case 0
  then show ?case using to_us_less [of "wall m j - st"] by (subst wait_until.simps) simp
next
  case (Suc n)
  let ?m = "m\<lparr>wall_reads := Suc (Suc j)\<rparr>"
  note less = to_us_less [OF Suc.prems(3,4)]
  show ?case
  proof (cases "wall m j - st < 100000")
    case True
    have "0 \<le> wall m (Suc j) - wall m j" "wall m (Suc j) - wall m j < 2 ^ 62" using Suc.prems(1) by (auto simp: good_wall_def)
    then have "0 \<le> wall ?m (Suc j) - st" "wall ?m (Suc j) - st < 2 ^ 63" using True Suc.prems(3) by simp_all
    moreover have "st + 100000 \<le> wall ?m (Suc j + n)" "good_wall (wall ?m)" "wall_reads ?m = Suc (Suc j)" using Suc.prems(1,5) by simp_all
    ultimately obtain now m' where "wait_until 100 st (wall ?m (Suc j)) ?m = Some (now, m')" "wall m' = wall ?m"
        "100000 \<le> now - st" "now - st < 2 ^ 63"
      using Suc.IH [of ?m "Suc j"] by blast
    moreover have "wait_until 100 st (wall m j) m = wait_until 100 st (wall m (Suc j)) ?m"
      using True less Suc.prems(2) by (subst wait_until.simps) (simp add: wall_now_def)
    ultimately show ?thesis by simp
  next
    case False
    then show ?thesis using less Suc.prems(4) by (subst wait_until.simps) simp
  qed
qed

lemma take_sample_returns:
  assumes "good_rounding r" "good_wall (wall m)"
  shows "\<exists>x m'. take_sample r 100 m = Some (x, m') \<and> x \<noteq> NaN \<and> wall m' = wall m"
proof -
  let ?i = "wall_reads m"
  let ?m = "m\<lparr>tsc_reads := Suc (tsc_reads m), wall_reads := Suc (Suc ?i)\<rparr>"
  obtain c0 where c0: "read_cycles (m\<lparr>wall_reads := Suc ?i\<rparr>) = (c0, m\<lparr>wall_reads := Suc ?i, tsc_reads := Suc (tsc_reads m)\<rparr>)"
    by (cases "tsc m (tsc_reads m)") (auto simp: read_cycles_def)
  obtain n where n: "wall m ?i + 100000 \<le> wall m (?i + n)" using assms(2) by (auto simp: good_wall_def)
  then have n1: "wall m ?i + 100000 \<le> wall m (Suc ?i + (n - 1))" by (cases n) auto
  have st: "0 \<le> wall m (Suc ?i) - wall m ?i" "wall m (Suc ?i) - wall m ?i < 2 ^ 62" using assms(2) by (auto simp: good_wall_def)
  then obtain now m1 where w1: "wait_until 100 (wall m ?i) (wall m (Suc ?i)) ?m = Some (now, m1)" "wall m1 = wall m"
      "100000 \<le> now - wall m ?i" "now - wall m ?i < 2 ^ 63"
    using wait_until_returns [of ?m "Suc ?i" "wall m ?i" "n - 1"] assms(2) n1 by auto
  obtain c1 where c1: "read_cycles m1 = (c1, m1\<lparr>tsc_reads := Suc (tsc_reads m1)\<rparr>)"
    by (cases "tsc m1 (tsc_reads m1)") (auto simp: read_cycles_def)
  let ?d = "of_int (now - wall m ?i) :: rat"
  have "(100000 :: rat) \<le> ?d" "?d \<le> 2 ^ 63"
    using w1(3,4) by (metis of_int_le_iff of_int_numeral) (metis less_imp_le of_int_le_iff of_int_numeral of_int_power w1(4))
  then have "\<bar>?d\<bar> \<le> 2 ^ 64" "1 \<le> \<bar>?d\<bar>" by simp_all
  with good_roundingE [OF assms(1)] obtain d where d: "r ?d = Fin d" "1 \<le> \<bar>d\<bar>" by metis
  have "(of_int (uint (c1 - c0)) :: rat) \<le> of_int (2 ^ 64)"
    using uint_lt2p [of "c1 - c0"] by (intro of_int_le_iff [THEN iffD2]) simp
  moreover have "0 \<le> (of_int (uint (c1 - c0)) :: rat)" by (simp only: of_int_0_le_iff uint_ge_0)
  ultimately have "\<bar>of_int (uint (c1 - c0)) :: rat\<bar> \<le> 2 ^ 64" by (simp only: abs_of_nonneg) simp
  then obtain a where a: "r (of_int (uint (c1 - c0))) = Fin a" "\<bar>a\<bar> \<le> 2 ^ 64"
    using good_roundingE [OF assms(1)] by metis
  then obtain b where b: "r (a + 0) = Fin b" using good_roundingE [OF assms(1), of "a + 0"] by auto
  have "d_div r (d_add r (d_of_u64 r (c1 - c0)) (Fin 0)) (d_of_int r (now - wall m ?i)) = r (b / d)"
    using a(1) b d by (auto simp: d_of_u64_def d_of_int_def)
  moreover have "r (b / d) \<noteq> NaN" using assms(1) by (simp add: good_rounding_def)
  moreover have "take_sample r 100 m = Some (d_div r (d_add r (d_of_u64 r (c1 - c0)) (Fin 0)) (d_of_int r (now - wall m ?i)),
      m1\<lparr>tsc_reads := Suc (tsc_reads m1)\<rparr>)"
    using c0 c1 w1(1) by (simp add: take_sample_def wall_now_def Let_def)
  ultimately show ?thesis using w1(2) by simp
qed

lemma take_samples_returns:
  assumes "good_rounding r" "good_wall (wall m)"
  shows "\<exists>xs m'. take_samples r 100 n m = Some (xs, m') \<and> NaN \<notin> set xs \<and> length xs = n"
  using assms(2)
proof (induction n arbitrary: m)
  case (Suc n)
  obtain x m1 where x: "take_sample r 100 m = Some (x, m1)" "x \<noteq> NaN" "wall m1 = wall m"
    using take_sample_returns [OF assms(1) Suc.prems] by blast
  with Suc.IH [of m1] Suc.prems show ?case by auto
qed simp

section \<open>Properties\<close>

text \<open>
  C22. The first call of \<open>initialize\<close> returns and calibrates, with a rounding like that of the processor and a clock that
  advances: it takes \<open>25\<close> samples, none of them not a number, and the rate it stores is one of them, with
  at least \<open>13\<close> not above it and \<open>13\<close> not below it. No later call changes the rate or takes another sample.
\<close>

theorem initialize_calibrates_once:
  assumes "good_rounding r" and "good_wall (wall m)" and "\<not> initialized c"
  shows "\<exists>xs c' m'. initialize r c m = Some (True, c', m') \<and> take_samples r 100 25 m = Some (xs, m') \<and>
     length xs = 25 \<and> NaN \<notin> set xs \<and> cycles_per_ns c' \<in> set xs \<and>
     13 \<le> length (filter (\<lambda>x. x \<le> cycles_per_ns c') xs) \<and> 13 \<le> length (filter (\<lambda>x. cycles_per_ns c' \<le> x) xs) \<and>
     (\<forall>m2. initialize r c' m2 = Some (True, c', m2))"
proof -
  obtain xs m' where xs: "take_samples r 100 25 m = Some (xs, m')" "NaN \<notin> set xs" "length xs = 25"
    using take_samples_returns [OF assms(1,2)] by blast
  then obtain x where x: "median r xs = Some x" "x \<in> set xs"
      "12 < length (filter (\<lambda>y. y \<le> x) xs)" "12 < length (filter (\<lambda>y. x \<le> y) xs)"
    using median_odd [OF xs(2), of r] by auto
  let ?c = "c\<lparr>initialized := True, cycles_per_ns := x, is_calibrated := True\<rparr>"
  have "initialize r c m = Some (True, ?c, m')"
    using assms(3) xs(1) x(1) by (simp add: initialize_def calibrate_def)
  moreover have "\<forall>m2. initialize r ?c m2 = Some (True, ?c, m2)" by (simp add: initialize_def)
  ultimately show ?thesis
    using xs x by (intro exI [of _ xs] exI [of _ ?c] exI [of _ m']) auto
qed

lemma good_rounding_exact: "good_rounding Fin"
  by (auto simp: good_rounding_def)

definition demo_hw :: hw where
  "demo_hw = \<lparr>tsc = (\<lambda>n. (of_nat (n * 300000), 7)), tsc_reads = 0, wall = (\<lambda>n. int n * 40000), wall_reads = 0\<rparr>"

theorem initialize_calibrates_once_witness:
  "\<exists>c' m'. initialize Fin new_counter demo_hw = Some (True, c', m') \<and> initialize Fin c' m' = Some (True, c', m')"
proof -
  have "good_wall (wall demo_hw)"
    unfolding good_wall_def demo_hw_def by (auto simp: algebra_simps intro: exI [of _ 3])
  then show ?thesis
    using initialize_calibrates_once [OF good_rounding_exact, of demo_hw new_counter] by (auto simp: new_counter_def)
qed

end
