(* ===== verification/Accounting.thy ===== *)
theory Accounting
  imports Cycle_Counter
begin

text \<open>
  \<^verbatim>\<open>tsc_time/include/accounting/accounting.hpp\<close>: latencies of operations, collected in buckets of growing
  time spans, and a controller that recommends how much to slow down.

  The functions get the reading of the cycle counter they take as the argument \<open>now\<close>, and the
  counter's calibration. A conversion of a number out of range is undefined: \<^const>\<open>None\<close>. The mutex makes the functions atomic, so
  a use of the class is a sequence of calls. One function, \<open>computePIDOutput\<close>, does not compile as it stands: its
  local variable for the latency is initialised with itself, where the member of that name is meant and
  taken here, and it calls \<open>ticksToSec\<close>, which the cycle counter does not have and which is
  a parameter here.
\<close>

section \<open>State\<close>

record config =
  kp :: double
  ki :: double
  kd :: double
  num_buckets :: nat
  coarsening_factor :: double
  base_resolution :: int
  max_history :: int
  target_latency_ms :: double


record bucket =
  sum_latency_ms :: double
  bcount :: u64
  last_update_time :: u64
  time_span :: int

record accounting =
  acfg :: config
  current_latency :: double
  operation_count :: u64
  op_start :: u64
  start_time :: u64
  buckets :: "bucket list"
  last_error :: double
  error_integral :: double
  last_pid_update :: u64
  last_applied_dampening :: double
  last_dampening_timestamp :: u64

record metrics =
  current_latency_ms :: double
  avg_latency_ms_short_term :: double
  avg_latency_ms_long_term :: double
  operations_per_second :: u64
  dampening_magnitude :: double

definition default_config :: "rounding \<Rightarrow> config" where
  "default_config r = \<lparr>kp = r (1 / 2), ki = r (1 / 20), kd = r (1 / 10), num_buckets = 16, coarsening_factor = r 2,
     base_resolution = 10, max_history = 3600000, target_latency_ms = r 1\<rparr>"

definition empty_bucket :: bucket where
  "empty_bucket = \<lparr>sum_latency_ms = Fin 0, bcount = 0, last_update_time = 0, time_span = 0\<rparr>"

section \<open>Construction\<close>

text \<open>\<open>pow\<close> of the mathematical library is a parameter; no bucket at all makes the constructor write outside of the vector.\<close>

definition bucket_span :: "rounding \<Rightarrow> (double \<Rightarrow> double \<Rightarrow> double) \<Rightarrow> config \<Rightarrow> nat \<Rightarrow> int option" where
  "bucket_span r pow c i =
     (if i = 0 then Some (base_resolution c)
      else d_to_int64 (d_mul r (d_of_int r (base_resolution c)) (pow (coarsening_factor c) (d_of_int r (int i)))))"

definition initialize_buckets :: "rounding \<Rightarrow> (double \<Rightarrow> double \<Rightarrow> double) \<Rightarrow> u64 \<Rightarrow> accounting \<Rightarrow> accounting option" where
  "initialize_buckets r pow now a =
     (if num_buckets (acfg a) = 0 then None
      else do {
        spans \<leftarrow> those (map (bucket_span r pow (acfg a)) [0..<num_buckets (acfg a)]);
        Some (a\<lparr>buckets := map (\<lambda>s. empty_bucket\<lparr>time_span := s\<rparr>) spans, start_time := now\<rparr>)
      })"

definition new_accounting :: "rounding \<Rightarrow> (double \<Rightarrow> double \<Rightarrow> double) \<Rightarrow> u64 \<Rightarrow> config \<Rightarrow> accounting option" where
  "new_accounting r pow now c =
     initialize_buckets r pow now
       \<lparr>acfg = c, current_latency = Fin 0, operation_count = 0, op_start = 0, start_time = 0, buckets = [],
        last_error = Fin 0, error_integral = Fin 0, last_pid_update = 0, last_applied_dampening = Fin 0,
        last_dampening_timestamp = 0\<rparr>"

text \<open>The constructor reads the counter, then calibrates it unless that was done before.\<close>

definition PerformanceAccounting ::
  "rounding \<Rightarrow> (double \<Rightarrow> double \<Rightarrow> double) \<Rightarrow> config \<Rightarrow> cycle_counter \<Rightarrow> hw \<Rightarrow> (accounting \<times> cycle_counter \<times> hw) option" where
  "PerformanceAccounting r pow c cc m =
     (case read_cycles m of (now, m) \<Rightarrow> do {
        a \<leftarrow> new_accounting r pow now c;
        (_, cc, m) \<leftarrow> initialize r cc m;
        Some (a, cc, m)
      })"

section \<open>Buckets\<close>

definition elapsed :: "rounding \<Rightarrow> cycle_counter \<Rightarrow> u64 \<Rightarrow> bucket \<Rightarrow> double option" where
  "elapsed r cc now b = map_option (d_of_u64 r) (cycles_to_ns r cc (now - last_update_time b))"

definition bucket_avg :: "rounding \<Rightarrow> bucket \<Rightarrow> double" where
  "bucket_avg r b = (if 0 < bcount b then d_div r (sum_latency_ms b) (d_of_u64 r (bcount b)) else Fin 0)"

text \<open>The loop over neighbouring buckets, from the finest on.\<close>

function shift_buckets :: "rounding \<Rightarrow> cycle_counter \<Rightarrow> u64 \<Rightarrow> bucket list \<Rightarrow> bucket list option" where
  "shift_buckets r cc now (b # b' # bs) = do {
     e \<leftarrow> elapsed r cc now b';
     if d_lt (d_of_int r (time_span b)) e
     then do {
       rest \<leftarrow> shift_buckets r cc now
         (b'\<lparr>sum_latency_ms := d_add r (sum_latency_ms b') (bucket_avg r b), bcount := bcount b' + 1, last_update_time := now\<rparr> # bs);
       Some (b\<lparr>sum_latency_ms := Fin 0, bcount := 0\<rparr> # rest)
     }
     else do {
       rest \<leftarrow> shift_buckets r cc now (b' # bs);
       Some (b # rest)
     }
   }"
| "shift_buckets r cc now [b] = Some [b]"
| "shift_buckets r cc now [] = Some []"
  by pat_completeness auto
termination shift_buckets
  by (relation "measure (\<lambda>(r, cc, now, bs). length bs)") auto

definition expire_last :: "rounding \<Rightarrow> cycle_counter \<Rightarrow> u64 \<Rightarrow> int \<Rightarrow> bucket list \<Rightarrow> bucket list option" where
  "expire_last r cc now history bs =
     (if bs \<noteq> [] \<and> 0 < bcount (last bs)
      then do {
        e \<leftarrow> elapsed r cc now (last bs);
        Some (if d_lt (d_of_int r history) e then butlast bs @ [(last bs)\<lparr>sum_latency_ms := Fin 0, bcount := 0\<rparr>] else bs)
      }
      else Some bs)"

definition update_buckets :: "rounding \<Rightarrow> cycle_counter \<Rightarrow> u64 \<Rightarrow> double \<Rightarrow> accounting \<Rightarrow> accounting option" where
  "update_buckets r cc now duration_ms a =
     (case buckets a of
        [] \<Rightarrow> None
      | b # bs \<Rightarrow> do {
          bs \<leftarrow> shift_buckets r cc now
            (b\<lparr>sum_latency_ms := d_add r (sum_latency_ms b) duration_ms, bcount := bcount b + 1, last_update_time := now\<rparr> # bs);
          bs \<leftarrow> expire_last r cc now (max_history (acfg a)) bs;
          Some (a\<lparr>buckets := bs\<rparr>)
        })"

definition calculateAverageLatency :: "rounding \<Rightarrow> nat \<Rightarrow> nat \<Rightarrow> accounting \<Rightarrow> double" where
  "calculateAverageLatency r start_idx end_idx a =
     (let bs = drop start_idx (take end_idx (buckets a));
          sum_latency = foldl (\<lambda>s b. d_add r s (sum_latency_ms b)) (Fin 0) bs;
          total_count = foldl (\<lambda>n b. n + bcount b) 0 bs
      in if 0 < total_count then d_div r sum_latency (d_of_u64 r total_count) else Fin 0)"

section \<open>The public functions\<close>






definition getMetrics :: "rounding \<Rightarrow> cycle_counter \<Rightarrow> u64 \<Rightarrow> accounting \<Rightarrow> metrics option" where
  "getMetrics r cc now a = do {
     ns \<leftarrow> cycles_to_ns r cc (now - start_time a);
     ops \<leftarrow> d_to_u64 (d_div r (d_of_u64 r (operation_count a)) (d_add r (d_of_u64 r ns) (r (1 / 1000))));
     Some \<lparr>current_latency_ms = current_latency a,
       avg_latency_ms_short_term = calculateAverageLatency r 0 4 a,
       avg_latency_ms_long_term = calculateAverageLatency r 0 (length (buckets a)) a,
       operations_per_second = ops,
       dampening_magnitude = last_applied_dampening a\<rparr>
   }"

section \<open>Sequences of calls\<close>













section \<open>Properties\<close>


section \<open>The cascade\<close>

definition bucket_empty :: "bucket \<Rightarrow> bool" where
  "bucket_empty b \<longleftrightarrow> sum_latency_ms b = Fin 0 \<and> bcount b = 0"

text \<open>Every bucket but the first was last updated longer ago than the span of the one before it.\<close>

definition all_overdue :: "rounding \<Rightarrow> cycle_counter \<Rightarrow> u64 \<Rightarrow> bucket list \<Rightarrow> bool" where
  "all_overdue r cc now bs \<longleftrightarrow>
     (\<forall>i. Suc i < length bs \<longrightarrow> (\<exists>e. elapsed r cc now (bs ! Suc i) = Some e \<and> d_lt (d_of_int r (time_span (bs ! i))) e))"

lemma all_overdue_Cons:
  assumes "all_overdue r cc now (b # b' # bs)" "time_span c = time_span b'"
  shows "\<exists>e. elapsed r cc now b' = Some e \<and> d_lt (d_of_int r (time_span b)) e" "all_overdue r cc now (c # bs)"
proof -
  show "\<exists>e. elapsed r cc now b' = Some e \<and> d_lt (d_of_int r (time_span b)) e"
    using assms(1) unfolding all_overdue_def by (metis Suc_less_eq length_Cons nth_Cons_0 nth_Cons_Suc zero_less_Suc)
  show "all_overdue r cc now (c # bs)"
    unfolding all_overdue_def
  proof (intro allI impI)
    fix i assume i: "Suc i < length (c # bs)"
    then have "Suc (Suc i) < length (b # b' # bs)" by simp
    with assms(1) have "\<exists>e. elapsed r cc now ((b # b' # bs) ! Suc (Suc i)) = Some e \<and> d_lt (d_of_int r (time_span ((b # b' # bs) ! Suc i))) e"
      unfolding all_overdue_def by blast
    moreover have "time_span ((b # b' # bs) ! Suc i) = time_span ((c # bs) ! i)" using assms(2) by (cases i) auto
    ultimately show "\<exists>e. elapsed r cc now ((c # bs) ! Suc i) = Some e \<and> d_lt (d_of_int r (time_span ((c # bs) ! i))) e" by simp
  qed
qed

lemma shift_buckets_cascades:
  assumes "all_overdue r cc now (b # bs)" "bs \<noteq> []"
  shows "\<exists>cs l. shift_buckets r cc now (b # bs) = Some (cs @ [l]) \<and> length cs = length bs \<and> list_all bucket_empty cs \<and>
     bcount l = bcount (last bs) + 1 \<and> last_update_time l = now"
  using assms
proof (induction bs arbitrary: b)
  case (Cons b' bs)
  let ?b' = "b'\<lparr>sum_latency_ms := d_add r (sum_latency_ms b') (bucket_avg r b), bcount := bcount b' + 1, last_update_time := now\<rparr>"
  let ?b = "b\<lparr>sum_latency_ms := Fin 0, bcount := 0\<rparr>"
  obtain e where e: "elapsed r cc now b' = Some e" "d_lt (d_of_int r (time_span b)) e"
    using all_overdue_Cons(1) [OF Cons.prems(1) refl] by blast
  have empty: "bucket_empty ?b" by (simp add: bucket_empty_def)
  have o: "all_overdue r cc now (?b' # bs)" using all_overdue_Cons(2) [OF Cons.prems(1), of ?b'] by simp
  show ?case
  proof (cases "bs = []")
    case True
    then show ?thesis using e by (intro exI [of _ "[?b]"] exI [of _ ?b']) (simp add: empty)
  next
    case False
    from Cons.IH [OF o this] obtain cs l where "shift_buckets r cc now (?b' # bs) = Some (cs @ [l])" "length cs = length bs"
       "list_all bucket_empty cs" "bcount l = bcount (last bs) + 1" "last_update_time l = now" by blast
    then show ?thesis
      using e False by (intro exI [of _ "?b # cs"] exI [of _ l]) (simp add: empty)
  qed
qed simp

lemma average_of_empty: "list_all bucket_empty (take n (buckets a)) \<Longrightarrow> calculateAverageLatency r 0 n a = Fin 0"
proof -
  assume "list_all bucket_empty (take n (buckets a))"
  moreover have "list_all bucket_empty bs \<Longrightarrow> foldl (\<lambda>n b. n + bcount b) m bs = m" for bs and m :: u64
    by (induction bs) (auto simp: bucket_empty_def)
  ultimately show ?thesis by (simp add: calculateAverageLatency_def Let_def)
qed

text \<open>
  An update can empty all buckets but the last: when each bucket was last updated longer ago than the span of the one
  before it, which is so at the first update of every object because the times start at zero, and afterwards
  soon, because nanoseconds are compared with milliseconds, the update passes the new latency on
  from bucket to bucket into the last one; the count there grows by one, and the short-term average is zero whatever
  was measured.
\<close>

theorem update_empties_short_term:
  assumes "all_overdue r cc now (buckets a)" and "4 < length (buckets a)"
    and "r 0 = Fin 0" and "cycles_per_ns cc = Fin q" and "q \<noteq> 0" and "\<not> d_lt (d_of_int r (max_history (acfg a))) (Fin 0)"
  shows "\<exists>a'. update_buckets r cc now d a = Some a' \<and> list_all bucket_empty (butlast (buckets a')) \<and>
     bcount (last (buckets a')) = bcount (last (buckets a)) + 1 \<and> length (buckets a') = length (buckets a) \<and>
     calculateAverageLatency r 0 4 a' = Fin 0"
proof -
  obtain b bs where "buckets a = b # bs" using assms(2) by (cases "buckets a") auto
  moreover from this have "4 \<le> length bs" "bs \<noteq> []" using assms(2) by auto
  ultimately have b: "buckets a = b # bs" "4 \<le> length bs" "bs \<noteq> []" by blast+
  let ?b = "b\<lparr>sum_latency_ms := d_add r (sum_latency_ms b) d, bcount := bcount b + 1, last_update_time := now\<rparr>"
  have "all_overdue r cc now (?b # bs)"
  proof -
    have "elapsed r cc now ((?b # bs) ! Suc i) = elapsed r cc now ((b # bs) ! Suc i)"
      "time_span ((?b # bs) ! i) = time_span ((b # bs) ! i)" for i by (simp_all add: nth_Cons')
    then show ?thesis using assms(1) unfolding b(1) all_overdue_def by simp
  qed
  from shift_buckets_cascades [OF this b(3)] obtain cs l where
    s: "shift_buckets r cc now (?b # bs) = Some (cs @ [l])" "length cs = length bs" "list_all bucket_empty cs"
      "bcount l = bcount (last bs) + 1" "last_update_time l = now" by blast
  have "cycles_to_ns r cc 0 = Some 0" using assms(3-5) by (simp add: cycles_to_ns_def d_of_u64_def d_of_int_def d_trunc_def)
  then have "elapsed r cc now l = Some (Fin 0)" using s(5) assms(3) by (simp add: elapsed_def d_of_u64_def d_of_int_def)
  then have "expire_last r cc now (max_history (acfg a)) (cs @ [l]) = Some (cs @ [l])"
    using assms(6) by (simp add: expire_last_def)
  then have u: "update_buckets r cc now d a = Some (a\<lparr>buckets := cs @ [l]\<rparr>)"
    using s(1) b(1) by (simp add: update_buckets_def)
  have "list_all bucket_empty (take 4 (cs @ [l]))"
    using s(2,3) b(2) by (auto simp: list_all_iff dest: in_set_takeD)
  then have "calculateAverageLatency r 0 4 (a\<lparr>buckets := cs @ [l]\<rparr>) = Fin 0" by (intro average_of_empty) simp
  then show ?thesis
    using u s b by simp
qed

section \<open>Witnesses\<close>

fun exact_pow :: "double \<Rightarrow> double \<Rightarrow> double" where
  "exact_pow (Fin a) (Fin b) = Fin (a ^ nat \<lfloor>b\<rfloor>)"
| "exact_pow _ _ = NaN"

definition demo_counter :: cycle_counter where
  "demo_counter = \<lparr>cycles_per_ns = Fin 2, is_calibrated = True, initialized = True\<rparr>"


definition demo_config :: config where
  "demo_config = (default_config Fin)\<lparr>num_buckets := 6\<rparr>"

lemma demo_accounting:
  "\<exists>a. new_accounting Fin exact_pow now demo_config = Some a \<and> map time_span (buckets a) = [10, 20, 40, 80, 160, 320] \<and>
     map last_update_time (buckets a) = [0, 0, 0, 0, 0, 0] \<and> acfg a = demo_config"
  by (simp add: new_accounting_def initialize_buckets_def demo_config_def default_config_def bucket_span_def
      d_of_int_def d_trunc_def upt_rec empty_bucket_def)

lemma demo_constructor:
  "\<exists>a m'. PerformanceAccounting Fin exact_pow demo_config demo_counter demo_hw = Some (a, demo_counter, m') \<and>
     map time_span (buckets a) = [10, 20, 40, 80, 160, 320] \<and> map last_update_time (buckets a) = [0, 0, 0, 0, 0, 0] \<and> acfg a = demo_config"
proof -
  obtain now m where "read_cycles demo_hw = (now, m)" by fastforce
  moreover obtain a where "new_accounting Fin exact_pow now demo_config = Some a" "map time_span (buckets a) = [10, 20, 40, 80, 160, 320]"
     "map last_update_time (buckets a) = [0, 0, 0, 0, 0, 0]" "acfg a = demo_config"
    using demo_accounting [of now] by (elim exE conjE)
  moreover have "initialize Fin demo_counter m = Some (True, demo_counter, m)" by (simp add: initialize_def demo_counter_def)
  ultimately show ?thesis by (simp add: PerformanceAccounting_def)
qed


theorem update_empties_short_term_witness:
  "\<exists>a m a'. PerformanceAccounting Fin exact_pow demo_config demo_counter demo_hw = Some (a, demo_counter, m) \<and>
     update_buckets Fin demo_counter 1000 (Fin 12345) a = Some a' \<and> calculateAverageLatency Fin 0 4 a' = Fin 0 \<and>
     list_all bucket_empty (butlast (buckets a'))"
proof -
  obtain a m where a: "PerformanceAccounting Fin exact_pow demo_config demo_counter demo_hw = Some (a, demo_counter, m)" "map time_span (buckets a) = [10, 20, 40, 80, 160, 320]"
     "map last_update_time (buckets a) = [0, 0, 0, 0, 0, 0]" "acfg a = demo_config"
    using demo_constructor by (elim exE conjE)
  have len: "length (buckets a) = 6" using arg_cong [OF a(2), of length] by simp
  have "all_overdue Fin demo_counter 1000 (buckets a)"
    unfolding all_overdue_def
  proof (intro allI impI)
    fix i assume i: "Suc i < length (buckets a)"
    then have "last_update_time (buckets a ! Suc i) = [0, 0, 0, 0, 0, 0] ! Suc i" using a(3) by (metis nth_map)
    moreover have "time_span (buckets a ! i) = [10, 20, 40, 80, 160, 320] ! i" using a(2) i by (metis Suc_lessD nth_map)
    moreover have "i \<in> {0, 1, 2, 3, 4}" using i len by auto
    then have "[0, 0, 0, 0, 0, 0] ! Suc i = (0 :: u64) \<and> [10, 20, 40, 80, 160, 320] ! i < (500 :: int)"
      by (elim insertE emptyE) simp_all
    ultimately have "last_update_time (buckets a ! Suc i) = 0" "time_span (buckets a ! i) < 500" by (simp_all only:)
    moreover from this(2) have "(of_int (time_span (buckets a ! i)) :: rat) < 500" by (metis of_int_less_iff of_int_numeral)
    ultimately show "\<exists>e. elapsed Fin demo_counter 1000 (buckets a ! Suc i) = Some e \<and> d_lt (d_of_int Fin (time_span (buckets a ! i))) e"
      by (simp add: elapsed_def cycles_to_ns_def demo_counter_def d_of_u64_def d_of_int_def d_trunc_def)
  qed
  from update_empties_short_term [OF this, of 2 "Fin 12345"] len a(1,4) show ?thesis
    by (auto simp: demo_counter_def demo_config_def default_config_def d_of_int_def)
qed

end
