(* ===== verification/Autodaemonize.thy ===== *)
theory Autodaemonize
  imports Prelude
begin

text \<open>
  The experiment \<^verbatim>\<open>autodaemonize\<close>: a class whose constructor forks off a background process that serves the
  object over a pipe and ends when the object is gone.

  Three processes are involved, the client, a child that only forks again, and the
  daemon. Each has its own memory: the member \<open>state\<close> of the object is an \<open>AtomicShared\<close>, but only its
  \<open>operator new\<close> would put it into shared memory, and a member is not allocated by it, so
  each process has its own \<open>state\<close> from the fork on. The pipe is its unread bytes and the sets of processes that
  hold its two ends; it is never full here. Steps of the three processes interleave in every order.
\<close>

section \<open>Waiting for a change\<close>

text \<open>
  \<open>vals i\<close> is what the \<open>i\<close>-th load returns, \<open>now i\<close> the \<open>i\<close>-th reading of the clock in milliseconds,
  the first of them the start. The result says whether a change was seen, with the number of
  times the processor was yielded.
\<close>

partial_function (option) timedwait_loop ::
  "(nat \<Rightarrow> int) \<Rightarrow> (nat \<Rightarrow> int) \<Rightarrow> int \<Rightarrow> int \<Rightarrow> nat \<Rightarrow> nat \<Rightarrow> nat \<Rightarrow> (bool \<times> nat) option" where
  "timedwait_loop vals now oldval end fast_checks yields i =
     (if vals i \<noteq> oldval then Some (True, yields)
      else
        (let (fast_checks, yields) = (if 0 < fast_checks then (fast_checks - 1, yields) else (0, Suc yields))
         in if now (Suc i) - now 0 < end then timedwait_loop vals now oldval end fast_checks yields (Suc i)
            else Some (False, yields)))"

text \<open>
  A negative timeout means to wait for ever; the conversion of the longest duration in years to milliseconds
  overflows, which is undefined: \<^const>\<open>None\<close>.
\<close>

definition value_timedwait :: "(nat \<Rightarrow> int) \<Rightarrow> (nat \<Rightarrow> int) \<Rightarrow> int \<Rightarrow> int \<Rightarrow> (bool \<times> nat) option" where
  "value_timedwait vals now oldval timeout =
     (if timeout < 0 then None else timedwait_loop vals now oldval timeout 3 0 0)"

section \<open>State\<close>

datatype DaemonState = Uninitialized | Initializing | Ready | Error

fun state_code :: "DaemonState \<Rightarrow> int" where
  "state_code Uninitialized = 0" | "state_code Initializing = 1" | "state_code Ready = 2" | "state_code Error = 3"

datatype proc = Client | Child | Grandchild

datatype client_op = Send string | Sleep | Shutdown | Say string

datatype client_pc = Checking | Storing_initializing | Piping | Forking | Waiting | Closing_daemon_fd
  | Running "client_op list" | Exited | Killed

datatype child_pc = Child_unborn | Child_forking | Child_exiting | Child_gone

datatype daemon_pc = Daemon_unborn | Closing_client_fd | Storing_ready | Polling | Daemon_gone

datatype daemon_line = Heartbeat | Hung_up | Got string

record dsys =
  cpc :: client_pc
  kpc :: child_pc
  gpc :: daemon_pc
  cstate :: DaemonState
  kstate :: DaemonState
  gstate :: DaemonState
  piped :: bool
  readers :: "proc set"
  writers :: "proc set"
  buffered :: string
  sent :: string
  refused :: "string list"
  waited :: "bool option"
  out :: "daemon_line list"

definition dstart :: dsys where
  "dstart = \<lparr>cpc = Checking, kpc = Child_unborn, gpc = Daemon_unborn, cstate = Uninitialized, kstate = Uninitialized,
     gstate = Uninitialized, piped = False, readers = {}, writers = {}, buffered = [], sent = [], refused = [],
     waited = None, out = []\<rparr>"

text \<open>Closing both ends when a process ends; copying them when it forks.\<close>

definition drop_fds :: "proc \<Rightarrow> dsys \<Rightarrow> dsys" where
  "drop_fds p s = s\<lparr>readers := readers s - {p}, writers := writers s - {p}\<rparr>"

definition copy_fds :: "proc \<Rightarrow> proc \<Rightarrow> dsys \<Rightarrow> dsys" where
  "copy_fds p q s = s\<lparr>readers := (if p \<in> readers s then insert q (readers s) else readers s),
     writers := (if p \<in> writers s then insert q (writers s) else writers s)\<rparr>"

section \<open>The public operations\<close>

text \<open>
  \<open>send\<close>: a client without its end gets an error; a pipe that nobody can read kills
  the client.
\<close>

definition send :: "string \<Rightarrow> client_op list \<Rightarrow> dsys \<Rightarrow> dsys" where
  "send msg ops s =
     (if Client \<notin> writers s then s\<lparr>cpc := Running ops, refused := refused s @ [msg]\<rparr>
      else if readers s = {} then (drop_fds Client s)\<lparr>cpc := Killed\<rparr>
      else s\<lparr>cpc := Running ops, buffered := buffered s @ msg, sent := sent s @ msg\<rparr>)"

definition shutdown :: "dsys \<Rightarrow> dsys" where
  "shutdown s = s\<lparr>writers := writers s - {Client}\<rparr>"

section \<open>The constructor and the client\<close>

inductive client_step :: "client_op list \<Rightarrow> dsys \<Rightarrow> dsys \<Rightarrow> bool" for script where
  check_ready: "cpc s = Checking \<Longrightarrow> cstate s = Ready \<Longrightarrow> client_step script s (s\<lparr>cpc := Running script\<rparr>)"
| check_not_ready: "cpc s = Checking \<Longrightarrow> cstate s \<noteq> Ready \<Longrightarrow> client_step script s (s\<lparr>cpc := Storing_initializing\<rparr>)"
| store_initializing: "cpc s = Storing_initializing \<Longrightarrow> client_step script s (s\<lparr>cpc := Piping, cstate := Initializing\<rparr>)"
| pipe_ok: "cpc s = Piping \<Longrightarrow>
    client_step script s (s\<lparr>cpc := Forking, piped := True, readers := {Client}, writers := {Client}\<rparr>)"
| pipe_fails: "cpc s = Piping \<Longrightarrow> client_step script s (s\<lparr>cpc := Forking\<rparr>)"
| fork_ok: "cpc s = Forking \<Longrightarrow>
    client_step script s ((copy_fds Client Child s)\<lparr>cpc := Waiting, kpc := Child_forking, kstate := cstate s\<rparr>)"
| fork_fails: "cpc s = Forking \<Longrightarrow> client_step script s (s\<lparr>cpc := Waiting\<rparr>)"
| wait: "cpc s = Waiting \<Longrightarrow>
    value_timedwait (\<lambda>_. state_code (cstate s)) now (state_code Initializing) 200 = Some (b, y) \<Longrightarrow>
    client_step script s (s\<lparr>cpc := Closing_daemon_fd, waited := Some b\<rparr>)"
| close_daemon_fd: "cpc s = Closing_daemon_fd \<Longrightarrow>
    client_step script s (s\<lparr>cpc := Running script, readers := readers s - {Client}\<rparr>)"
| op_send: "cpc s = Running (Send msg # ops) \<Longrightarrow> client_step script s (send msg ops s)"
| op_shutdown: "cpc s = Running (Shutdown # ops) \<Longrightarrow> client_step script s ((shutdown s)\<lparr>cpc := Running ops\<rparr>)"
| op_sleep: "cpc s = Running (Sleep # ops) \<Longrightarrow> client_step script s (s\<lparr>cpc := Running ops\<rparr>)"
| op_say: "cpc s = Running (Say msg # ops) \<Longrightarrow> client_step script s (s\<lparr>cpc := Running ops\<rparr>)"
| client_exit: "cpc s = Running [] \<Longrightarrow> client_step script s ((drop_fds Client s)\<lparr>cpc := Exited\<rparr>)"

inductive child_step :: "dsys \<Rightarrow> dsys \<Rightarrow> bool" where
  child_fork_ok: "kpc s = Child_forking \<Longrightarrow>
    child_step s ((copy_fds Child Grandchild s)\<lparr>kpc := Child_exiting, gpc := Closing_client_fd, gstate := kstate s\<rparr>)"
| child_fork_fails: "kpc s = Child_forking \<Longrightarrow> child_step s (s\<lparr>kpc := Child_exiting\<rparr>)"
| child_exit: "kpc s = Child_exiting \<Longrightarrow> child_step s ((drop_fds Child s)\<lparr>kpc := Child_gone\<rparr>)"

section \<open>The daemon\<close>

text \<open>
  \<open>poll\<close> reports a hang-up whenever nobody can write any more, together with unread data if
  there is any; on an invalid descriptor it only ever times out. It may always fail.
\<close>

inductive daemon_step :: "dsys \<Rightarrow> dsys \<Rightarrow> bool" where
  close_client_fd: "gpc s = Closing_client_fd \<Longrightarrow> daemon_step s (s\<lparr>gpc := Storing_ready, writers := writers s - {Grandchild}\<rparr>)"
| store_ready: "gpc s = Storing_ready \<Longrightarrow> daemon_step s (s\<lparr>gpc := Polling, gstate := Ready\<rparr>)"
| poll_error: "gpc s = Polling \<Longrightarrow> daemon_step s ((drop_fds Grandchild s)\<lparr>gpc := Daemon_gone\<rparr>)"
| poll_timeout: "gpc s = Polling \<Longrightarrow> piped s \<longrightarrow> buffered s = [] \<and> writers s \<noteq> {} \<Longrightarrow>
    daemon_step s (s\<lparr>out := out s @ [Heartbeat]\<rparr>)"
| poll_hup: "gpc s = Polling \<Longrightarrow> piped s \<Longrightarrow> writers s = {} \<Longrightarrow>
    daemon_step s ((drop_fds Grandchild s)\<lparr>gpc := Daemon_gone, out := out s @ [Hung_up]\<rparr>)"
| poll_in: "gpc s = Polling \<Longrightarrow> piped s \<Longrightarrow> writers s \<noteq> {} \<Longrightarrow> buffered s \<noteq> [] \<Longrightarrow>
    daemon_step s (s\<lparr>out := out s @ [Got (take 1024 (buffered s))], buffered := drop 1024 (buffered s)\<rparr>)"

inductive sys_step :: "client_op list \<Rightarrow> dsys \<Rightarrow> dsys \<Rightarrow> bool" for script where
  "client_step script s s' \<Longrightarrow> sys_step script s s'"
| "child_step s s' \<Longrightarrow> sys_step script s s'"
| "daemon_step s s' \<Longrightarrow> sys_step script s s'"

abbreviation runs :: "client_op list \<Rightarrow> dsys \<Rightarrow> dsys \<Rightarrow> bool" where
  "runs script \<equiv> (sys_step script)\<^sup>*\<^sup>*"

section \<open>The users\<close>


definition disposable :: "client_op list" where
  "disposable = [Send (''I'' @ [CHR 0x27] @ ''ll love you forever, daemon!''), Shutdown, Sleep, Say ''[client] Love is fickle!'']"

definition selfish_user :: "client_op list" where
  "selfish_user = [Shutdown]"

section \<open>The wait never sees the daemon\<close>

lemma timedwait_unchanged:
  assumes "timedwait_loop vals now oldval end f y i = Some r" "\<forall>j. vals j = oldval"
  shows "\<not> fst r"
proof -
  have "(\<forall>j. vals j = oldval) \<longrightarrow> \<not> fst r"
    by (rule timedwait_loop.raw_induct [where P = "\<lambda>vals now oldval e f y i r. (\<forall>j. vals j = oldval) \<longrightarrow> \<not> fst r", OF _ assms(1)])
      (auto simp: Let_def split: if_splits)
  with assms(2) show ?thesis by blast
qed

lemma timedwait_returns:
  assumes "tmo \<le> now (Suc i + n) - now 0"
  shows "\<exists>r. timedwait_loop vals now oldval tmo f y i = Some r"
  using assms
proof (induction n arbitrary: f y i)
  case 0
  then show ?case by (subst timedwait_loop.simps) (auto simp: Let_def)
next
  case (Suc n)
  then have "\<exists>r. timedwait_loop vals now oldval tmo f' y' (Suc i) = Some r" for f' y' by simp
  then show ?case by (subst timedwait_loop.simps) (auto simp: Let_def)
qed

text \<open>A wait on a value that nobody changes takes all its time and then fails.\<close>

lemma value_timedwait_expires:
  assumes "0 < tmo" "now 0 + tmo \<le> now n"
  shows "\<exists>y. value_timedwait (\<lambda>_. v) now v tmo = Some (False, y)"
proof -
  obtain m where "n = Suc 0 + m" using assms by (cases n) auto
  then obtain r where "timedwait_loop (\<lambda>_. v) now v tmo 3 0 0 = Some r"
    using timedwait_returns [of tmo now 0 m "\<lambda>_. v" v 3 0] assms(2) by auto
  with timedwait_unchanged [OF this] assms(1) show ?thesis
    by (cases r) (auto simp: value_timedwait_def)
qed

section \<open>What holds in every state\<close>

fun got :: "daemon_line list \<Rightarrow> string" where
  "got [] = []"
| "got (Got msg # ls) = msg @ got ls"
| "got (_ # ls) = got ls"

lemma got_append [simp]: "got (xs @ ys) = got xs @ got ys"
  by (induction xs rule: got.induct) auto

definition constructing :: "client_pc \<Rightarrow> bool" where
  "constructing pc \<longleftrightarrow> pc \<in> {Checking, Storing_initializing, Piping, Forking}"

text \<open>Where each process can be while another is not yet born.\<close>

definition births :: "dsys \<Rightarrow> bool" where
  "births s \<longleftrightarrow> (constructing (cpc s) \<longrightarrow> kpc s = Child_unborn) \<and>
     (kpc s \<in> {Child_unborn, Child_forking} \<longrightarrow> gpc s = Daemon_unborn) \<and>
     (gpc s = Daemon_unborn \<longrightarrow> out s = []) \<and>
     (cpc s \<in> {Checking, Storing_initializing, Piping} \<longrightarrow> \<not> piped s)"

text \<open>A process holds no end of the pipe before its birth and after its death, nor one it has closed.\<close>

definition ends_ok :: "dsys \<Rightarrow> bool" where
  "ends_ok s \<longleftrightarrow> (kpc s \<in> {Child_unborn, Child_gone} \<longrightarrow> Child \<notin> readers s \<union> writers s) \<and>
     (gpc s \<in> {Daemon_unborn, Daemon_gone} \<longrightarrow> Grandchild \<notin> readers s \<union> writers s) \<and>
     (gpc s \<in> {Storing_ready, Polling} \<longrightarrow> Grandchild \<notin> writers s) \<and>
     (cpc s \<in> {Exited, Killed} \<longrightarrow> Client \<notin> readers s \<union> writers s) \<and>
     (\<not> piped s \<longrightarrow> readers s = {} \<and> writers s = {})"

definition memory_ok :: "dsys \<Rightarrow> bool" where
  "memory_ok s \<longleftrightarrow> cstate s = (if cpc s \<in> {Checking, Storing_initializing} then Uninitialized else Initializing) \<and>
     waited s \<noteq> Some True"

definition stream_ok :: "dsys \<Rightarrow> bool" where
  "stream_ok s \<longleftrightarrow> got (out s) @ buffered s = sent s \<and>
     (Hung_up \<in> set (out s) \<longrightarrow> piped s \<and> writers s = {} \<and> gpc s = Daemon_gone)"

definition dinv :: "dsys \<Rightarrow> bool" where
  "dinv s \<longleftrightarrow> births s \<and> ends_ok s \<and> memory_ok s \<and> stream_ok s"

lemmas dinv_defs = dinv_def births_def ends_ok_def memory_ok_def stream_ok_def constructing_def

lemma dinv_start: "dinv dstart"
  by (simp add: dinv_defs dstart_def)

lemma client_step_memory: "client_step script s s' \<Longrightarrow> memory_ok s \<Longrightarrow> memory_ok s'"
proof (induction rule: client_step.induct)
  case (wait s now b y)
  then have "timedwait_loop (\<lambda>_. 1) now 1 200 3 0 0 = Some (b, y)" by (simp add: value_timedwait_def memory_ok_def)
  from timedwait_unchanged [OF this] wait show ?case by (simp add: memory_ok_def)
qed (simp_all add: memory_ok_def copy_fds_def drop_fds_def send_def shutdown_def)

lemma client_step_births: "client_step script s s' \<Longrightarrow> births s \<Longrightarrow> births s'"
  by (induction rule: client_step.induct)
     (simp_all add: births_def constructing_def copy_fds_def drop_fds_def send_def shutdown_def)

lemma client_step_ends: "client_step script s s' \<Longrightarrow> births s \<Longrightarrow> ends_ok s \<Longrightarrow> ends_ok s'"
  by (induction rule: client_step.induct)
     (simp_all add: births_def ends_ok_def constructing_def copy_fds_def drop_fds_def send_def shutdown_def)

lemma client_step_stream: "client_step script s s' \<Longrightarrow> births s \<Longrightarrow> stream_ok s \<Longrightarrow> stream_ok s'"
  by (induction rule: client_step.induct)
     (auto simp: births_def stream_ok_def constructing_def copy_fds_def drop_fds_def send_def shutdown_def)

lemma client_step_dinv: "client_step script s s' \<Longrightarrow> dinv s \<Longrightarrow> dinv s'"
  using client_step_memory client_step_births client_step_ends client_step_stream by (auto simp: dinv_def)

lemma child_step_dinv: "child_step s s' \<Longrightarrow> dinv s \<Longrightarrow> dinv s'"
proof (induction rule: child_step.induct)
  case (child_fork_ok s)
  then show ?case by (clarsimp simp: dinv_defs copy_fds_def)
next
  case (child_exit s)
  then show ?case by (clarsimp simp: dinv_defs drop_fds_def)
qed (clarsimp simp: dinv_defs)

lemma daemon_step_dinv: "daemon_step s s' \<Longrightarrow> dinv s \<Longrightarrow> dinv s'"
  by (induction rule: daemon_step.induct) (clarsimp simp: dinv_defs drop_fds_def; fail)+

lemma runs_dinv: "runs script dstart s \<Longrightarrow> dinv s"
  by (induction rule: rtranclp_induct)
     (auto simp: dinv_start elim!: sys_step.cases intro: client_step_dinv child_step_dinv daemon_step_dinv)

section \<open>Properties\<close>




text \<open>A run up to the point where the object is constructed and everybody is in place.\<close>

definition constructed :: "client_op list \<Rightarrow> dsys" where
  "constructed script = dstart\<lparr>cpc := Running script, kpc := Child_gone, gpc := Polling, cstate := Initializing, kstate := Initializing,
     gstate := Ready, piped := True, readers := {Grandchild}, writers := {Client}, waited := Some False\<rparr>"

lemma runs_client: "client_step script s s' \<Longrightarrow> runs script s' t \<Longrightarrow> runs script s t"
  and runs_child: "child_step s s' \<Longrightarrow> runs script s' t \<Longrightarrow> runs script s t"
  and runs_daemon: "daemon_step s s' \<Longrightarrow> runs script s' t \<Longrightarrow> runs script s t"
  by (auto intro: converse_rtranclp_into_rtranclp sys_step.intros)

lemma runs_constructed: "runs script dstart (constructed script)"
proof -
  obtain y where wait: "value_timedwait (\<lambda>_. 1) int 1 200 = Some (False, y)"
    using value_timedwait_expires [of 200 int 200 1] by auto
  let ?s1 = "dstart\<lparr>cpc := Storing_initializing\<rparr>"
  let ?s2 = "?s1\<lparr>cpc := Piping, cstate := Initializing\<rparr>"
  let ?s3 = "?s2\<lparr>cpc := Forking, piped := True, readers := {Client}, writers := {Client}\<rparr>"
  let ?s4 = "?s3\<lparr>cpc := Waiting, kpc := Child_forking, kstate := Initializing, readers := {Client, Child}, writers := {Client, Child}\<rparr>"
  let ?s5 = "?s4\<lparr>kpc := Child_exiting, gpc := Closing_client_fd, gstate := Initializing,
     readers := {Client, Child, Grandchild}, writers := {Client, Child, Grandchild}\<rparr>"
  let ?s6 = "?s5\<lparr>kpc := Child_gone, readers := {Client, Grandchild}, writers := {Client, Grandchild}\<rparr>"
  let ?s7 = "?s6\<lparr>gpc := Storing_ready, writers := {Client}\<rparr>"
  let ?s8 = "?s7\<lparr>gpc := Polling, gstate := Ready\<rparr>"
  let ?s9 = "?s8\<lparr>cpc := Closing_daemon_fd, waited := Some False\<rparr>"
  have "client_step script dstart ?s1" "client_step script ?s1 ?s2" "client_step script ?s2 ?s3" "client_step script ?s3 ?s4"
    using check_not_ready [of dstart script] store_initializing [of ?s1 script] pipe_ok [of ?s2 script] fork_ok [of ?s3 script]
    by (simp_all add: dstart_def copy_fds_def insert_commute)
  moreover have "child_step ?s4 ?s5" "child_step ?s5 ?s6"
    using child_fork_ok [of ?s4] child_exit [of ?s5] by (simp_all add: dstart_def copy_fds_def drop_fds_def insert_commute insert_Diff_if)
  moreover have "daemon_step ?s6 ?s7" "daemon_step ?s7 ?s8"
    using close_client_fd [of ?s6] store_ready [of ?s7] by (simp_all add: dstart_def insert_Diff_if)
  moreover have "client_step script ?s8 ?s9" "client_step script ?s9 (constructed script)"
    using client_step.wait [of ?s8 int False y script] close_daemon_fd [of ?s9 script] wait
    by (simp_all add: dstart_def constructed_def insert_Diff_if)
  ultimately show ?thesis
    by (meson runs_client runs_child runs_daemon rtranclp.rtrancl_refl)
qed

text \<open>
  The program \<open>disposable\<close> can end with its message unread: the daemon sees the hang-up before it
  looks for data.
\<close>

theorem disposable_message_lost:
  "\<exists>s. runs disposable dstart s \<and> cpc s = Exited \<and> gpc s = Daemon_gone \<and> sent s \<noteq> [] \<and> out s = [Hung_up]"
proof -
  obtain msg ops where d: "disposable = Send msg # Shutdown # ops" "ops = [Sleep, Say ''[client] Love is fickle!'']" "msg \<noteq> []"
    by (simp add: disposable_def)
  let ?s0 = "constructed disposable"
  let ?s1 = "?s0\<lparr>cpc := Running (Shutdown # ops), buffered := msg, sent := msg\<rparr>"
  let ?s2 = "?s1\<lparr>cpc := Running ops, writers := {}\<rparr>"
  let ?s3 = "?s2\<lparr>gpc := Daemon_gone, readers := {}, out := [Hung_up]\<rparr>"
  let ?s4 = "?s3\<lparr>cpc := Running [Say ''[client] Love is fickle!'']\<rparr>"
  let ?s5 = "?s4\<lparr>cpc := Running []\<rparr>"
  let ?s6 = "?s5\<lparr>cpc := Exited\<rparr>"
  have "client_step disposable ?s0 ?s1" "client_step disposable ?s1 ?s2"
    using op_send [of ?s0 msg "Shutdown # ops" disposable] op_shutdown [of ?s1 ops disposable] d(1)
    by (simp_all add: constructed_def dstart_def send_def shutdown_def)
  moreover have "daemon_step ?s2 ?s3"
    using poll_hup [of ?s2] by (simp add: constructed_def dstart_def drop_fds_def)
  moreover have "client_step disposable ?s3 ?s4" "client_step disposable ?s4 ?s5" "client_step disposable ?s5 ?s6"
    using op_sleep [of ?s3 "[Say ''[client] Love is fickle!'']" disposable] op_say [of ?s4 "''[client] Love is fickle!''" "[]" disposable]
      client_exit [of ?s5 disposable] d(2)
    by (simp_all add: constructed_def dstart_def drop_fds_def)
  ultimately have "runs disposable dstart ?s6"
    using runs_constructed [of disposable]
    by (meson runs_client runs_daemon rtranclp.rtrancl_refl rtranclp_trans)
  moreover have "cpc ?s6 = Exited \<and> gpc ?s6 = Daemon_gone \<and> sent ?s6 \<noteq> [] \<and> out ?s6 = [Hung_up]"
    using d(3) by simp
  ultimately show ?thesis by blast
qed

text \<open>Without a pipe the daemon never learns that its client is gone: it can always go on, and never reports a hang-up.\<close>

theorem unpiped_daemon_stays:
  assumes "runs script dstart s" and "\<not> piped s" and "gpc s = Polling"
  shows "daemon_step s (s\<lparr>out := out s @ [Heartbeat]\<rparr>) \<and> Hung_up \<notin> set (out s)"
  using poll_timeout [of s] runs_dinv [OF assms(1)] assms(2,3) by (auto simp: dinv_defs)


end
