(* ===== verification/Orphans.thy ===== *)
theory Orphans
  imports Prelude
begin

text \<open>
  \<^verbatim>\<open>unshare_orphans/main.c\<close>: a program that becomes the first process of a new process namespace, starts five children that
  end on their own and one that leaves a grandchild behind, and waits until there is nobody left to wait for.

  The processes of the namespace are a list. A process that ends stays as a zombie with its
  status until its parent waits for it, and its children become children of process \<open>1\<close>, the program itself.
  The steps of the program and of its descendants interleave in every order. The functions that start children lack a \<open>return\<close>: the number they return,
  which is printed, is arbitrary. No signal handler is installed, so that waiting is not interrupted.
\<close>

section \<open>Processes\<close>

datatype proc_code = Timebomb | Evil_forking | Evil_printing int | Evil_exiting | Zombie int

record process =
  pid :: nat
  ppid :: nat
  pcode :: proc_code

datatype line = My_pid nat | Perror_fork | Spawned_child int | Terminating nat | Spawned_grandchild int | Child_exited nat int | No_more_children

datatype main_pc = Announcing | Spawning nat | Printing nat int | Waiting_for nat | Waiting_for_all | Returned

record namespace =
  main_pc :: main_pc
  procs :: "process list"
  next_pid :: nat
  lines :: "line list"

definition say :: "line \<Rightarrow> namespace \<Rightarrow> namespace" where
  "say l t = t\<lparr>lines := lines t @ [l]\<rparr>"

definition fork_proc :: "nat \<Rightarrow> proc_code \<Rightarrow> namespace \<Rightarrow> namespace" where
  "fork_proc parent c t = t\<lparr>procs := procs t @ [\<lparr>pid = next_pid t, ppid = parent, pcode = c\<rparr>], next_pid := Suc (next_pid t)\<rparr>"

definition set_code :: "nat \<Rightarrow> proc_code \<Rightarrow> namespace \<Rightarrow> namespace" where
  "set_code q c t = t\<lparr>procs := map (\<lambda>p. if pid p = q then p\<lparr>pcode := c\<rparr> else p) (procs t)\<rparr>"

definition reparent :: "nat \<Rightarrow> namespace \<Rightarrow> namespace" where
  "reparent q t = t\<lparr>procs := map (\<lambda>p. if ppid p = q then p\<lparr>ppid := 1\<rparr> else p) (procs t)\<rparr>"

definition exit_proc :: "nat \<Rightarrow> int \<Rightarrow> namespace \<Rightarrow> namespace" where
  "exit_proc q st t = reparent q (set_code q (Zombie st) t)"

definition reap :: "nat \<Rightarrow> namespace \<Rightarrow> namespace" where
  "reap q t = t\<lparr>procs := filter (\<lambda>p. pid p \<noteq> q) (procs t)\<rparr>"

section \<open>The program\<close>

text \<open>\<open>unshare\<close> or \<open>fork\<close> may fail, which ends the program; otherwise the child of the fork goes on, alone in the namespace.\<close>

definition pretend_to_be_in_container :: "bool \<Rightarrow> bool \<Rightarrow> int + namespace" where
  "pretend_to_be_in_container unshare_fails fork_fails =
     (if unshare_fails then Inl 1
      else if fork_fails then Inl 1
      else Inr \<lparr>main_pc = Announcing, procs = [], next_pid = 2, lines = []\<rparr>)"

inductive main_step :: "namespace \<Rightarrow> namespace \<Rightarrow> bool" where
  announce: "main_pc t = Announcing \<Longrightarrow> main_step t ((say (My_pid 1) t)\<lparr>main_pc := Spawning 0\<rparr>)"
| spawn_child: "main_pc t = Spawning i \<Longrightarrow> i < 5 \<Longrightarrow> main_step t ((fork_proc 1 Timebomb t)\<lparr>main_pc := Printing i r\<rparr>)"
| spawn_child_fails: "main_pc t = Spawning i \<Longrightarrow> i < 5 \<Longrightarrow> main_step t ((say Perror_fork t)\<lparr>main_pc := Printing i r\<rparr>)"
| print_child: "main_pc t = Printing i r \<Longrightarrow> main_step t ((say (Spawned_child r) t)\<lparr>main_pc := Spawning (Suc i)\<rparr>)"
| spawn_evil: "main_pc t = Spawning i \<Longrightarrow> \<not> i < 5 \<Longrightarrow>
    main_step t ((fork_proc 1 Evil_forking t)\<lparr>main_pc := Waiting_for (next_pid t)\<rparr>)"
| spawn_evil_fails: "main_pc t = Spawning i \<Longrightarrow> \<not> i < 5 \<Longrightarrow> main_step t ((say Perror_fork t)\<lparr>main_pc := Waiting_for_all\<rparr>)"
| wait_evil: "main_pc t = Waiting_for q \<Longrightarrow> p \<in> set (procs t) \<Longrightarrow> pid p = q \<Longrightarrow> ppid p = 1 \<Longrightarrow> pcode p = Zombie st \<Longrightarrow>
    main_step t ((reap q t)\<lparr>main_pc := Waiting_for_all\<rparr>)"
| wait_any: "main_pc t = Waiting_for_all \<Longrightarrow> p \<in> set (procs t) \<Longrightarrow> ppid p = 1 \<Longrightarrow> pcode p = Zombie st \<Longrightarrow>
    main_step t (say (Child_exited (pid p) st) (reap (pid p) t))"
| wait_none: "main_pc t = Waiting_for_all \<Longrightarrow> \<forall>p \<in> set (procs t). ppid p \<noteq> 1 \<Longrightarrow>
    main_step t ((say No_more_children t)\<lparr>main_pc := Returned\<rparr>)"

inductive proc_step :: "nat \<Rightarrow> namespace \<Rightarrow> namespace \<Rightarrow> bool" for q where
  timebomb: "p \<in> set (procs t) \<Longrightarrow> pid p = q \<Longrightarrow> pcode p = Timebomb \<Longrightarrow> proc_step q t (exit_proc q 0 (say (Terminating q) t))"
| evil_fork: "p \<in> set (procs t) \<Longrightarrow> pid p = q \<Longrightarrow> pcode p = Evil_forking \<Longrightarrow>
    proc_step q t (set_code q (Evil_printing r) (fork_proc q Timebomb t))"
| evil_fork_fails: "p \<in> set (procs t) \<Longrightarrow> pid p = q \<Longrightarrow> pcode p = Evil_forking \<Longrightarrow>
    proc_step q t (set_code q (Evil_printing r) (say Perror_fork t))"
| evil_print: "p \<in> set (procs t) \<Longrightarrow> pid p = q \<Longrightarrow> pcode p = Evil_printing r \<Longrightarrow>
    proc_step q t (set_code q Evil_exiting (say (Spawned_grandchild r) t))"
| evil_exit: "p \<in> set (procs t) \<Longrightarrow> pid p = q \<Longrightarrow> pcode p = Evil_exiting \<Longrightarrow> proc_step q t (exit_proc q 0 t)"

inductive tree_step :: "namespace \<Rightarrow> namespace \<Rightarrow> bool" where
  "main_step t t' \<Longrightarrow> tree_step t t'"
| "proc_step q t t' \<Longrightarrow> main_pc t \<noteq> Returned \<Longrightarrow> tree_step t t'"

section \<open>Every run ends\<close>

fun code_rank :: "proc_code \<Rightarrow> nat" where
  "code_rank Timebomb = 2"
| "code_rank Evil_forking = 6"
| "code_rank (Evil_printing _) = 3"
| "code_rank Evil_exiting = 2"
| "code_rank (Zombie _) = 1"

fun main_rank :: "main_pc \<Rightarrow> nat" where
  "main_rank Announcing = 80"
| "main_rank (Spawning i) = (5 - i) * 10 + 20"
| "main_rank (Printing i _) = (5 - i) * 10 + 15"
| "main_rank (Waiting_for _) = 10"
| "main_rank Waiting_for_all = 5"
| "main_rank Returned = 0"

definition tree_rank :: "namespace \<Rightarrow> nat" where
  "tree_rank t = main_rank (main_pc t) + sum_list (map (code_rank \<circ> pcode) (procs t))"

definition evil :: "proc_code \<Rightarrow> bool" where
  "evil c \<longleftrightarrow> c = Evil_forking \<or> (\<exists>r. c = Evil_printing r) \<or> c = Evil_exiting"

definition pids :: "namespace \<Rightarrow> nat list" where
  "pids t = map pid (procs t)"

text \<open>
  A process is a child of the program, or of the evil child as long as that has not ended, which is only while the program waits for it.
\<close>

definition child_ok :: "namespace \<Rightarrow> process \<Rightarrow> bool" where
  "child_ok t p \<longleftrightarrow> (\<forall>st. pcode p = Zombie st \<longrightarrow> st = 0) \<and>
     (ppid p = 1 \<or> (\<exists>e \<in> set (procs t). pid e = ppid p \<and> evil (pcode e))) \<and>
     (evil (pcode p) \<longrightarrow> main_pc t = Waiting_for (pid p) \<and> ppid p = 1)"

fun pc_ok :: "nat set \<Rightarrow> main_pc \<Rightarrow> bool" where
  "pc_ok P (Spawning i) \<longleftrightarrow> i \<le> 5"
| "pc_ok P (Printing i _) \<longleftrightarrow> i < 5"
| "pc_ok P (Waiting_for q) \<longleftrightarrow> q \<in> P"
| "pc_ok P _ \<longleftrightarrow> True"

definition tree_ok :: "namespace \<Rightarrow> bool" where
  "tree_ok t \<longleftrightarrow> distinct (pids t) \<and> set (pids t) \<subseteq> {2..<next_pid t} \<and> 2 \<le> next_pid t \<and>
     pc_ok (set (pids t)) (main_pc t) \<and> (\<forall>p \<in> set (procs t). child_ok t p)"

lemmas op_defs = say_def fork_proc_def set_code_def reparent_def exit_proc_def reap_def

lemma pids_ops [simp]:
  "pids (say l t) = pids t" "pids (fork_proc q c t) = pids t @ [next_pid t]" "pids (set_code q c t) = pids t"
  "pids (reparent q t) = pids t" "pids (exit_proc q st t) = pids t" "pids (reap q t) = filter (\<lambda>r. r \<noteq> q) (pids t)"
  "pids (t\<lparr>main_pc := m\<rparr>) = pids t"
  by (auto simp: pids_def op_defs comp_def filter_map intro: map_cong)

lemma fields_ops [simp]:
  "next_pid (say l t) = next_pid t" "next_pid (fork_proc q c t) = Suc (next_pid t)" "next_pid (set_code q c t) = next_pid t"
  "next_pid (exit_proc q st t) = next_pid t" "next_pid (reap q t) = next_pid t"
  "main_pc (say l t) = main_pc t" "main_pc (fork_proc q c t) = main_pc t" "main_pc (set_code q c t) = main_pc t"
  "main_pc (exit_proc q st t) = main_pc t" "main_pc (reap q t) = main_pc t"
  "lines (say l t) = lines t @ [l]" "lines (fork_proc q c t) = lines t" "lines (set_code q c t) = lines t"
  "lines (exit_proc q st t) = lines t" "lines (reap q t) = lines t" "procs (say l t) = procs t"
  "procs (reap q t) = filter (\<lambda>p. pid p \<noteq> q) (procs t)"
  "procs (fork_proc q c t) = procs t @ [\<lparr>pid = next_pid t, ppid = q, pcode = c\<rparr>]"
  by (simp_all add: op_defs)

lemma other_pids: "distinct (map pid (p # ps)) \<Longrightarrow> \<forall>y \<in> set ps. pid y \<noteq> pid p"
  by (metis distinct.simps(2) image_eqI list.simps(9) list.set_map)

lemma sum_update:
  fixes f :: "process \<Rightarrow> nat"
  assumes "distinct (map pid ps)" "p \<in> set ps"
  shows "sum_list (map f (map (\<lambda>x. if pid x = pid p then g x else x) ps)) + f p = sum_list (map f ps) + f (g p)"
  using assms
proof (induction ps)
  case (Cons x ps)
  show ?case
  proof (cases "x = p")
    case True
    then have "map (\<lambda>x. if pid x = pid p then g x else x) ps = ps" using other_pids [of p ps] Cons.prems(1) by (intro map_idI) simp
    with True show ?thesis by simp
  next
    case False
    then have "p \<in> set ps" "pid x \<noteq> pid p" using Cons.prems by force+
    with Cons show ?thesis by simp
  qed
qed simp

lemma sum_reap:
  fixes f :: "process \<Rightarrow> nat"
  assumes "distinct (map pid ps)" "p \<in> set ps"
  shows "sum_list (map f (filter (\<lambda>x. pid x \<noteq> pid p) ps)) + f p = sum_list (map f ps)"
  using assms
proof (induction ps)
  case (Cons x ps)
  show ?case
  proof (cases "x = p")
    case True
    then have "filter (\<lambda>x. pid x \<noteq> pid p) ps = ps" using other_pids [of p ps] Cons.prems(1) by (intro filter_True) simp
    with True show ?thesis by simp
  next
    case False
    then have "p \<in> set ps" "pid x \<noteq> pid p" using Cons.prems by force+
    with Cons show ?thesis by simp
  qed
qed simp

definition procs_rank :: "namespace \<Rightarrow> nat" where
  "procs_rank t = sum_list (map (code_rank \<circ> pcode) (procs t))"

lemma rank_ops [simp]:
  "procs_rank (say l t) = procs_rank t" "procs_rank (fork_proc q c t) = procs_rank t + code_rank c"
  "procs_rank (t\<lparr>main_pc := m\<rparr>) = procs_rank t"
  by (simp_all add: procs_rank_def op_defs)

lemma rank_reparent: "procs_rank (reparent q t) = procs_rank t"
  by (auto simp: procs_rank_def reparent_def comp_def intro!: arg_cong [of _ _ sum_list] map_cong)

lemma rank_set_code:
  assumes "distinct (pids t)" "p \<in> set (procs t)"
  shows "procs_rank (set_code (pid p) c t) + code_rank (pcode p) = procs_rank t + code_rank c"
  using sum_update [OF assms [unfolded pids_def], of "code_rank \<circ> pcode" "\<lambda>x. x\<lparr>pcode := c\<rparr>"]
  by (simp add: procs_rank_def set_code_def)

lemma rank_exit:
  assumes "distinct (pids t)" "p \<in> set (procs t)"
  shows "procs_rank (exit_proc (pid p) st t) + code_rank (pcode p) = procs_rank t + 1"
  using rank_set_code [OF assms, of "Zombie st"] by (simp add: exit_proc_def rank_reparent)

lemma rank_reap:
  assumes "distinct (pids t)" "p \<in> set (procs t)"
  shows "procs_rank (reap (pid p) t) + code_rank (pcode p) = procs_rank t"
  using sum_reap [OF assms [unfolded pids_def], of "code_rank \<circ> pcode"]
  by (simp add: procs_rank_def reap_def)

lemma code_rank_pos: "0 < code_rank c"
  by (cases c) simp_all

lemma step_decreases:
  assumes "tree_step t t'" "tree_ok t"
  shows "tree_rank t' < tree_rank t"
proof -
  have d: "distinct (pids t)" using assms(2) by (simp add: tree_ok_def)
  have r: "tree_rank u = main_rank (main_pc u) + procs_rank u" for u by (simp add: tree_rank_def procs_rank_def)
  from assms(1) show ?thesis
  proof cases
    case 1
    then show ?thesis
    proof cases
      case (wait_any p st)
      then show ?thesis using rank_reap [OF d wait_any(3)] by (simp add: r)
    next
      case (wait_evil q p st)
      then show ?thesis using rank_reap [OF d wait_evil(3)] by (simp add: r)
    qed (use assms(2) in \<open>auto simp: r tree_ok_def Suc_diff_Suc\<close>)
  next
    case (2 q)
    from 2(1) show ?thesis
    proof cases
      case (timebomb p)
      then show ?thesis using rank_exit [of "say (Terminating q) t" p 0] d by (simp add: r)
    next
      case (evil_fork p x)
      have "next_pid t \<notin> set (pids t)" using assms(2) by (auto simp: tree_ok_def)
      then show ?thesis using rank_set_code [of "fork_proc q Timebomb t" p "Evil_printing x"] d evil_fork by (simp add: r)
    next
      case (evil_fork_fails p x)
      then show ?thesis using rank_set_code [of "say Perror_fork t" p "Evil_printing x"] d by (simp add: r)
    next
      case (evil_print p x)
      then show ?thesis using rank_set_code [of "say (Spawned_grandchild x) t" p Evil_exiting] d by (simp add: r)
    next
      case (evil_exit p)
      then show ?thesis using rank_exit [of t p 0] d by (simp add: r)
    qed
  qed
qed

section \<open>The invariant\<close>

lemma evil_simps [simp]:
  "evil Evil_forking" "evil (Evil_printing r)" "evil Evil_exiting" "\<not> evil Timebomb" "\<not> evil (Zombie st)"
  by (simp_all add: evil_def)

lemma no_evil:
  assumes "tree_ok t" "\<And>q. main_pc t \<noteq> Waiting_for q" "p \<in> set (procs t)"
  shows "\<not> evil (pcode p) \<and> ppid p = 1"
proof -
  have "\<not> evil (pcode e)" if "e \<in> set (procs t)" for e using assms(1,2) that by (auto simp: tree_ok_def child_ok_def)
  then show ?thesis using assms(1,3) unfolding tree_ok_def child_ok_def by blast
qed

lemma same_proc: "distinct (pids t) \<Longrightarrow> p \<in> set (procs t) \<Longrightarrow> p' \<in> set (procs t) \<Longrightarrow> pid p = pid p' \<Longrightarrow> p = p'"
  by (auto simp: pids_def distinct_map inj_on_def)

lemma say_ok: "tree_ok t \<Longrightarrow> tree_ok (say l t)"
  by (simp add: tree_ok_def child_ok_def)

lemma pc_change_ok:
  assumes "tree_ok t" "\<And>p. p \<in> set (procs t) \<Longrightarrow> \<not> evil (pcode p)" "pc_ok (set (pids t)) m"
  shows "tree_ok (t\<lparr>main_pc := m\<rparr>)"
  using assms by (auto simp: tree_ok_def child_ok_def)

lemma exit_ok:
  assumes "tree_ok t" "2 \<le> q"
  shows "tree_ok (exit_proc q 0 t)"
proof -
  let ?f = "\<lambda>p. if pid p = q then p\<lparr>pcode := Zombie 0\<rparr> else p" and ?g = "\<lambda>p. if ppid p = q then p\<lparr>ppid := 1\<rparr> else p"
  have "child_ok (exit_proc q 0 t) (?g (?f p))" if p: "p \<in> set (procs t)" for p
  proof -
    have c: "child_ok t p" using assms(1) p by (simp add: tree_ok_def)
    have m: "?g (?f e) \<in> set (procs (exit_proc q 0 t))" if "e \<in> set (procs t)" for e
      using that by (simp add: exit_proc_def set_code_def reparent_def)
    have "\<exists>e' \<in> set (procs (exit_proc q 0 t)). pid e' = ppid p \<and> evil (pcode e')"
      if "ppid p \<noteq> q" "e \<in> set (procs t)" "pid e = ppid p" "evil (pcode e)" for e
      using that by (intro bexI [of _ "?g (?f e)"] m) auto
    then show ?thesis using c assms(2) by (auto simp: child_ok_def)
  qed
  moreover have "set (procs (exit_proc q 0 t)) = (\<lambda>p. ?g (?f p)) ` set (procs t)"
    by (simp add: exit_proc_def set_code_def reparent_def image_image)
  ultimately have "\<forall>p \<in> set (procs (exit_proc q 0 t)). child_ok (exit_proc q 0 t) p"
    by (intro ballI, simp only:) (elim imageE, simp only:)
  then show ?thesis using assms(1) by (simp add: tree_ok_def)
qed

lemma set_code_ok:
  assumes "tree_ok t" "p \<in> set (procs t)" "evil (pcode p)" "evil c"
  shows "tree_ok (set_code (pid p) c t)"
proof -
  let ?f = "\<lambda>x. if pid x = pid p then x\<lparr>pcode := c\<rparr> else x"
  have "child_ok (set_code (pid p) c t) (?f x)" if x: "x \<in> set (procs t)" for x
  proof -
    have c: "child_ok t x" using assms(1) x by (simp add: tree_ok_def)
    have m: "?f e \<in> set (procs (set_code (pid p) c t))" if "e \<in> set (procs t)" for e
      using that by (simp add: set_code_def)
    have "\<exists>e' \<in> set (procs (set_code (pid p) c t)). pid e' = ppid x \<and> evil (pcode e')"
      if "e \<in> set (procs t)" "pid e = ppid x" "evil (pcode e)" for e
      using that assms(4) by (intro bexI [of _ "?f e"] m) auto
    moreover have "x = p" if "pid x = pid p" using same_proc [OF _ x assms(2) that] assms(1) by (simp add: tree_ok_def)
    ultimately show ?thesis using c assms(3,4) by (auto simp: child_ok_def)
  qed
  moreover have "set (procs (set_code (pid p) c t)) = ?f ` set (procs t)" by (simp add: set_code_def)
  ultimately have "\<forall>x \<in> set (procs (set_code (pid p) c t)). child_ok (set_code (pid p) c t) x"
    by (intro ballI, simp only:) (elim imageE, simp only:)
  then show ?thesis using assms(1) by (simp add: tree_ok_def)
qed

lemma pc_ok_mono: "pc_ok P m \<Longrightarrow> P \<subseteq> P' \<Longrightarrow> pc_ok P' m"
  by (cases m) auto

lemma fork_ok:
  assumes "tree_ok t" "q = 1 \<or> (\<exists>e \<in> set (procs t). pid e = q \<and> evil (pcode e))"
  shows "tree_ok (fork_proc q Timebomb t)"
proof -
  have "child_ok t p \<Longrightarrow> child_ok (fork_proc q Timebomb t) p" for p by (auto simp: child_ok_def)
  moreover have "child_ok (fork_proc q Timebomb t) \<lparr>pid = next_pid t, ppid = q, pcode = Timebomb\<rparr>"
    using assms(2) by (auto simp: child_ok_def)
  moreover have "pc_ok (set (pids (fork_proc q Timebomb t))) (main_pc t)"
    using assms(1) by (auto simp: tree_ok_def intro: pc_ok_mono)
  moreover have "next_pid t \<notin> set (pids t)" "set (pids t) \<subseteq> {2..<Suc (next_pid t)}" using assms(1) by (auto simp: tree_ok_def)
  ultimately show ?thesis using assms(1) by (simp add: tree_ok_def)
qed

lemma reap_ok:
  assumes "tree_ok t" "main_pc t = Waiting_for_all"
  shows "tree_ok (reap q t)"
  using assms no_evil [OF assms(1)] by (auto simp: tree_ok_def child_ok_def)

lemma main_step_ok:
  assumes "main_step t t'" "tree_ok t"
  shows "tree_ok t'"
  using assms(1)
proof cases
  case announce
  then show ?thesis using no_evil [OF assms(2)] unfolding announce(1) by (intro pc_change_ok say_ok assms(2)) auto
next
  case (spawn_child i r)
  then show ?thesis using no_evil [OF assms(2)] unfolding spawn_child(1) by (intro pc_change_ok fork_ok assms(2)) auto
next
  case (spawn_child_fails i r)
  then show ?thesis using no_evil [OF assms(2)] unfolding spawn_child_fails(1) by (intro pc_change_ok say_ok assms(2)) auto
next
  case (print_child i r)
  then show ?thesis using no_evil [OF assms(2)] assms(2) unfolding print_child(1) by (intro pc_change_ok say_ok assms(2)) (auto simp: tree_ok_def)
next
  case (spawn_evil i)
  have "\<not> evil (pcode p) \<and> ppid p = 1" if "p \<in> set (procs t)" for p using no_evil [OF assms(2) _ that] spawn_evil by simp
  then show ?thesis using assms(2) spawn_evil by (fastforce simp: tree_ok_def child_ok_def)
next
  case (spawn_evil_fails i)
  then show ?thesis using no_evil [OF assms(2)] unfolding spawn_evil_fails(1) by (intro pc_change_ok say_ok assms(2)) auto
next
  case (wait_evil q p st)
  have "\<not> evil (pcode x)" if "x \<in> set (procs t)" for x
    using that wait_evil assms(2) same_proc [of t p x] by (auto simp: tree_ok_def child_ok_def)
  then have "tree_ok (t\<lparr>main_pc := Waiting_for_all\<rparr>)" using assms(2) by (intro pc_change_ok) auto
  then have "tree_ok (reap q (t\<lparr>main_pc := Waiting_for_all\<rparr>))" by (rule reap_ok) simp
  moreover have "(reap q t)\<lparr>main_pc := Waiting_for_all\<rparr> = reap q (t\<lparr>main_pc := Waiting_for_all\<rparr>)" by (cases t) (simp add: reap_def)
  ultimately show ?thesis using wait_evil(1) by (simp only:)
next
  case (wait_any p st)
  then show ?thesis using assms(2) by (auto intro: say_ok reap_ok)
next
  case wait_none
  then show ?thesis using no_evil [OF assms(2)] unfolding wait_none(1) by (intro pc_change_ok say_ok assms(2)) auto
qed

lemma proc_step_ok:
  assumes "proc_step q t t'" "tree_ok t"
  shows "tree_ok t'"
proof -
  have two: "2 \<le> pid p" if "p \<in> set (procs t)" for p using assms(2) that by (auto simp: tree_ok_def pids_def)
  from assms(1) show ?thesis
  proof cases
    case (timebomb p)
    then show ?thesis using two by (auto intro!: exit_ok say_ok assms(2))
  next
    case (evil_fork p r)
    then have "tree_ok (fork_proc q Timebomb t)" by (intro fork_ok assms(2)) auto
    then show ?thesis using set_code_ok [of "fork_proc q Timebomb t" p "Evil_printing r"] evil_fork by simp
  next
    case (evil_fork_fails p r)
    then show ?thesis using set_code_ok [OF say_ok [OF assms(2)], of p _ "Evil_printing r"] by simp
  next
    case (evil_print p r)
    then show ?thesis using set_code_ok [OF say_ok [OF assms(2)], of p _ Evil_exiting] by simp
  next
    case (evil_exit p)
    then show ?thesis using two by (auto intro!: exit_ok assms(2))
  qed
qed

lemma tree_step_ok: "tree_step t t' \<Longrightarrow> tree_ok t \<Longrightarrow> tree_ok t'"
  by (auto elim!: tree_step.cases intro: main_step_ok proc_step_ok)

definition fork_failed :: "namespace \<Rightarrow> bool" where
  "fork_failed t \<longleftrightarrow> Perror_fork \<in> set (lines t)"

lemma fork_failed_ops [simp]:
  "fork_failed (say l t) \<longleftrightarrow> fork_failed t \<or> l = Perror_fork" "fork_failed (fork_proc q c t) = fork_failed t"
  "fork_failed (set_code q c t) = fork_failed t" "fork_failed (exit_proc q st t) = fork_failed t" "fork_failed (reap q t) = fork_failed t"
  "fork_failed (t\<lparr>main_pc := m\<rparr>) = fork_failed t"
  by (auto simp: fork_failed_def)

lemma proc_possible:
  assumes "p \<in> set (procs t)" "\<And>st. pcode p \<noteq> Zombie st"
  shows "\<exists>t'. proc_step (pid p) t t' \<and> (fork_failed t' \<longrightarrow> fork_failed t)"
proof (cases "pcode p")
  case Timebomb
  then show ?thesis using proc_step.timebomb [OF assms(1) refl] by (auto intro!: exI)
next
  case Evil_forking
  then show ?thesis using proc_step.evil_fork [OF assms(1) refl] by (auto intro!: exI)
next
  case (Evil_printing r)
  then show ?thesis using proc_step.evil_print [OF assms(1) refl] by (auto intro!: exI)
next
  case Evil_exiting
  then show ?thesis using proc_step.evil_exit [OF assms(1) refl] by (auto intro!: exI)
qed (use assms(2) in simp)

lemma step_possible:
  assumes "tree_ok t" "main_pc t \<noteq> Returned"
  shows "\<exists>t'. tree_step t t' \<and> (fork_failed t' \<longrightarrow> fork_failed t)"
proof (cases "\<exists>p \<in> set (procs t). \<forall>st. pcode p \<noteq> Zombie st")
  case True
  then show ?thesis using proc_possible assms(2) by (blast intro: tree_step.intros)
next
  case z: False
  then have z1: "\<exists>st. pcode p = Zombie st" "ppid p = 1" if "p \<in> set (procs t)" for p
    using that assms(1) by (force simp: tree_ok_def child_ok_def)+
  have "\<exists>t'. main_step t t' \<and> (fork_failed t' \<longrightarrow> fork_failed t)"
  proof (cases "main_pc t")
    case Announcing
    then show ?thesis using main_step.announce [OF Announcing] by (auto intro!: exI)
  next
    case (Spawning i)
    then show ?thesis
      using main_step.spawn_child [OF Spawning] main_step.spawn_evil [OF Spawning]
      by (cases "i < 5") (auto intro!: exI)
  next
    case (Printing i r)
    then show ?thesis using main_step.print_child [OF Printing] by (auto intro!: exI)
  next
    case (Waiting_for q)
    then obtain p where p: "p \<in> set (procs t)" "pid p = q" using assms(1) by (auto simp: tree_ok_def pids_def)
    obtain st where "ppid p = 1" "pcode p = Zombie st" using z1 [OF p(1)] by blast
    from main_step.wait_evil [OF Waiting_for p this] show ?thesis by (auto intro!: exI)
  next
    case Waiting_for_all
    show ?thesis
    proof (cases "procs t")
      case Nil
      then show ?thesis using main_step.wait_none [OF Waiting_for_all] by (auto intro!: exI)
    next
      case (Cons p ps)
      then obtain st where "p \<in> set (procs t)" "ppid p = 1" "pcode p = Zombie st" using z1 [of p] by auto
      from main_step.wait_any [OF Waiting_for_all this] show ?thesis by (auto intro!: exI)
    qed
  qed (use assms(2) in simp)
  then show ?thesis by (blast intro: tree_step.intros)
qed

section \<open>Who is reported\<close>

fun exit_report :: "line \<Rightarrow> (nat \<times> int) list" where
  "exit_report (Child_exited q st) = [(q, st)]"
| "exit_report _ = []"

definition reported :: "namespace \<Rightarrow> (nat \<times> int) list" where
  "reported t = concat (map exit_report (lines t))"

lemma reported_ops [simp]:
  "reported (say l t) = reported t @ exit_report l" "reported (fork_proc q c t) = reported t" "reported (set_code q c t) = reported t"
  "reported (exit_proc q st t) = reported t" "reported (reap q t) = reported t" "reported (t\<lparr>main_pc := m\<rparr>) = reported t"
  by (simp_all add: reported_def)

text \<open>Numbers that were given to a process that is neither there nor reported.\<close>

definition gone :: "namespace \<Rightarrow> nat set" where
  "gone t = {2..<next_pid t} - set (pids t) - fst ` set (reported t)"

definition unforked :: "namespace \<Rightarrow> bool" where
  "unforked t \<longleftrightarrow> (\<exists>p \<in> set (procs t). pcode p = Evil_forking)"

fun numbers_ok :: "bool \<Rightarrow> nat \<Rightarrow> nat set \<Rightarrow> main_pc \<Rightarrow> bool" where
  "numbers_ok u n g Announcing \<longleftrightarrow> n = 2 \<and> g = {}"
| "numbers_ok u n g (Spawning i) \<longleftrightarrow> n = 2 + i \<and> g = {}"
| "numbers_ok u n g (Printing i _) \<longleftrightarrow> n = 3 + i \<and> g = {}"
| "numbers_ok u n g (Waiting_for q) \<longleftrightarrow> q = 7 \<and> n = (if u then 8 else 9) \<and> g = {}"
| "numbers_ok u n g _ \<longleftrightarrow> n = 9 \<and> g = {7}"

definition report_ok :: "namespace \<Rightarrow> bool" where
  "report_ok t \<longleftrightarrow> distinct (map fst (reported t)) \<and> fst ` set (reported t) \<subseteq> {2..<next_pid t} - set (pids t) \<and>
     snd ` set (reported t) \<subseteq> {0} \<and>
     (\<not> fork_failed t \<longrightarrow> numbers_ok (unforked t) (next_pid t) (gone t) (main_pc t)) \<and>
     (main_pc t = Returned \<longrightarrow> procs t = [] \<and> lines t \<noteq> [] \<and> last (lines t) = No_more_children)"

lemma unforked_ops [simp]:
  "unforked (say l t) = unforked t" "unforked (t\<lparr>main_pc := m\<rparr>) = unforked t"
  "unforked (fork_proc q c t) \<longleftrightarrow> unforked t \<or> c = Evil_forking"
  by (auto simp: unforked_def)

lemma unforked_set_code [simp]:
  "c \<noteq> Evil_forking \<Longrightarrow> unforked (set_code q c t) \<longleftrightarrow> (\<exists>p \<in> set (procs t). pid p \<noteq> q \<and> pcode p = Evil_forking)"
  by (auto simp: unforked_def set_code_def)

lemma unforked_reparent [simp]: "unforked (reparent q t) = unforked t"
proof -
  have "unforked t \<longleftrightarrow> Evil_forking \<in> pcode ` set (procs t)" for t unfolding unforked_def image_iff by metis
  moreover have "map pcode (procs (reparent q t)) = map pcode (procs t)" by (simp add: reparent_def)
  then have "pcode ` set (procs (reparent q t)) = pcode ` set (procs t)" by (metis list.set_map)
  ultimately show ?thesis by blast
qed

lemma unforked_exit [simp]:
  "unforked (exit_proc q st t) \<longleftrightarrow> (\<exists>p \<in> set (procs t). pid p \<noteq> q \<and> pcode p = Evil_forking)"
  by (simp add: exit_proc_def)

lemma unforked_pid:
  assumes "tree_ok t" "x \<in> set (procs t)" "evil (pcode x)"
  shows "main_pc t = Waiting_for (pid x)"
  using assms unfolding tree_ok_def child_ok_def by blast

lemma gone_ops [simp]:
  "exit_report l = [] \<Longrightarrow> gone (say l t) = gone t" "gone (t\<lparr>main_pc := m\<rparr>) = gone t" "gone (set_code q c t) = gone t"
  "gone (exit_proc q st t) = gone t"
  by (simp_all add: gone_def)

lemma gone_fork:
  assumes "tree_ok t" "report_ok t"
  shows "gone (fork_proc q c t) = gone t"
  using assms by (auto simp: gone_def tree_ok_def report_ok_def)

lemma main_step_report:
  assumes "main_step t t'" "tree_ok t" "report_ok t"
  shows "report_ok t'"
  using assms(1)
proof cases
  case announce
  then show ?thesis using assms(3) by (auto simp: report_ok_def)
next
  case (spawn_child i r)
  then show ?thesis using assms(2,3) gone_fork [OF assms(2,3)] by (auto simp: report_ok_def tree_ok_def)
next
  case (spawn_child_fails i r)
  then show ?thesis using assms(3) by (auto simp: report_ok_def)
next
  case (print_child i r)
  then show ?thesis using assms(3) by (auto simp: report_ok_def)
next
  case (spawn_evil i)
  then have "i = 5" using assms(2) by (simp add: tree_ok_def)
  then show ?thesis using spawn_evil assms(2,3) gone_fork [OF assms(2,3)] by (auto simp: report_ok_def tree_ok_def)
next
  case (spawn_evil_fails i)
  then show ?thesis using assms(3) by (auto simp: report_ok_def)
next
  case (wait_evil q p st)
  have q: "q \<in> set (pids t)" "q \<in> {2..<next_pid t}" using wait_evil assms(2) by (auto simp: pids_def tree_ok_def)
  then have "gone (reap q t) = insert q (gone t)" using assms(3) by (auto simp: gone_def report_ok_def)
  moreover have "\<not> unforked t"
  proof
    assume "unforked t"
    then obtain x where x: "x \<in> set (procs t)" "pcode x = Evil_forking" by (auto simp: unforked_def)
    then have "pid x = q" using unforked_pid [OF assms(2), of x] wait_evil(2) by simp
    then have "x = p" using same_proc [of t x p] x(1) wait_evil assms(2) by (simp add: tree_ok_def)
    then show False using x(2) wait_evil by simp
  qed
  ultimately show ?thesis using wait_evil assms(3) by (auto simp: report_ok_def)
next
  case (wait_any p st)
  have q: "pid p \<in> set (pids t)" "pid p \<in> {2..<next_pid t}" "st = 0"
    using wait_any assms(2) by (auto simp: pids_def tree_ok_def child_ok_def)
  then have "gone (say (Child_exited (pid p) st) (reap (pid p) t)) = gone t" by (auto simp: gone_def)
  then show ?thesis using wait_any q assms(3) by (auto simp: report_ok_def)
next
  case wait_none
  then have "procs t = []" using no_evil [OF assms(2)] by (cases "procs t") auto
  then show ?thesis using wait_none assms(3) by (auto simp: report_ok_def)
qed

lemma proc_step_report:
  assumes "proc_step q t t'" "tree_ok t" "report_ok t" "main_pc t \<noteq> Returned"
  shows "report_ok t'"
proof -
  have others: "\<not> (\<exists>x \<in> set (procs t). pid x \<noteq> q \<and> pcode x = Evil_forking)" if "p \<in> set (procs t)" "pid p = q" "evil (pcode p)" for p
    using unforked_pid [OF assms(2)] that by (metis evil_simps(1) main_pc.inject(3))
  have self: "unforked t \<longleftrightarrow> (\<exists>x \<in> set (procs t). pid x \<noteq> q \<and> pcode x = Evil_forking)"
    if "p \<in> set (procs t)" "pid p = q" "pcode p \<noteq> Evil_forking" for p
    using that assms(2) same_proc [of t p] unfolding unforked_def tree_ok_def by metis
  from assms(1) show ?thesis
  proof cases
    case (timebomb p)
    then show ?thesis using self [of p] assms(3,4) by (simp add: report_ok_def)
  next
    case (evil_fork p r)
    have "unforked t" "main_pc t = Waiting_for q" using evil_fork assms(2) by (auto simp: unforked_def tree_ok_def child_ok_def)
    then show ?thesis
      using evil_fork others [of p] assms(3) gone_fork [OF assms(2,3)] by (auto simp: report_ok_def)
  next
    case (evil_fork_fails p r)
    then show ?thesis using assms(3,4) by (simp add: report_ok_def)
  next
    case (evil_print p r)
    then show ?thesis using self [of p] assms(3,4) by (simp add: report_ok_def)
  next
    case (evil_exit p)
    then show ?thesis using self [of p] assms(3,4) by (simp add: report_ok_def)
  qed
qed

lemma tree_step_report: "tree_step t t' \<Longrightarrow> tree_ok t \<Longrightarrow> report_ok t \<Longrightarrow> report_ok t'"
  by (auto elim!: tree_step.cases intro: main_step_report proc_step_report)

lemma runs_ok:
  assumes "pretend_to_be_in_container u f = Inr t0" "tree_step\<^sup>*\<^sup>* t0 t"
  shows "tree_ok t \<and> report_ok t"
  using assms(2)
proof induction
  case base
  then show ?case
    using assms(1) by (auto simp: pretend_to_be_in_container_def tree_ok_def report_ok_def pids_def reported_def gone_def split: if_splits)
next
  case (step t t')
  then show ?case by (blast intro: tree_step_ok tree_step_report)
qed

lemma reported_without_failures:
  assumes "report_ok t" "main_pc t = Returned" "\<not> fork_failed t"
  shows "fst ` set (reported t) = {2, 3, 4, 5, 6, 8}"
proof -
  have g: "{2..<9} - fst ` set (reported t) = {7}" "fst ` set (reported t) \<subseteq> {2..<9}"
    using assms by (auto simp: report_ok_def gone_def pids_def)
  have "fst ` set (reported t) = {2..<9} - {7}" using g by blast
  also have "\<dots> = {2, 3, 4, 5, 6, 8}" by auto
  finally show ?thesis .
qed

section \<open>Properties\<close>

text \<open>
  C37. The loop waits for everybody: in every interleaving of the program with its descendants, and whichever forks fail, every
  run is finite and never stuck before the program returns; then no process is left in the namespace, each reported process is reported once, with status
  zero, and, when no fork failed, the reported ones are the five children and the orphaned grandchild, process \<open>8\<close>, but not
  the evil child, process \<open>7\<close>, for which the program has waited before.
\<close>

theorem orphans_all_reaped:
  assumes "pretend_to_be_in_container u f = Inr t0" and "tree_step\<^sup>*\<^sup>* t0 t"
  shows "(\<forall>t'. tree_step t t' \<longrightarrow> tree_rank t' < tree_rank t) \<and> (main_pc t \<noteq> Returned \<longrightarrow> (\<exists>t'. tree_step t t')) \<and>
     (main_pc t = Returned \<longrightarrow> procs t = [] \<and> last (lines t) = No_more_children \<and>
        distinct (map fst (reported t)) \<and> snd ` set (reported t) \<subseteq> {0} \<and>
        (\<not> fork_failed t \<longrightarrow> fst ` set (reported t) = {2, 3, 4, 5, 6, 8}))"
proof -
  from runs_ok [OF assms] have ok: "tree_ok t" "report_ok t" by blast+
  have "\<forall>t'. tree_step t t' \<longrightarrow> tree_rank t' < tree_rank t" using step_decreases [OF _ ok(1)] by blast
  moreover have "main_pc t \<noteq> Returned \<longrightarrow> (\<exists>t'. tree_step t t')" using step_possible [OF ok(1)] by blast
  moreover have "main_pc t = Returned \<longrightarrow> procs t = [] \<and> last (lines t) = No_more_children \<and>
      distinct (map fst (reported t)) \<and> snd ` set (reported t) \<subseteq> {0}" using ok(2) by (simp add: report_ok_def)
  moreover note reported_without_failures [OF ok(2)]
  ultimately show ?thesis by (intro conjI impI) (simp_all only: simp_thms)
qed

lemma returning_run:
  assumes "tree_ok t" "\<not> fork_failed t"
  shows "\<exists>t'. tree_step\<^sup>*\<^sup>* t t' \<and> main_pc t' = Returned \<and> \<not> fork_failed t'"
  using assms
proof (induction "tree_rank t" arbitrary: t rule: less_induct)
  case less
  show ?case
  proof (cases "main_pc t = Returned")
    case False
    then obtain t1 where t1: "tree_step t t1" "\<not> fork_failed t1" using step_possible [OF less.prems(1)] less.prems(2) by blast
    from less.hyps [OF step_decreases [OF t1(1) less.prems(1)] tree_step_ok [OF t1(1) less.prems(1)] t1(2)] t1(1)
    show ?thesis by (meson converse_rtranclp_into_rtranclp)
  qed (use less.prems in blast)
qed

theorem orphans_all_reaped_witness:
  "\<exists>t0 t. pretend_to_be_in_container False False = Inr t0 \<and> tree_step\<^sup>*\<^sup>* t0 t \<and> main_pc t = Returned \<and> procs t = [] \<and>
     fst ` set (reported t) = {2, 3, 4, 5, 6, 8}"
proof -
  obtain t0 where t0: "pretend_to_be_in_container False False = Inr t0" "\<not> fork_failed t0"
    by (auto simp: pretend_to_be_in_container_def fork_failed_def)
  then obtain t where t: "tree_step\<^sup>*\<^sup>* t0 t" "main_pc t = Returned" "\<not> fork_failed t"
    using returning_run [of t0] runs_ok [OF t0(1), of t0] by blast
  from orphans_all_reaped [OF t0(1) t(1)] t t0(1) show ?thesis by blast
qed

end
