(* ===== verification/Notifier.thy ===== *)
theory Notifier
  imports C_Stdio
begin

text \<open>
  \<^verbatim>\<open>here_and_gone/notifier.c\<close>: a program that starts another one and prints what happens to a directory meanwhile.

  A read from the notification group delivers some whole events, each a header of \<open>24\<close> bytes that begins with its length
  and has the kind of the event as a set of bits at offset \<open>8\<close>. What the reads return is a list; behind its end the program waits for
  ever: \<^const>\<open>None\<close>.
\<close>

unbundle bit_operations_syntax

section \<open>The table of events\<close>

definition FAN :: "(string \<times> u64) list" where
  "FAN = [(''ACCESS'', 0x1), (''DELETE'', 0x200), (''MODIFY'', 0x2), (''CLOSE_WRITE'', 0x8), (''CLOSE_NOWRITE'', 0x10), (''OPEN'', 0x20)]"

definition lut :: "u64 list" where
  "lut = map snd FAN"

definition st :: "string list" where
  "st = map fst FAN"

definition event_mask :: u64 where
  "event_mask = foldl (\<lambda>m e. m OR snd e) 0 FAN"

text \<open>The \<open>switch\<close> compares the whole set of bits with each of the constants.\<close>

definition print_event :: "u64 \<Rightarrow> string list" where
  "print_event emask = (case map_of (zip lut st) emask of Some name \<Rightarrow> [name @ [newline]] | None \<Rightarrow> [])"

section \<open>The events of a read\<close>

definition FAN_EVENT_METADATA_LEN :: nat where
  "FAN_EVENT_METADATA_LEN = 24"

definition event_len :: "byte list \<Rightarrow> nat" where
  "event_len buf = of_le_bytes (take 4 buf)"

definition FAN_EVENT_OK :: "byte list \<Rightarrow> bool" where
  "FAN_EVENT_OK buf \<longleftrightarrow> FAN_EVENT_METADATA_LEN \<le> length buf \<and> FAN_EVENT_METADATA_LEN \<le> event_len buf \<and> event_len buf \<le> length buf"

function print_events :: "byte list \<Rightarrow> string list" where
  "print_events buf =
     (if FAN_EVENT_OK buf
      then print_event (of_nat (of_le_bytes (take 8 (drop 8 buf)))) @ print_events (drop (event_len buf) buf)
      else [])"
  by auto
termination print_events
  by (relation "measure length") (auto simp: FAN_EVENT_OK_def FAN_EVENT_METADATA_LEN_def)

declare print_events.simps [simp del]

datatype read_result = Read "byte list" | Again | Read_error

fun monitor :: "read_result list \<Rightarrow> (int \<times> string list) option" where
  "monitor [] = None"
| "monitor (Read_error # rs) = Some (1, [])"
| "monitor (Again # rs) = Some (0, [])"
| "monitor (Read buf # rs) =
     (if buf = [] then Some (0, [])
      else map_option (\<lambda>(e, out). (e, print_events buf @ out)) (monitor rs))"

section \<open>The program\<close>

datatype forked = Fork_failed | In_child "int option" | In_parent

text \<open>
  Which calls fail is given by \<open>init_ok\<close> and \<open>mark_ok\<close>. The child executes the program, or exits when that fails:
  \<open>In_child (Some e)\<close> is a program that was executed and ended with \<open>e\<close>.
\<close>

definition notifier_main :: "bool \<Rightarrow> (u64 \<Rightarrow> bool) \<Rightarrow> forked \<Rightarrow> read_result list \<Rightarrow> string list \<Rightarrow> (int \<times> string list) option" where
  "notifier_main init_ok mark_ok f reads args =
     (if length args \<noteq> 2 then Some (1, [])
      else if \<not> init_ok then Some (1, [])
      else if \<not> mark_ok event_mask then Some (1, [])
      else case f of
        In_child (Some e) \<Rightarrow> Some (e, [])
      | In_child None \<Rightarrow> Some (1, [])
      | Fork_failed \<Rightarrow> Some (1, [])
      | In_parent \<Rightarrow> monitor reads)"

section \<open>Encoded events\<close>

text \<open>An event as the kernel writes it: length, version and header length, emask, descriptor, process.\<close>

record event =
  emask :: u64
  efd :: u32
  epid :: u32

definition encode :: "event \<Rightarrow> byte list" where
  "encode e = le_bytes 4 24 @ [3, 0] @ le_bytes 2 24 @ le_bytes 8 (unat (emask e)) @ le_bytes 4 (unat (efd e)) @ le_bytes 4 (unat (epid e))"

lemma length_encode [simp]: "length (encode e) = 24"
  by (simp add: encode_def)

lemma encode_not_Nil [simp]: "encode e \<noteq> []"
  by (simp add: encode_def)

lemma encode_fields:
  "event_len (encode e @ buf) = 24" "(of_nat (of_le_bytes (take 8 (drop 8 (encode e @ buf)))) :: u64) = emask e"
proof -
  have "take 4 (encode e @ buf) = le_bytes 4 24" by (simp add: encode_def)
  then show "event_len (encode e @ buf) = 24" by (simp add: event_len_def of_le_bytes_le_bytes)
  have "take 8 (drop 8 (encode e @ buf)) = le_bytes 8 (unat (emask e))" by (simp add: encode_def)
  moreover have "unat (emask e) < 256 ^ 8" using unat_u64_lt [of "emask e"] by simp
  ultimately show "(of_nat (of_le_bytes (take 8 (drop 8 (encode e @ buf)))) :: u64) = emask e"
    by (simp add: of_le_bytes_le_bytes)
qed

lemma print_events_Nil: "print_events [] = []"
  by (subst print_events.simps) (simp add: FAN_EVENT_OK_def FAN_EVENT_METADATA_LEN_def)

lemma print_events_encoded:
  "print_events (concat (map encode es)) = concat (map (print_event \<circ> emask) es)"
proof (induction es)
  case (Cons e es)
  let ?buf = "encode e @ concat (map encode es)"
  have ok: "FAN_EVENT_OK ?buf" using encode_fields(1) [of e] by (simp add: FAN_EVENT_OK_def FAN_EVENT_METADATA_LEN_def)
  have "print_events ?buf = print_event (emask e) @ print_events (drop 24 ?buf)"
    using ok encode_fields [of e "concat (map encode es)"] by (subst print_events.simps) (simp only: if_True)
  then show ?case using Cons.IH by simp
qed (simp add: print_events_Nil)

lemma monitor_encoded:
  "list_all (\<lambda>es. es \<noteq> []) ess \<Longrightarrow>
     monitor (map (Read \<circ> concat \<circ> map encode) ess @ rs) =
     map_option (\<lambda>(e, out). (e, concat (map (print_event \<circ> emask) (concat ess)) @ out)) (monitor rs)"
proof (induction ess)
  case Nil
  then show ?case by (simp add: option.map_id0 [unfolded id_def] split_def)
next
  case (Cons es ess)
  then show ?case by (simp add: print_events_encoded option.map_comp comp_def split_def)
qed

definition single :: "u64 \<Rightarrow> bool" where
  "single m \<longleftrightarrow> m \<in> set lut"

text \<open>
  The program prints its events: given whole events in any number of reads, it prints the names of those events whose set of bits is exactly one of
  the six constants, in order, and nothing for the others: the kernel merges events on the
  same file, and merged ones are lost. It exits with zero at the end of the events, and with one after an error.
\<close>

theorem notifier_prints:
  assumes "length args = 2" and "mark_ok 0x23B" and "list_all (\<lambda>es. es \<noteq> []) ess" and "r = Read [] \<or> r = Again \<or> r = Read_error"
  shows "notifier_main True mark_ok In_parent (map (Read \<circ> concat \<circ> map encode) ess @ r # rs) args =
     Some (if r = Read_error then 1 else 0,
       map (\<lambda>e. the (map_of (zip lut st) (emask e)) @ [newline]) (filter (\<lambda>e. single (emask e)) (concat ess)))"
proof -
  have m: "event_mask = 0x23B" by (simp add: event_mask_def FAN_def)
  have p: "print_event m = (if single m then [the (map_of (zip lut st) m) @ [newline]] else [])" for m
    by (auto simp: print_event_def single_def lut_def st_def FAN_def)
  have "concat (map (print_event \<circ> emask) es) =
      map (\<lambda>e. the (map_of (zip lut st) (emask e)) @ [newline]) (filter (\<lambda>e. single (emask e)) es)" for es
    by (induction es) (simp_all add: p)
  then show ?thesis
    using assms m monitor_encoded [OF assms(3), of "r # rs"] by (auto simp: notifier_main_def)
qed

theorem notifier_prints_witness:
  "notifier_main True (\<lambda>m. m = 0x23B) In_parent
     [Read (encode \<lparr>emask = 0x20, efd = 5, epid = 77\<rparr> @ encode \<lparr>emask = 0x21, efd = 6, epid = 77\<rparr>), Again] [''notifier'', ''ls''] =
     Some (0, [''OPEN'' @ [newline]])"
  using notifier_prints [of "[''notifier'', ''ls'']" "\<lambda>m. m = 0x23B"
      "[[\<lparr>emask = 0x20, efd = 5, epid = 77\<rparr>, \<lparr>emask = 0x21, efd = 6, epid = 77\<rparr>]]" Again "[]"]
  by (simp add: single_def lut_def st_def FAN_def)

end
