(* ===== verification/Seccomp.thy ===== *)
theory Seccomp
  imports C_Stdio
begin

text \<open>
  \<^verbatim>\<open>seccomp_sigsys/secc.c\<close>: a program that installs a filter for its system calls and makes a call that the filter refuses.

  The filter is a program for the packet filter of the kernel, whose jumps only go forward. A refused call raises \<open>SIGSYS\<close>; a handler
  runs with the signal blocked, and a signal raised for a refused call while it is blocked ends the process. Returning from a handler is
  a system call itself. The standard output is line buffered on a terminal, fully buffered otherwise, and what is buffered is lost when the
  process is killed. What the library does to find the name of a call, with the numbers of the system calls it makes, is a parameter.
\<close>

section \<open>The filter\<close>

record sock_filter =
  fcode :: nat
  jt :: nat
  jf :: nat
  fk :: u32

record seccomp_data =
  nr :: u32
  arch :: u32

definition BPF_LD_W_ABS :: nat where "BPF_LD_W_ABS = 0x20"
definition BPF_JMP_JEQ_K :: nat where "BPF_JMP_JEQ_K = 0x15"
definition BPF_RET_K :: nat where "BPF_RET_K = 0x06"
definition SECCOMP_RET_ALLOW :: u32 where "SECCOMP_RET_ALLOW = 0x7fff0000"
definition SECCOMP_RET_TRAP :: u32 where "SECCOMP_RET_TRAP = 0x00030000"

definition load_abs :: "seccomp_data \<Rightarrow> u32 \<Rightarrow> u32 option" where
  "load_abs d k = (if k = 0 then Some (nr d) else if k = 4 then Some (arch d) else None)"

text \<open>A program that runs off its end or has an unknown instruction has no result; the kernel does not accept it.\<close>

function bpf_run :: "sock_filter list \<Rightarrow> u32 \<Rightarrow> seccomp_data \<Rightarrow> u32 option" where
  "bpf_run [] a d = None"
| "bpf_run (i # prog) a d =
     (if fcode i = BPF_LD_W_ABS then Option.bind (load_abs d (fk i)) (\<lambda>a. bpf_run prog a d)
      else if fcode i = BPF_JMP_JEQ_K then bpf_run (drop (if a = fk i then jt i else jf i) prog) a d
      else if fcode i = BPF_RET_K then Some (fk i)
      else None)"
  by pat_completeness auto
termination bpf_run
  by (relation "measure (\<lambda>(prog, a, d). length prog)") auto

definition NR_write :: u32 where "NR_write = 1"
definition NR_read :: u32 where "NR_read = 0"
definition NR_rt_sigreturn :: u32 where "NR_rt_sigreturn = 15"

definition filter_prog :: "sock_filter list" where
  "filter_prog =
     [\<lparr>fcode = BPF_LD_W_ABS, jt = 0, jf = 0, fk = 0\<rparr>,
      \<lparr>fcode = BPF_JMP_JEQ_K, jt = 0, jf = 1, fk = NR_write\<rparr>,
      \<lparr>fcode = BPF_RET_K, jt = 0, jf = 0, fk = SECCOMP_RET_ALLOW\<rparr>,
      \<lparr>fcode = BPF_RET_K, jt = 0, jf = 0, fk = SECCOMP_RET_TRAP\<rparr>]"

section \<open>The process\<close>

record secc =
  tty :: bool
  filters :: "sock_filter list option"
  pending :: string
  written :: string

datatype end_of = Exited int | Killed_by_SIGSYS

definition AUDIT_ARCH_X86_64 :: u32 where "AUDIT_ARCH_X86_64 = 0xc000003e"

definition allowed :: "u32 \<Rightarrow> secc \<Rightarrow> bool" where
  "allowed n s = (case filters s of None \<Rightarrow> True
     | Some prog \<Rightarrow> bpf_run prog 0 \<lparr>nr = n, arch = AUDIT_ARCH_X86_64\<rparr> = Some SECCOMP_RET_ALLOW)"

text \<open>Writing what is buffered: a refused \<open>write\<close> is a refused call.\<close>

definition fflush :: "secc \<Rightarrow> secc option" where
  "fflush s = (if pending s = [] then Some s
     else if allowed NR_write s then Some (s\<lparr>written := written s @ pending s, pending := []\<rparr>) else None)"

definition printf :: "string \<Rightarrow> secc \<Rightarrow> secc option" where
  "printf str s = (let s = s\<lparr>pending := pending s @ str\<rparr> in if tty s then fflush s else Some s)"

section \<open>The handler\<close>

text \<open>
  The handler runs with \<open>SIGSYS\<close> blocked, so that its first refused call, or that of its return, ends the process. The result is the
  state in which the interrupted call goes on, or in which the process was killed.
\<close>

definition sigsys_handler :: "(u32 \<Rightarrow> string \<times> u32 list) \<Rightarrow> string \<Rightarrow> u32 \<Rightarrow> secc \<Rightarrow> secc + secc" where
  "sigsys_handler resolve rip n s =
     (case resolve n of (sc_name, calls) \<Rightarrow>
        if \<not> list_all (\<lambda>c. allowed c s) calls then Inl s
        else case printf (''Blocked syscall: '' @ sc_name @ [newline]) s of None \<Rightarrow> Inl s
        | Some s \<Rightarrow> (case printf (''Error code: 1'' @ [newline]) s of None \<Rightarrow> Inl s
        | Some s \<Rightarrow> (case printf (''RIP: '' @ rip @ [newline]) s of None \<Rightarrow> Inl s
        | Some s \<Rightarrow> (case fflush s of None \<Rightarrow> Inl s
        | Some s \<Rightarrow> if allowed NR_rt_sigreturn s then Inr s else Inl s))))"

definition call :: "(u32 \<Rightarrow> string \<times> u32 list) \<Rightarrow> string \<Rightarrow> u32 \<Rightarrow> (secc \<Rightarrow> secc) \<Rightarrow> secc \<Rightarrow> secc + secc" where
  "call resolve rip n effect s = (if allowed n s then Inr (effect s) else sigsys_handler resolve rip n s)"

section \<open>The program\<close>

record setup_fails =
  sigaction_fails :: bool
  no_new_privs_fails :: bool
  seccomp_fails :: bool

definition setup_seccomp :: "setup_fails \<Rightarrow> secc \<Rightarrow> secc option" where
  "setup_seccomp f s =
     (if no_new_privs_fails f then None
      else if seccomp_fails f then None
      else Some (s\<lparr>filters := Some filter_prog\<rparr>))"

text \<open>\<open>exit\<close> and the end of \<open>main\<close> flush the buffer and then end with a system call of their own; before the filter nothing is refused.\<close>

definition exit_early :: "secc \<Rightarrow> end_of \<times> string" where
  "exit_early s = (Exited 1, written s @ pending s)"

definition NR_exit_group :: u32 where "NR_exit_group = 231"

definition setting_up :: string where
  "setting_up = ''Setting up seccomp filter, isn'' @ [CHR 0x27] @ ''t this exciting?''"

definition is_set_up :: string where
  "is_set_up = ''Seccomp filter is set up. Only '' @ [CHR 0x27] @ ''write'' @ [CHR 0x27] @ '' and '' @ [CHR 0x27] @ ''exit'' @ [CHR 0x27] @
     '' syscalls are allowed. Others will trigger SIGSYS.''"

definition secc_main :: "(u32 \<Rightarrow> string \<times> u32 list) \<Rightarrow> string \<Rightarrow> setup_fails \<Rightarrow> bool \<Rightarrow> end_of \<times> string" where
  "secc_main resolve rip f term =
     (let s = \<lparr>tty = term, filters = None, pending = [], written = []\<rparr>
      in if sigaction_fails f then exit_early s
         else case printf (setting_up @ [newline]) s of None \<Rightarrow> (Killed_by_SIGSYS, [])
         | Some s \<Rightarrow> (case setup_seccomp f s of None \<Rightarrow> exit_early s
         | Some s \<Rightarrow> (case printf (is_set_up @ [newline]) s of None \<Rightarrow> (Killed_by_SIGSYS, written s)
         | Some s \<Rightarrow> (case call resolve rip NR_write (\<lambda>s. s\<lparr>written := written s @ ''Hello, world!'' @ [newline]\<rparr>) s of Inl s \<Rightarrow> (Killed_by_SIGSYS, written s)
         | Inr s \<Rightarrow> (case call resolve rip NR_read (\<lambda>s. s) s of Inl s \<Rightarrow> (Killed_by_SIGSYS, written s)
         | Inr s \<Rightarrow> (case printf (''This line should never print.'' @ [newline]) s of None \<Rightarrow> (Killed_by_SIGSYS, written s)
         | Some s \<Rightarrow> (case fflush s of None \<Rightarrow> (Killed_by_SIGSYS, written s)
         | Some s \<Rightarrow> (case call resolve rip NR_exit_group (\<lambda>s. s) s of Inl s \<Rightarrow> (Killed_by_SIGSYS, written s)
         | Inr s \<Rightarrow> (Exited 0, written s)))))))))"

section \<open>Properties\<close>

lemma filter_verdict:
  "bpf_run filter_prog a d = Some (if nr d = NR_write then SECCOMP_RET_ALLOW else SECCOMP_RET_TRAP)"
  by (simp add: filter_prog_def BPF_LD_W_ABS_def BPF_JMP_JEQ_K_def BPF_RET_K_def load_abs_def)

lemma allowed_filtered: "filters s = Some filter_prog \<Longrightarrow> allowed n s \<longleftrightarrow> n = NR_write"
  by (simp add: allowed_def filter_verdict SECCOMP_RET_ALLOW_def SECCOMP_RET_TRAP_def)

text \<open>
  The filter allows exactly the call with the number of \<open>write\<close>, on every architecture, and the program never gets past its refused
  call: when everything is set up, it is killed while it returns from the handler, at the latest. On a terminal everything
  before the refused call has been written; otherwise the lines before are only written by
  the handler, and are lost when the library makes a refused call to find the name.
\<close>

theorem secc_main_killed:
  "bpf_run filter_prog a d = Some (if nr d = NR_write then SECCOMP_RET_ALLOW else SECCOMP_RET_TRAP) \<and>
   secc_main resolve rip \<lparr>sigaction_fails = False, no_new_privs_fails = False, seccomp_fails = False\<rparr> term =
     (Killed_by_SIGSYS,
      (let intro = setting_up @ [newline] @ is_set_up @ [newline];
           hello = ''Hello, world!'' @ [newline];
           report = ''Blocked syscall: '' @ fst (resolve NR_read) @ [newline] @ ''Error code: 1'' @ [newline] @ ''RIP: '' @ rip @ [newline];
           quiet = list_all (\<lambda>c. c = NR_write) (snd (resolve NR_read))
       in if term then intro @ hello @ (if quiet then report else [])
          else hello @ (if quiet then intro @ report else [])))"
  by (cases "resolve NR_read")
    (simp add: filter_verdict secc_main_def setup_seccomp_def printf_def fflush_def call_def sigsys_handler_def allowed_filtered
      allowed_def [of _ "\<lparr>tty = _, filters = None, pending = _, written = _\<rparr>"] NR_read_def NR_write_def NR_rt_sigreturn_def Let_def)

end
