(* ===== verification/Hexdig.thy ===== *)
theory Hexdig
  imports Prelude
begin

text \<open>
  \<^verbatim>\<open>faster_hexdig/test.cc\<close>: three ways to recognise lower-case hexadecimal digits, timed against each other, with a check that
  they count the same.

  A character is signed, a number from \<open>-128\<close> to \<open>127\<close>. The functions of \<open>ctype.h\<close> are those of the C locale, which are false
  for negative arguments. The cycle counter is a sequence of readings.
\<close>

section \<open>The classifiers\<close>

definition signed_char :: "char \<Rightarrow> int" where
  "signed_char c = (let n = of_char c in if n < 128 then n else n - 256)"

definition lower_cond :: "int \<Rightarrow> bool" where
  "lower_cond c \<longleftrightarrow> of_char CHR ''a'' \<le> c \<and> c \<le> of_char CHR ''f'' \<or> of_char CHR ''0'' \<le> c \<and> c \<le> of_char CHR ''9''"

definition isupper :: "int \<Rightarrow> bool" where
  "isupper c \<longleftrightarrow> of_char CHR ''A'' \<le> c \<and> c \<le> of_char CHR ''Z''"

definition isxdigit :: "int \<Rightarrow> bool" where
  "isxdigit c \<longleftrightarrow> of_char CHR ''0'' \<le> c \<and> c \<le> of_char CHR ''9'' \<or> of_char CHR ''a'' \<le> c \<and> c \<le> of_char CHR ''f'' \<or>
     of_char CHR ''A'' \<le> c \<and> c \<le> of_char CHR ''F''"

definition lower_ism :: "int \<Rightarrow> bool" where
  "lower_ism c \<longleftrightarrow> isxdigit c \<and> \<not> isupper c"

text \<open>The table has an entry for each unsigned character; filling it converts each index to a signed one.\<close>

definition init_lu :: "bool list" where
  "init_lu = map (\<lambda>i. lower_cond (if i < 128 then int i else int i - 256)) [0..<256]"

definition lower_lu :: "bool list \<Rightarrow> nat \<Rightarrow> bool" where
  "lower_lu lookup c \<longleftrightarrow> c < 256 \<and> lookup ! c"

section \<open>The benchmark\<close>

record BenchState =
  count_cond :: u64
  count_ism :: u64
  count_lu :: u64
  cycles_cond :: u64
  cycles_ism :: u64
  cycles_lu :: u64
  trials_ran :: u64
  characters_processed :: u64
  reads :: nat

definition new_bench :: BenchState where
  "new_bench = \<lparr>count_cond = 0, count_ism = 0, count_lu = 0, cycles_cond = 0, cycles_ism = 0, cycles_lu = 0,
     trials_ran = 0, characters_processed = 0, reads = 0\<rparr>"

text \<open>One loop over a string; each classifier has two of them to warm up and a third that is timed.\<close>

definition count_loop :: "(char \<Rightarrow> bool) \<Rightarrow> string \<Rightarrow> u64 \<Rightarrow> u64" where
  "count_loop p sv n = foldl (\<lambda>n c. n + of_bool (p c)) n sv"

definition bench_run :: "(nat \<Rightarrow> u64) \<Rightarrow> bool list \<Rightarrow> string \<Rightarrow> BenchState \<Rightarrow> BenchState option" where
  "bench_run rdtsc lookup sv b =
     (let cond = count_loop (\<lambda>c. lower_cond (signed_char c)) sv;
          ism = count_loop (\<lambda>c. lower_ism (signed_char c)) sv;
          lu = count_loop (\<lambda>c. lower_lu lookup (of_char c)) sv;
          i = reads b;
          b = b\<lparr>count_cond := cond (cond (cond (count_cond b))),
                cycles_cond := cycles_cond b + (rdtsc (i + 1) - rdtsc i),
                count_ism := ism (ism (ism (count_ism b))),
                cycles_ism := cycles_ism b + (rdtsc (i + 3) - rdtsc (i + 2)),
                count_lu := lu (lu (lu (count_lu b))),
                cycles_lu := cycles_lu b + (rdtsc (i + 5) - rdtsc (i + 4)),
                reads := i + 6,
                trials_ran := trials_ran b + 1,
                characters_processed := characters_processed b + of_nat (length sv)\<rparr>
      in if count_cond b \<noteq> count_ism b \<or> count_cond b \<noteq> count_lu b then None else Some b)"

text \<open>The program runs on its argument, or on each line of its input; a failed check ends it: \<^const>\<open>None\<close>.\<close>

fun run_all :: "(nat \<Rightarrow> u64) \<Rightarrow> bool list \<Rightarrow> string list \<Rightarrow> BenchState \<Rightarrow> BenchState option" where
  "run_all rdtsc lookup [] b = Some b"
| "run_all rdtsc lookup (sv # svs) b = Option.bind (bench_run rdtsc lookup sv b) (run_all rdtsc lookup svs)"

definition hexdig_main :: "(nat \<Rightarrow> u64) \<Rightarrow> string list \<Rightarrow> string list \<Rightarrow> BenchState option" where
  "hexdig_main rdtsc args input = run_all rdtsc init_lu (if 1 < length args then [args ! 1] else input) new_bench"

section \<open>Properties\<close>

definition lower_hex :: "char \<Rightarrow> bool" where
  "lower_hex c \<longleftrightarrow> c \<in> set ''0123456789abcdef''"

lemma lower_hex_code: "lower_hex c \<longleftrightarrow> of_char c \<in> {48..57 :: nat} \<union> {97..102}"
proof -
  have "lower_hex c \<longleftrightarrow> (of_char c :: nat) \<in> set (map of_char ''0123456789abcdef'')"
    unfolding lower_hex_def set_map by (rule inj_image_mem_iff [OF inj_of_char, symmetric])
  also have "set (map of_char ''0123456789abcdef'') = {48..57 :: nat} \<union> {97..102}"
    by (simp add: atLeastAtMost_insertL [symmetric] atLeastatMost_empty) auto
  finally show ?thesis .
qed

lemma classifiers_agree:
  "lower_cond (signed_char c) = lower_hex c" "lower_ism (signed_char c) = lower_hex c" "lower_lu init_lu (of_char c) = lower_hex c"
proof -
  define n :: nat where "n = of_char c"
  have n: "n < 256" "(of_char c :: int) = int n" unfolding n_def by (simp_all add: of_nat_of_char)
  have h: "lower_hex c \<longleftrightarrow> 48 \<le> n \<and> n \<le> 57 \<or> 97 \<le> n \<and> n \<le> 102" by (auto simp: lower_hex_code n_def)
  show c: "lower_cond (signed_char c) = lower_hex c"
    using n by (auto simp: lower_cond_def signed_char_def Let_def h)
  show "lower_ism (signed_char c) = lower_hex c"
    using n by (auto simp: lower_ism_def isxdigit_def isupper_def signed_char_def Let_def h)
  show "lower_lu init_lu (of_char c) = lower_hex c"
    using n c by (cases "n < 128") (simp_all add: lower_lu_def init_lu_def signed_char_def Let_def flip: n_def)
qed

lemma count_loop_length: "count_loop p sv n = n + of_nat (length (filter p sv))"
  unfolding count_loop_def by (induction sv arbitrary: n) simp_all

definition digits :: "string list \<Rightarrow> nat" where
  "digits svs = sum_list (map (\<lambda>sv. length (filter lower_hex sv)) svs)"

text \<open>
  The three ways are equivalent: the check never fails, for every input and every timing, also with characters
  above \<open>127\<close>. Each counter has three times the number of lower-case hexadecimal digits, as a word.
\<close>

lemma run_all_counts:
  assumes "count_cond b = count_ism b" "count_cond b = count_lu b"
  shows "\<exists>b'. run_all rdtsc init_lu svs b = Some b' \<and> count_cond b' = count_cond b + of_nat (3 * digits svs) \<and>
     count_ism b' = count_cond b' \<and> count_lu b' = count_cond b' \<and> trials_ran b' = trials_ran b + of_nat (length svs) \<and>
     characters_processed b' = characters_processed b + of_nat (length (concat svs)) \<and> reads b' = reads b + 6 * length svs"
  using assms
proof (induction svs arbitrary: b)
  case (Cons sv svs)
  obtain b1 where "bench_run rdtsc init_lu sv b = Some b1" "count_cond b1 = count_cond b + of_nat (3 * length (filter lower_hex sv))"
      "count_ism b1 = count_cond b1" "count_lu b1 = count_cond b1" "trials_ran b1 = trials_ran b + 1"
      "characters_processed b1 = characters_processed b + of_nat (length sv)" "reads b1 = reads b + 6"
    using Cons.prems by (auto simp: bench_run_def Let_def count_loop_length classifiers_agree)
  with Cons.IH [of b1] show ?case by (auto simp: digits_def algebra_simps)
qed (simp add: digits_def)

theorem classifiers_never_disagree:
  "\<exists>b. hexdig_main rdtsc args input = Some b \<and>
     (let svs = if 1 < length args then [args ! 1] else input
      in count_cond b = of_nat (3 * digits svs) \<and> count_ism b = count_cond b \<and> count_lu b = count_cond b \<and>
         trials_ran b = of_nat (length svs) \<and> characters_processed b = of_nat (length (concat svs)) \<and> reads b = 6 * length svs)"
  using run_all_counts [of new_bench rdtsc "if 1 < length args then [args ! 1] else input"]
  by (simp add: hexdig_main_def new_bench_def Let_def)

end
