(* ===== verification/Timewait.thy ===== *)
theory Timewait
  imports C_Stdio
begin


datatype sent = Sent | Interrupted | Not_sent



section \<open>The client\<close>



section \<open>The server\<close>



text \<open>
  Each accepted connection is handed to a worker process, whether or not \<open>fork\<close> or \<open>accept\<close> itself has worked, unless
  the limit is reached. The result is the workers' actions, with their number.
\<close>

datatype accepted = Accepted | Accept_error



section \<open>Loops over descriptors\<close>




section \<open>Properties\<close>





end
