(* ===== verification/Skimmer.thy ===== *)
theory Skimmer
  imports C_Stdio
begin

text \<open>
  \<^verbatim>\<open>skimmer/skimmer.c\<close>: a program that prints where the lines of a file end, with the page and the offset in it.

  Opening, \<open>fstat\<close> and \<open>mmap\<close> may fail; a mapping of an empty file always does.
\<close>

section \<open>The program\<close>

definition pad :: "nat \<Rightarrow> string \<Rightarrow> string" where
  "pad n s = s @ replicate (n - length s) CHR '' ''"

definition row :: "string list \<Rightarrow> string" where
  "row cols = concat (butlast (concat (map (\<lambda>c. [pad 10 c, '' '']) cols))) @ [newline]"

fun skim_loop :: "string \<Rightarrow> nat \<Rightarrow> nat \<Rightarrow> string list" where
  "skim_loop [] line byte_offset = []"
| "skim_loop (c # data) line byte_offset =
     (if c = newline
      then row [dec line, dec byte_offset, dec (byte_offset mod 4096), dec (byte_offset div 4096)] #
        skim_loop data (line + 1) (byte_offset + 1)
      else skim_loop data line (byte_offset + 1))"

record skim_fails =
  fstat_fails :: bool
  mmap_fails :: bool

definition skimmer_main :: "(string \<Rightarrow> string option) \<Rightarrow> skim_fails \<Rightarrow> string list \<Rightarrow> int \<times> string list" where
  "skimmer_main files f args =
     (if length args \<noteq> 2 then (1, [])
      else case files (args ! 1) of
        None \<Rightarrow> (1, [])
      | Some data \<Rightarrow>
          if fstat_fails f then (1, [])
          else if data = [] \<or> mmap_fails f then (1, [])
          else (0, row [''Line'', ''Byte'', ''Page off.'', ''Page''] # skim_loop data 1 0))"

section \<open>Properties\<close>

definition newlines :: "string \<Rightarrow> nat list" where
  "newlines data = filter (\<lambda>i. data ! i = newline) [0..<length data]"

lemma newlines_Cons: "newlines (c # data) = (if c = newline then [0] else []) @ map Suc (newlines data)"
  by (simp add: newlines_def upt_conv_Cons map_Suc_upt [symmetric] filter_map comp_def del: upt_Suc)

lemma skim_loop_newlines:
  "skim_loop data line off =
     map (\<lambda>(k, i). row [dec (line + k), dec (off + i), dec ((off + i) mod 4096), dec ((off + i) div 4096)]) (enumerate 0 (newlines data))"
proof (induction data arbitrary: line off)
  case (Cons c data)
  have e: "enumerate n (map Suc xs) = map (\<lambda>(k, i). (k, Suc i)) (enumerate n xs)" for n xs by (induction xs arbitrary: n) simp_all
  have s: "enumerate (Suc n) xs = map (\<lambda>(k, i). (Suc k, i)) (enumerate n xs)" for n and xs :: "nat list" by (induction xs arbitrary: n) simp_all
  show ?case by (simp add: Cons.IH newlines_Cons e s comp_def split_def)
qed (simp add: newlines_def)

text \<open>
  The program prints one row for each line end of a file that is not empty, in order: the number of the line, counted
  from one, and the position of its end, as a number of bytes, as an offset in its page, and the page. On an empty file it fails.
\<close>

theorem skimmer_rows:
  assumes "files path = Some data"
  shows "skimmer_main files \<lparr>fstat_fails = False, mmap_fails = False\<rparr> [name, path] =
     (if data = [] then (1, [])
      else (0, row [''Line'', ''Byte'', ''Page off.'', ''Page''] #
        map (\<lambda>(k, i). row [dec (k + 1), dec i, dec (i mod 4096), dec (i div 4096)]) (enumerate 0 (newlines data))))"
  using assms by (simp add: skimmer_main_def skim_loop_newlines)

end
