(* ===== verification/Pid1_Wrapper.thy ===== *)
theory Pid1_Wrapper
  imports C_Stdio
begin

text \<open>
  \<^verbatim>\<open>pid_1_signals\<close>: a wrapper that starts a program and ignores, passes on or does not touch the signals it gets meanwhile, and a
  program to be wrapped, which waits for a signal.

  \<open>arrivals i\<close> are the signals that reach the wrapper after its \<open>i\<close>-th look at the child, \<open>child fw i\<close> the status the child
  has ended with by that look, if it has, when the signals \<open>fw\<close> have been sent to it. The first
  process of a namespace does not get signals that it neither handles nor ignores.
\<close>

section \<open>The wrapper\<close>

datatype signal = SIGTERM | SIGINT

datatype status = Exited_with int | Signaled signal

datatype handling = Default | Ignore | Pass

datatype outcome = Exit int | Killed signal

record wrapper =
  handling :: handling
  forwarded :: "signal list"
  messages :: "string list"

definition tell :: "string \<Rightarrow> wrapper \<Rightarrow> wrapper" where
  "tell l w = w\<lparr>messages := messages w @ [l]\<rparr>"

definition signal_pass_handler :: "int \<Rightarrow> signal \<Rightarrow> wrapper \<Rightarrow> wrapper" where
  "signal_pass_handler child_pid sig w = (if 0 < child_pid then w\<lparr>forwarded := forwarded w @ [sig]\<rparr> else w)"

fun deliver :: "bool \<Rightarrow> int \<Rightarrow> signal list \<Rightarrow> wrapper \<Rightarrow> signal + wrapper" where
  "deliver is_init child_pid [] w = Inr w"
| "deliver is_init child_pid (sig # sigs) w =
     (case handling w of
        Pass \<Rightarrow> deliver is_init child_pid sigs (signal_pass_handler child_pid sig w)
      | Ignore \<Rightarrow> deliver is_init child_pid sigs w
      | Default \<Rightarrow> if is_init then deliver is_init child_pid sigs w else Inl sig)"

definition exit_status :: "status \<Rightarrow> int" where
  "exit_status st = (case st of Exited_with n \<Rightarrow> n | Signaled _ \<Rightarrow> 1)"

text \<open>The loop looks at the child \<open>n\<close> more times; an arriving signal cuts the pause between two looks short.\<close>

fun wait_loop :: "(signal list \<Rightarrow> nat \<Rightarrow> status option) \<Rightarrow> (nat \<Rightarrow> signal list) \<Rightarrow> bool \<Rightarrow> int \<Rightarrow> nat \<Rightarrow> nat \<Rightarrow> wrapper \<Rightarrow> outcome \<times> wrapper" where
  "wait_loop child arrivals is_init pid i 0 w = (Exit 0, tell ''Timeout after 10 seconds'' w)"
| "wait_loop child arrivals is_init pid i (Suc n) w =
     (case child (forwarded w) i of
        Some st \<Rightarrow> (Exit (exit_status st), tell ''Child exited'' w)
      | None \<Rightarrow>
          (case deliver is_init pid (arrivals i) w of
             Inl sig \<Rightarrow> (Killed sig, w)
           | Inr w \<Rightarrow> wait_loop child arrivals is_init pid (Suc i) n w))"

definition choose_handling :: "string \<Rightarrow> handling option" where
  "choose_handling mode =
     (if mode = ''--default'' then Some Default
      else if mode = ''--ignore'' then Some Ignore
      else if mode = ''--no-ignore'' then Some Default
      else if mode = ''--pass'' then Some Pass
      else None)"

text \<open>\<open>pid\<close> is what \<open>fork\<close> returns to the wrapper; the child executes the program and never comes back.\<close>

definition wrapper_main ::
  "(signal list \<Rightarrow> nat \<Rightarrow> status option) \<Rightarrow> (nat \<Rightarrow> signal list) \<Rightarrow> bool \<Rightarrow> int \<Rightarrow> string list \<Rightarrow> outcome \<times> wrapper" where
  "wrapper_main child arrivals is_init pid args =
     (let w = \<lparr>handling = Default, forwarded = [], messages = []\<rparr>
      in if length args \<noteq> 3 then (Exit 1, w)
         else if pid = -1 then (Exit 1, w)
         else case choose_handling (args ! 1) of
           None \<Rightarrow> (Exit 1, w\<lparr>forwarded := [SIGTERM]\<rparr>)
         | Some h \<Rightarrow> wait_loop child arrivals is_init pid 0 10 (w\<lparr>handling := h\<rparr>))"

section \<open>The wrapped program\<close>

text \<open>It handles \<open>SIGINT\<close> only, in spite of its name; its signals arrive while it pauses.\<close>

fun sigterm_test :: "signal list \<Rightarrow> nat \<Rightarrow> status option" where
  "sigterm_test [] i = None"
| "sigterm_test (SIGINT # _) i = Some (Exited_with 0)"
| "sigterm_test (SIGTERM # _) i = Some (Signaled SIGTERM)"

section \<open>Properties\<close>

text \<open>What has been passed on before the \<open>i\<close>-th look.\<close>

definition passed :: "handling \<Rightarrow> (nat \<Rightarrow> signal list) \<Rightarrow> nat \<Rightarrow> signal list" where
  "passed h arrivals i = (if h = Pass then concat (map arrivals [0..<i]) else [])"

lemma passed_Suc: "passed h arrivals (Suc i) = passed h arrivals i @ (if h = Pass then arrivals i else [])"
  by (simp add: passed_def)

lemma deliver_survives:
  assumes "0 < pid" "handling w \<noteq> Default \<or> is_init \<or> sigs = []"
  shows "deliver is_init pid sigs w = Inr (w\<lparr>forwarded := forwarded w @ (if handling w = Pass then sigs else [])\<rparr>)"
  using assms
proof (induction sigs arbitrary: w)
  case (Cons sig sigs)
  then show ?case by (cases "handling w") (auto simp: signal_pass_handler_def)
qed simp

lemma deliver_kills: "handling w = Default \<Longrightarrow> \<not> is_init \<Longrightarrow> deliver is_init pid (sig # sigs) w = Inl sig"
  by simp

lemma wait_loop_survives:
  assumes "0 < pid" "\<And>j. j < i + n \<Longrightarrow> h \<noteq> Default \<or> is_init \<or> arrivals j = []" "handling w = h" "forwarded w = passed h arrivals i"
  shows "fst (wait_loop child arrivals is_init pid i n w) =
     (case find (\<lambda>j. child (passed h arrivals j) j \<noteq> None) [i..<i + n] of
        Some j \<Rightarrow> Exit (exit_status (the (child (passed h arrivals j) j))) | None \<Rightarrow> Exit 0)"
  using assms(2-4)
proof (induction n arbitrary: i w)
  case (Suc n)
  have u: "[i..<i + Suc n] = i # [Suc i..<Suc i + n]" by (simp add: upt_conv_Cons)
  show ?case
  proof (cases "child (passed h arrivals i) i")
    case None
    let ?w = "w\<lparr>forwarded := passed h arrivals (Suc i)\<rparr>"
    have "deliver is_init pid (arrivals i) w = Inr ?w"
      using deliver_survives [OF assms(1), of w is_init "arrivals i"] Suc.prems(1) [of i] Suc.prems(2,3) by (simp add: passed_Suc)
    moreover have "fst (wait_loop child arrivals is_init pid (Suc i) n ?w) =
       (case find (\<lambda>j. child (passed h arrivals j) j \<noteq> None) [Suc i..<Suc i + n] of
          Some j \<Rightarrow> Exit (exit_status (the (child (passed h arrivals j) j))) | None \<Rightarrow> Exit 0)"
      using Suc.prems by (intro Suc.IH) auto
    ultimately show ?thesis using None Suc.prems(3) unfolding u by simp
  next
    case (Some st)
    then show ?thesis using Suc.prems(3) unfolding u by simp
  qed
qed simp

text \<open>
  A wrapper that survives its signals, because it ignores them, passes them on, is the first process of its namespace or gets none, ends with
  the status of the child at the first of ten looks at which the child has ended, or with zero. The child
  has got all signals so far, in order, when they are passed on, and none otherwise.
\<close>

theorem wrapper_outcome:
  assumes "choose_handling mode = Some h" and "0 < pid" and "h \<noteq> Default \<or> is_init \<or> (\<forall>j < 10. arrivals j = [])"
  shows "fst (wrapper_main child arrivals is_init pid [name, mode, binary]) =
     (case find (\<lambda>j. child (passed h arrivals j) j \<noteq> None) [0..<10] of
        Some j \<Rightarrow> Exit (exit_status (the (child (passed h arrivals j) j))) | None \<Rightarrow> Exit 0)"
proof -
  let ?w = "\<lparr>handling = h, forwarded = [], messages = []\<rparr>"
  have "fst (wait_loop child arrivals is_init pid 0 10 ?w) =
     (case find (\<lambda>j. child (passed h arrivals j) j \<noteq> None) [0..<0 + 10] of
        Some j \<Rightarrow> Exit (exit_status (the (child (passed h arrivals j) j))) | None \<Rightarrow> Exit 0)"
    using assms(3) by (intro wait_loop_survives assms(2)) (auto simp: passed_def)
  then show ?thesis using assms(1,2) by (simp add: wrapper_main_def)
qed

text \<open>
  With the program of this experiment: passing on \<open>SIGTERM\<close> ends the wrapper with one; ignoring it, the wrapper gives up after ten looks and
  leaves its child running.
\<close>

theorem wrapper_outcome_witness:
  "fst (wrapper_main sigterm_test (\<lambda>i. if i = 3 then [SIGTERM] else []) False 42 [''wrapper'', ''--pass'', ''sigterm_test'']) = Exit 1 \<and>
   fst (wrapper_main sigterm_test (\<lambda>i. if i = 3 then [SIGTERM] else []) False 42 [''wrapper'', ''--ignore'', ''sigterm_test'']) = Exit 0"
  using wrapper_outcome [of "''--pass''" Pass 42 False "\<lambda>i. if i = 3 then [SIGTERM] else []" sigterm_test "''wrapper''" "''sigterm_test''"]
    wrapper_outcome [of "''--ignore''" Ignore 42 False "\<lambda>i. if i = 3 then [SIGTERM] else []" sigterm_test "''wrapper''" "''sigterm_test''"]
  by (simp add: choose_handling_def passed_def exit_status_def upt_rec)

end
