(* ===== verification/Eg_Reader.thy ===== *)
theory Eg_Reader
  imports Mmlog_Shared C_Stdio
begin

text \<open>
  The example \<^verbatim>\<open>fastlog/eg/vm_reader/src/main.cc\<close>: a program that writes six messages to a log, trims it,
  reads the file back and looks for the messages. Its first run passes; what it leaves
  behind is a log that cannot be opened again.
\<close>

section \<open>A data file shorter than a chunk\<close>




lemma respect_idle [simp]: "respect I (\<lambda>w. w) = (\<lambda>w. w)"
  by (simp add: respect_def fun_eq_iff)


section \<open>The program\<close>







section \<open>The first run\<close>










end
