(* ===== verification/Mmlog_Concurrent.thy ===== *)
theory Mmlog_Concurrent
  imports Mmlog_Api
begin

text \<open>
  Several calls of \<open>mmlog_checkout\<close> at once, from threads and processes that share one
  log. Each atomic operation of \<open>mmlog_checkout\<close>, \<open>data_file_expand\<close> and
  \<open>file_expand_inner\<close> (and \<open>ftruncate\<close>) is one step, and the steps of the calls may be
  interleaved in every order. A call is a program counter, whose constructors say
  which operation comes next; each carries the start of the range the call has taken.
\<close>

section \<open>Definitions\<close>

datatype pc =
  PcFetchAdd
| PcLoadSize u64
| PcTryLock u64
| PcLoadPanicked u64
| PcCheckSize u64
| PcTruncate u64
| PcStoreSize u64 u64
| PcStorePanicked u64
| PcUnlock u64
| PcDecide u64
| PcReturn u64
| PcFail u64

record shared =
  md :: log_metadata
  flen :: nat

text \<open>One atomic step of a call that reserves \<open>sz\<close> bytes.\<close>

inductive call_step :: "u64 \<Rightarrow> pc \<times> shared \<Rightarrow> pc \<times> shared \<Rightarrow> bool" for sz :: u64 where
  fetch_add: "call_step sz (PcFetchAdd, s) (PcLoadSize (cursor (md s)),
     s\<lparr>md := (md s)\<lparr>cursor := cursor (md s) + sz\<rparr>\<rparr>)"
| size_fits: "\<not> file_size (md s) < start + sz \<Longrightarrow> call_step sz (PcLoadSize start, s) (PcReturn start, s)"
| size_short: "file_size (md s) < start + sz \<Longrightarrow> call_step sz (PcLoadSize start, s) (PcTryLock start, s)"
| lock_taken: "\<not> is_locked (md s) \<Longrightarrow>
     call_step sz (PcTryLock start, s) (PcLoadPanicked start, s\<lparr>md := (md s)\<lparr>is_locked := True\<rparr>\<rparr>)"
| lock_busy: "is_locked (md s) \<Longrightarrow> call_step sz (PcTryLock start, s) (PcTryLock start, s)"
| timeout: "call_step sz (PcTryLock start, s) (PcFail start, s)"
| panic_seen: "is_panicked (md s) \<Longrightarrow> call_step sz (PcLoadPanicked start, s) (PcTryLock start, s)"
| no_panic: "\<not> is_panicked (md s) \<Longrightarrow> call_step sz (PcLoadPanicked start, s) (PcCheckSize start, s)"
| must_grow: "file_size (md s) < start + sz \<Longrightarrow> call_step sz (PcCheckSize start, s) (PcTruncate start, s)"
| grown_meanwhile: "\<not> file_size (md s) < start + sz \<Longrightarrow> call_step sz (PcCheckSize start, s) (PcUnlock start, s)"
| truncated: "n = ALIGN (start + sz) (chunk_size (md s)) \<Longrightarrow>
     call_step sz (PcTruncate start, s) (PcStoreSize start n, s\<lparr>flen := unat n\<rparr>)"
| truncate_failed: "call_step sz (PcTruncate start, s) (PcStorePanicked start, s)"
| store_size: "call_step sz (PcStoreSize start n, s) (PcUnlock start, s\<lparr>md := (md s)\<lparr>file_size := n\<rparr>\<rparr>)"
| store_panicked: "call_step sz (PcStorePanicked start, s) (PcUnlock start, s\<lparr>md := (md s)\<lparr>is_panicked := True\<rparr>\<rparr>)"
| unlock: "call_step sz (PcUnlock start, s) (PcDecide start, s\<lparr>md := (md s)\<lparr>is_locked := False\<rparr>\<rparr>)"
| decide_ok: "\<not> is_panicked (md s) \<Longrightarrow> call_step sz (PcDecide start, s) (PcReturn start, s)"
| decide_panicked: "is_panicked (md s) \<Longrightarrow> call_step sz (PcDecide start, s) (PcFail start, s)"

inductive_cases call_stepE: "call_step sz (p, s) (p', s')"

text \<open>\<open>n\<close> calls, the \<open>i\<close>-th for \<open>req i\<close> bytes; every step is a step of one of them.\<close>

inductive calls_step :: "nat \<Rightarrow> (nat \<Rightarrow> u64) \<Rightarrow> (nat \<Rightarrow> pc) \<times> shared \<Rightarrow> (nat \<Rightarrow> pc) \<times> shared \<Rightarrow> bool"
  for n :: nat and req :: "nat \<Rightarrow> u64" where
  "i < n \<Longrightarrow> call_step (req i) (pcs i, s) (p', s') \<Longrightarrow> calls_step n req (pcs, s) (pcs(i := p'), s')"

inductive reachable :: "nat \<Rightarrow> (nat \<Rightarrow> u64) \<Rightarrow> shared \<Rightarrow> (nat \<Rightarrow> pc) \<times> shared \<Rightarrow> bool"
  for n :: nat and req :: "nat \<Rightarrow> u64" and s0 :: shared where
  init: "reachable n req s0 (\<lambda>_. PcFetchAdd, s0)"
| step: "reachable n req s0 x \<Longrightarrow> calls_step n req x y \<Longrightarrow> reachable n req s0 y"

fun start_of :: "pc \<Rightarrow> u64 option" where
  "start_of PcFetchAdd = None"
| "start_of (PcLoadSize a) = Some a" | "start_of (PcTryLock a) = Some a"
| "start_of (PcLoadPanicked a) = Some a" | "start_of (PcCheckSize a) = Some a"
| "start_of (PcTruncate a) = Some a" | "start_of (PcStoreSize a n) = Some a"
| "start_of (PcStorePanicked a) = Some a" | "start_of (PcUnlock a) = Some a"
| "start_of (PcDecide a) = Some a" | "start_of (PcReturn a) = Some a" | "start_of (PcFail a) = Some a"

fun holds_lock :: "pc \<Rightarrow> bool" where
  "holds_lock (PcLoadPanicked a) = True" | "holds_lock (PcCheckSize a) = True"
| "holds_lock (PcTruncate a) = True" | "holds_lock (PcStoreSize a n) = True"
| "holds_lock (PcStorePanicked a) = True" | "holds_lock (PcUnlock a) = True"
| "holds_lock _ = False"

section \<open>Mutual exclusion\<close>

definition excl :: "nat \<Rightarrow> (nat \<Rightarrow> pc) \<times> shared \<Rightarrow> bool" where
  "excl n = (\<lambda>(pcs, s). (\<forall>i < n. holds_lock (pcs i) \<longrightarrow> is_locked (md s) \<and> (\<forall>j < n. holds_lock (pcs j) \<longrightarrow> j = i)))"

lemma excl_step:
  assumes "calls_step n req x y" and "excl n x"
  shows "excl n y"
  using assms
proof (induction rule: calls_step.induct)
  case (1 i pcs s p' s')
  then show ?case
    by (auto simp: excl_def elim!: call_stepE split: if_splits) 
qed

lemma reachable_excl:
  assumes "reachable n req s0 x"
  shows "excl n x"
  using assms
proof (induction rule: reachable.induct)
  case init
  show ?case by (simp add: excl_def)
qed (rule excl_step)

section \<open>Ranges\<close>

definition taken :: "nat \<Rightarrow> (nat \<Rightarrow> u64) \<Rightarrow> (nat \<Rightarrow> pc) \<Rightarrow> nat" where
  "taken n req pcs = (\<Sum>i<n. if start_of (pcs i) = None then 0 else unat (req i))"

definition ranges_ok :: "nat \<Rightarrow> (nat \<Rightarrow> u64) \<Rightarrow> nat \<Rightarrow> (nat \<Rightarrow> pc) \<times> shared \<Rightarrow> bool" where
  "ranges_ok n req c0 = (\<lambda>(pcs, s).
     unat (cursor (md s)) = c0 + taken n req pcs \<and>
     (\<forall>i < n. \<forall>a. start_of (pcs i) = Some a \<longrightarrow>
        c0 \<le> unat a \<and> unat a + unat (req i) \<le> unat (cursor (md s))) \<and>
     (\<forall>i < n. \<forall>j < n. \<forall>a b. i \<noteq> j \<longrightarrow> start_of (pcs i) = Some a \<longrightarrow> start_of (pcs j) = Some b \<longrightarrow>
        unat a + unat (req i) \<le> unat b \<or> unat b + unat (req j) \<le> unat a))"

lemma call_step_start:
  assumes "call_step sz (p, s) (p', s')"
  shows "p = PcFetchAdd \<and> p' = PcLoadSize (cursor (md s)) \<and> cursor (md s') = cursor (md s) + sz \<or>
         (\<exists>a. start_of p = Some a \<and> start_of p' = Some a) \<and> cursor (md s') = cursor (md s)"
  using assms by (auto elim: call_stepE)

lemma taken_start:
  assumes "i < n" "start_of (pcs i) = None" "start_of p' = Some a"
  shows "taken n req (pcs(i := p')) = taken n req pcs + unat (req i)"
proof -
  have i: "i \<in> {..<n}" "finite {..<n}" using assms(1) by simp_all
  have "(\<Sum>j \<in> {..<n} - {i}. if start_of ((pcs(i := p')) j) = None then 0 else unat (req j)) =
        (\<Sum>j \<in> {..<n} - {i}. if start_of (pcs j) = None then 0 else unat (req j))"
    by (rule sum.cong) auto
  then show ?thesis
    unfolding taken_def sum.remove [OF i(2,1)] using assms(2,3) by simp
qed

lemma taken_same:
  assumes "start_of (pcs i) = start_of p'"
  shows "taken n req (pcs(i := p')) = taken n req pcs"
  unfolding taken_def using assms by (intro sum.cong) auto

lemma taken_le:
  assumes "i < n" "start_of (pcs i) = None"
  shows "taken n req pcs + unat (req i) \<le> (\<Sum>j<n. unat (req j))"
proof -
  have "taken n req pcs + unat (req i) = taken n req (pcs(i := PcTryLock 0))"
    using assms by (subst taken_start [where a = 0]) simp_all
  also have "\<dots> \<le> (\<Sum>j<n. unat (req j))"
    unfolding taken_def by (intro sum_mono) simp
  finally show ?thesis .
qed

lemma ranges_okD:
  assumes "ranges_ok n req c0 (pcs, s)" "i < n" "start_of (pcs i) = Some a"
  shows "unat a + unat (req i) \<le> unat (cursor (md s))"
  using assms unfolding ranges_ok_def by auto

lemma ranges_step:
  assumes "calls_step n req x y" and "ranges_ok n req c0 x"
    and fits: "c0 + (\<Sum>j<n. unat (req j)) < 2 ^ 64"
  shows "ranges_ok n req c0 y"
  using assms(1,2)
proof (induction rule: calls_step.induct)
  case (1 i pcs s p' s')
  from call_step_start [OF 1(2)] show ?case
  proof (elim disjE conjE exE)
    assume p: "pcs i = PcFetchAdd" "p' = PcLoadSize (cursor (md s))" "cursor (md s') = cursor (md s) + req i"
    have "unat (cursor (md s) + req i) = unat (cursor (md s)) + unat (req i)"
      using 1(1,3) p(1) fits taken_le [of i n pcs req] by (intro unat_add_no_wrap) (simp add: ranges_ok_def)
    then show ?thesis
      using 1(1,3) p by (auto simp: ranges_ok_def taken_start dest: spec)
  next
    fix a assume "start_of (pcs i) = Some a" "start_of p' = Some a" "cursor (md s') = cursor (md s)"
    then show ?thesis
      using 1(1,3) by (auto simp: ranges_ok_def taken_same split: if_splits)
  qed
qed

lemma reachable_ranges:
  assumes "reachable n req s0 x" and "c0 = unat (cursor (md s0))"
    and "c0 + (\<Sum>j<n. unat (req j)) < 2 ^ 64"
  shows "ranges_ok n req c0 x"
  using assms(1)
proof (induction rule: reachable.induct)
  case init
  show ?case using assms(2) by (simp add: ranges_ok_def taken_def)
next
  case (step x y)
  then show ?case using ranges_step assms(3) by blast
qed

section \<open>Sizes\<close>

fun pc_ok :: "u64 \<Rightarrow> pc \<Rightarrow> shared \<Rightarrow> bool" where
  "pc_ok sz (PcTruncate a) s \<longleftrightarrow> file_size (md s) < a + sz"
| "pc_ok sz (PcStoreSize a n) s \<longleftrightarrow> flen s = unat n \<and> file_size (md s) < n \<and> a + sz \<le> n"
| "pc_ok sz (PcUnlock a) s \<longleftrightarrow> is_panicked (md s) \<or> a + sz \<le> file_size (md s)"
| "pc_ok sz (PcDecide a) s \<longleftrightarrow> is_panicked (md s) \<or> a + sz \<le> file_size (md s)"
| "pc_ok sz (PcReturn a) s \<longleftrightarrow> a + sz \<le> file_size (md s)"
| "pc_ok sz _ s \<longleftrightarrow> True"

fun storing :: "pc \<Rightarrow> bool" where
  "storing (PcStoreSize a n) = True"
| "storing _ = False"

definition sizes_ok :: "nat \<Rightarrow> (nat \<Rightarrow> u64) \<Rightarrow> u32 \<Rightarrow> (nat \<Rightarrow> pc) \<times> shared \<Rightarrow> bool" where
  "sizes_ok n req k = (\<lambda>(pcs, s).
     chunk_size (md s) = k \<and> (\<forall>i < n. pc_ok (req i) (pcs i) s) \<and>
     unat (file_size (md s)) \<le> flen s \<and>
     ((\<forall>i < n. \<not> storing (pcs i)) \<longrightarrow> flen s = unat (file_size (md s))))"

lemma call_step_keeps:
  assumes "call_step sz (p, s) (p', s')" "pc_ok sz p s"
  shows "chunk_size (md s') = chunk_size (md s)" "is_panicked (md s) \<Longrightarrow> is_panicked (md s')"
    "file_size (md s) \<le> file_size (md s')"
    "\<not> holds_lock p \<Longrightarrow> file_size (md s') = file_size (md s) \<and> flen s' = flen s"
  using assms by (auto elim!: call_stepE)

lemma pc_ok_others:
  assumes "call_step sz (p, s) (p', s')" "pc_ok sz p s" "pc_ok sz' q s" "\<not> (holds_lock p \<and> holds_lock q)"
  shows "pc_ok sz' q s'"
  using call_step_keeps [OF assms(1,2)] assms(3,4)
  by (cases q) (auto intro: order_trans)

lemma ALIGN_ge:
  assumes "0 < unat k" "unat x + unat k \<le> 4294967296"
  shows "x \<le> ALIGN x k"
  using ALIGN_bounds [of k x] assms by (simp add: word_le_nat_alt)

lemma pc_ok_step:
  assumes "call_step sz (p, s) (p', s')" "pc_ok sz p s"
    and "\<And>a. start_of p = Some a \<Longrightarrow> unat (a + sz) + unat (chunk_size (md s)) \<le> 2 ^ 32" "0 < unat (chunk_size (md s))"
  shows "pc_ok sz p' s'"
proof -
  have "a + sz \<le> ALIGN (a + sz) (chunk_size (md s))" if "start_of p = Some a" for a
    using assms(3) [OF that] assms(4) by (intro ALIGN_ge) simp_all
  with assms(1,2) show ?thesis
    by (auto elim!: call_stepE simp: not_less intro: order_less_le_trans)
qed

lemma flen_step:
  assumes "call_step sz (p, s) (p', s')" "pc_ok sz p s" "pc_ok sz p' s'"
    and "unat (file_size (md s)) \<le> flen s"
  shows "unat (file_size (md s')) \<le> flen s'"
    and "\<not> storing p \<Longrightarrow> \<not> storing p' \<Longrightarrow> flen s = unat (file_size (md s)) \<Longrightarrow> flen s' = unat (file_size (md s'))"
    and "storing p \<Longrightarrow> flen s' = unat (file_size (md s'))"
  using assms by (auto elim!: call_stepE simp: word_less_nat_alt word_le_nat_alt)

lemma storing_holds: "storing p \<Longrightarrow> holds_lock p"
  by (cases p) simp_all

lemma sizes_step:
  assumes "calls_step n req x y" and "sizes_ok n req k x" and "excl n x" and "ranges_ok n req c0 x"
    and fits: "c0 + (\<Sum>j<n. unat (req j)) + unat k \<le> 2 ^ 32" and k: "0 < unat k"
  shows "sizes_ok n req k y"
  using assms(1-4)
proof (induction rule: calls_step.induct)
  case (1 i pcs s p' s')
  have ok: "pc_ok (req j) (pcs j) s" if "j < n" for j
    using 1(3) that by (simp add: sizes_ok_def)
  have ck: "chunk_size (md s) = k" using 1(3) by (simp add: sizes_ok_def)
  have cur: "unat (cursor (md s)) + unat k \<le> 2 ^ 32"
  proof -
    have "taken n req pcs \<le> (\<Sum>j<n. unat (req j))"
      unfolding taken_def by (intro sum_mono) simp
    with 1(5) fits show ?thesis by (simp add: ranges_ok_def)
  qed
  have "unat (a + req i) + unat (chunk_size (md s)) \<le> 2 ^ 32" if "start_of (pcs i) = Some a" for a
  proof -
    have le: "unat a + unat (req i) \<le> unat (cursor (md s))"
      using 1(5,1) that by (rule ranges_okD)
    then have "unat (a + req i) = unat a + unat (req i)"
      using cur by (intro unat_add_no_wrap) simp
    then show ?thesis using le cur ck by simp
  qed
  then have ok': "pc_ok (req i) p' s'"
    using pc_ok_step [OF 1(2) ok [OF 1(1)]] k ck by simp
  have others: "pc_ok (req j) (pcs j) s'" if "j < n" "j \<noteq> i" for j
    using pc_ok_others [OF 1(2) ok [OF 1(1)] ok [OF that(1)]] 1(1,4) that by (auto simp: excl_def)
  have le: "unat (file_size (md s)) \<le> flen s" using 1(3) by (simp add: sizes_ok_def)
  have ns: "flen s' = unat (file_size (md s'))" if "\<forall>j < n. \<not> storing ((pcs(i := p')) j)"
  proof (cases "storing (pcs i)")
    case False
    then have "\<forall>j < n. \<not> storing (pcs j)" using that by (metis fun_upd_other)
    moreover have "\<not> storing p'" using that 1(1) by (metis fun_upd_same)
    ultimately show ?thesis
      using flen_step(2) [OF 1(2) ok [OF 1(1)] ok' le] False 1(3) by (simp add: sizes_ok_def)
  qed (rule flen_step(3) [OF 1(2) ok [OF 1(1)] ok' le])
  show ?case
    using ok' others ns flen_step(1) [OF 1(2) ok [OF 1(1)] ok' le] call_step_keeps(1) [OF 1(2) ok [OF 1(1)]] ck
    by (auto simp: sizes_ok_def)
qed

lemma reachable_sizes:
  assumes "reachable n req s0 x" and "c0 = unat (cursor (md s0))" and "k = chunk_size (md s0)"
    and "c0 + (\<Sum>j<n. unat (req j)) + unat k \<le> 2 ^ 32" and "0 < unat k"
    and "flen s0 = unat (file_size (md s0))"
  shows "sizes_ok n req k x"
  using assms(1)
proof (induction rule: reachable.induct)
  case init
  show ?case using assms(3,6) by (simp add: sizes_ok_def)
next
  case (step x y)
  moreover have "ranges_ok n req c0 x"
    using reachable_ranges [OF step(1) assms(2)] assms(4) by simp
  ultimately show ?case
    using sizes_step reachable_excl assms(4,5) by blast
qed

section \<open>Properties\<close>

text \<open>
  C18. However the atomic steps of any number of concurrent checkouts interleave, and whatever
  fails on the way: when two of them have returned, their ranges do not overlap, both
  start at or after the old cursor, and the data file is long enough to hold them.
\<close>

theorem concurrent_ranges_disjoint_and_backed:
  assumes "reachable n req s0 (pcs, s)"
    and "unat (cursor (md s0)) + (\<Sum>i<n. unat (req i)) + unat (chunk_size (md s0)) \<le> 2 ^ 32"
    and "0 < unat (chunk_size (md s0))" and "flen s0 = unat (file_size (md s0))"
    and "i < n" and "j < n" and "i \<noteq> j" and "pcs i = PcReturn a" and "pcs j = PcReturn b"
  shows "(unat a + unat (req i) \<le> unat b \<or> unat b + unat (req j) \<le> unat a) \<and>
         unat (cursor (md s0)) \<le> unat a \<and> unat a + unat (req i) \<le> flen s \<and>
         unat (cursor (md s0)) \<le> unat b \<and> unat b + unat (req j) \<le> flen s"
proof -
  let ?c = "unat (cursor (md s0))"
  have r: "ranges_ok n req ?c (pcs, s)"
    using reachable_ranges [OF assms(1) refl] assms(2) by simp
  have sz: "sizes_ok n req (chunk_size (md s0)) (pcs, s)"
    using reachable_sizes [OF assms(1) refl refl assms(2-4)] .
  have backed: "unat c + unat (req l) \<le> flen s" if "l < n" "pcs l = PcReturn c" for c l
  proof -
    have "unat c + unat (req l) \<le> unat (cursor (md s))"
      using ranges_okD [OF r that(1), of c] that(2) by simp
    also have "\<dots> < 18446744073709551616" by (rule unat_u64_lt)
    finally have "unat c + unat (req l) < 18446744073709551616" .
    then have "unat (c + req l) = unat c + unat (req l)"
      by (intro unat_add_no_wrap) simp
    moreover have "c + req l \<le> file_size (md s)" "unat (file_size (md s)) \<le> flen s"
      using sz that by (force simp: sizes_ok_def)+
    ultimately show ?thesis by (simp add: word_le_nat_alt)
  qed
  have "?c \<le> unat a" "?c \<le> unat b" "unat a + unat (req i) \<le> unat b \<or> unat b + unat (req j) \<le> unat a"
    using r assms(5-9) by (auto simp: ranges_ok_def)
  with backed [OF assms(5,8)] backed [OF assms(6,9)] show ?thesis by blast
qed

text \<open>
  C19. The lock in the metadata excludes: at most one call is between taking and releasing it,
  and while one is, the lock flag is set.
\<close>

theorem concurrent_lock_excludes:
  assumes "reachable n req s0 (pcs, s)" and "i < n" and "j < n"
    and "holds_lock (pcs i)" and "holds_lock (pcs j)"
  shows "i = j \<and> is_locked (md s)"
  using reachable_excl [OF assms(1)] assms(2-) by (auto simp: excl_def)

text \<open>
  C20. The data file never shrinks and the recorded size never exceeds it, at every step of
  every interleaving.
\<close>

theorem concurrent_file_never_shrinks:
  assumes "reachable n req s0 (pcs, s)" and "calls_step n req (pcs, s) (pcs', s')"
    and "unat (cursor (md s0)) + (\<Sum>i<n. unat (req i)) + unat (chunk_size (md s0)) \<le> 2 ^ 32"
    and "0 < unat (chunk_size (md s0))" and "flen s0 = unat (file_size (md s0))"
  shows "flen s \<le> flen s' \<and> unat (file_size (md s')) \<le> flen s'"
proof -
  have y: "reachable n req s0 (pcs', s')"
    using assms(1,2) by (rule reachable.step)
  note sx = reachable_sizes [OF assms(1) refl refl assms(3-5)]
  note sy = reachable_sizes [OF y refl refl assms(3-5)]
  have ex: "excl n (pcs, s)" using assms(1) by (rule reachable_excl)
  from assms(2) obtain i p' where i: "i < n" "call_step (req i) (pcs i, s) (p', s')" "pcs' = pcs(i := p')"
    by (auto elim: calls_step.cases)
  have "flen s \<le> flen s'"
  proof (cases "\<exists>a. pcs i = PcTruncate a")
    case True
    then have "\<not> storing (pcs j)" if "j < n" for j
      using ex i(1) that storing_holds by (fastforce simp: excl_def)
    then have "flen s = unat (file_size (md s))"
      using sx by (simp add: sizes_ok_def)
    also have "\<dots> \<le> unat (file_size (md s'))"
      using call_step_keeps(3) [OF i(2)] sx i(1) by (simp add: sizes_ok_def word_le_nat_alt)
    also have "\<dots> \<le> flen s'"
      using sy by (simp add: sizes_ok_def)
    finally show ?thesis .
  next
    case False
    with i(2) show ?thesis by (auto elim: call_stepE)
  qed
  with sy show ?thesis by (simp add: sizes_ok_def)
qed

definition demo_shared :: shared where
  "demo_shared = \<lparr>md = zero_metadata\<lparr>file_size := 4096, chunk_size := 4096\<rparr>, flen = 4096\<rparr>"

lemma demo_reachable_two:
  "reachable 2 (\<lambda>_. 100) demo_shared
     ((\<lambda>_. PcFetchAdd)(0 := PcReturn 0, 1 := PcReturn 100),
      demo_shared\<lparr>md := (md demo_shared)\<lparr>cursor := 200\<rparr>\<rparr>)"
proof -
  let ?s1 = "demo_shared\<lparr>md := (md demo_shared)\<lparr>cursor := 100\<rparr>\<rparr>"
  let ?s2 = "demo_shared\<lparr>md := (md demo_shared)\<lparr>cursor := 200\<rparr>\<rparr>"
  let ?p = "\<lambda>_ :: nat. PcFetchAdd"
  have s1: "calls_step 2 (\<lambda>_. 100) (?p, demo_shared) (?p(0 := PcLoadSize 0), ?s1)"
    using calls_step.intros [of 0 2 "\<lambda>_. 100" ?p demo_shared] call_step.fetch_add [of 100 demo_shared]
    by (simp add: demo_shared_def zero_metadata_def)
  have s2: "calls_step 2 (\<lambda>_. 100) (?p(0 := PcLoadSize 0), ?s1) (?p(0 := PcLoadSize 0, 1 := PcLoadSize 100), ?s2)"
    using calls_step.intros [of 1 2 "\<lambda>_. 100" "?p(0 := PcLoadSize 0)" ?s1] call_step.fetch_add [of 100 ?s1]
    by (simp add: demo_shared_def zero_metadata_def)
  have s3: "calls_step 2 (\<lambda>_. 100) (?p(0 := PcLoadSize 0, 1 := PcLoadSize 100), ?s2) (?p(0 := PcReturn 0, 1 := PcLoadSize 100), ?s2)"
    using calls_step.intros [of 0 2 "\<lambda>_. 100" "?p(0 := PcLoadSize 0, 1 := PcLoadSize 100)" ?s2 "PcReturn 0" ?s2] call_step.size_fits [of ?s2 0 100]
    by (simp add: demo_shared_def zero_metadata_def fun_upd_twist)
  have s4: "calls_step 2 (\<lambda>_. 100) (?p(0 := PcReturn 0, 1 := PcLoadSize 100), ?s2) (?p(0 := PcReturn 0, 1 := PcReturn 100), ?s2)"
    using calls_step.intros [of 1 2 "\<lambda>_. 100" "?p(0 := PcReturn 0, 1 := PcLoadSize 100)" ?s2 "PcReturn 100" ?s2] call_step.size_fits [of ?s2 100 100]
    by (simp add: demo_shared_def zero_metadata_def)
  show ?thesis
    by (rule reachable.step [OF reachable.step [OF reachable.step [OF reachable.step [OF reachable.init s1] s2] s3] s4])
qed

theorem concurrent_ranges_disjoint_and_backed_witness:
  "(unat (0 :: u64) + 100 \<le> unat (100 :: u64) \<or> unat (100 :: u64) + 100 \<le> unat (0 :: u64)) \<and>
   unat (100 :: u64) + 100 \<le> flen (demo_shared\<lparr>md := (md demo_shared)\<lparr>cursor := 200\<rparr>\<rparr>)"
  using concurrent_ranges_disjoint_and_backed [OF demo_reachable_two, of 0 1 0 100]
  by (simp add: demo_shared_def zero_metadata_def)

lemma demo_reachable_locked:
  "reachable 1 (\<lambda>_. 5000) demo_shared
     ((\<lambda>_. PcFetchAdd)(0 := PcLoadPanicked 0),
      demo_shared\<lparr>md := (md demo_shared)\<lparr>cursor := 5000, is_locked := True\<rparr>\<rparr>)"
proof -
  let ?s1 = "demo_shared\<lparr>md := (md demo_shared)\<lparr>cursor := 5000\<rparr>\<rparr>"
  let ?p = "\<lambda>_ :: nat. PcFetchAdd"
  have s1: "calls_step 1 (\<lambda>_. 5000) (?p, demo_shared) (?p(0 := PcLoadSize 0), ?s1)"
    using calls_step.intros [of 0 1 "\<lambda>_. 5000" ?p demo_shared] call_step.fetch_add [of 5000 demo_shared]
    by (simp add: demo_shared_def zero_metadata_def)
  have s2: "calls_step 1 (\<lambda>_. 5000) (?p(0 := PcLoadSize 0), ?s1) (?p(0 := PcTryLock 0), ?s1)"
    using calls_step.intros [of 0 1 "\<lambda>_. 5000" "?p(0 := PcLoadSize 0)" ?s1] call_step.size_short [of ?s1 0 5000]
    by (simp add: demo_shared_def zero_metadata_def)
  have s3: "calls_step 1 (\<lambda>_. 5000) (?p(0 := PcTryLock 0), ?s1) (?p(0 := PcLoadPanicked 0), ?s1\<lparr>md := (md ?s1)\<lparr>is_locked := True\<rparr>\<rparr>)"
    using calls_step.intros [of 0 1 "\<lambda>_. 5000" "?p(0 := PcTryLock 0)" ?s1] call_step.lock_taken [of ?s1 5000 0]
    by (simp add: demo_shared_def zero_metadata_def)
  show ?thesis
    using reachable.step [OF reachable.step [OF reachable.step [OF reachable.init s1] s2] s3] by simp
qed

theorem concurrent_lock_excludes_witness:
  "(0 :: nat) = 0 \<and> is_locked (md (demo_shared\<lparr>md := (md demo_shared)\<lparr>cursor := 5000, is_locked := True\<rparr>\<rparr>))"
  using concurrent_lock_excludes [OF demo_reachable_locked, of 0 0] by simp

theorem concurrent_file_never_shrinks_witness:
  "flen demo_shared \<le> flen (demo_shared\<lparr>md := (md demo_shared)\<lparr>cursor := 100\<rparr>\<rparr>) \<and>
   unat (file_size (md (demo_shared\<lparr>md := (md demo_shared)\<lparr>cursor := 100\<rparr>\<rparr>))) \<le>
     flen (demo_shared\<lparr>md := (md demo_shared)\<lparr>cursor := 100\<rparr>\<rparr>)"
proof -
  have "calls_step 1 (\<lambda>_. 100) (\<lambda>_. PcFetchAdd, demo_shared)
      ((\<lambda>_. PcFetchAdd)(0 := PcLoadSize 0), demo_shared\<lparr>md := (md demo_shared)\<lparr>cursor := 100\<rparr>\<rparr>)"
    using calls_step.intros [of 0 1 "\<lambda>_. 100" "\<lambda>_. PcFetchAdd" demo_shared] call_step.fetch_add [of 100 demo_shared]
    by (simp add: demo_shared_def zero_metadata_def)
  from concurrent_file_never_shrinks [OF reachable.init this] show ?thesis
    by (simp add: demo_shared_def zero_metadata_def)
qed

section \<open>The sequential model is one of the interleavings\<close>

definition shared_of :: "nat \<Rightarrow> nat \<Rightarrow> log_world \<Rightarrow> shared" where
  "shared_of mi di w = \<lparr>md = metas w mi, flen = fsize (inodes w di)\<rparr>"

lemma solo_run_fits:
  assumes "\<not> file_size (md s) < cursor (md s) + sz"
  shows "(call_step sz)\<^sup>*\<^sup>* (PcFetchAdd, s)
     (PcReturn (cursor (md s)), s\<lparr>md := (md s)\<lparr>cursor := cursor (md s) + sz\<rparr>\<rparr>)"
proof -
  let ?s1 = "s\<lparr>md := (md s)\<lparr>cursor := cursor (md s) + sz\<rparr>\<rparr>"
  have "call_step sz (PcFetchAdd, s) (PcLoadSize (cursor (md s)), ?s1)" by (rule fetch_add)
  moreover have "call_step sz (PcLoadSize (cursor (md s)), ?s1) (PcReturn (cursor (md s)), ?s1)"
    using assms by (intro size_fits) simp
  ultimately show ?thesis by (meson r_into_rtranclp rtranclp_trans)
qed

lemma solo_run_grows:
  assumes "file_size (md s) < cursor (md s) + sz" "\<not> is_locked (md s)" "\<not> is_panicked (md s)"
    and n: "n = ALIGN (cursor (md s) + sz) (chunk_size (md s))"
  shows "(call_step sz)\<^sup>*\<^sup>* (PcFetchAdd, s)
     (PcReturn (cursor (md s)), s\<lparr>md := (md s)\<lparr>cursor := cursor (md s) + sz, file_size := n\<rparr>, flen := unat n\<rparr>)"
proof -
  let ?a = "cursor (md s)"
  let ?s1 = "s\<lparr>md := (md s)\<lparr>cursor := ?a + sz\<rparr>\<rparr>"
  let ?s2 = "?s1\<lparr>md := (md ?s1)\<lparr>is_locked := True\<rparr>\<rparr>"
  let ?s3 = "?s2\<lparr>flen := unat n\<rparr>"
  let ?s4 = "?s3\<lparr>md := (md ?s3)\<lparr>file_size := n\<rparr>\<rparr>"
  let ?s5 = "?s4\<lparr>md := (md ?s4)\<lparr>is_locked := False\<rparr>\<rparr>"
  note step = converse_rtranclp_into_rtranclp [where r = "call_step sz"]
  have "(call_step sz)\<^sup>*\<^sup>* (PcUnlock ?a, ?s4) (PcReturn ?a, ?s5)"
    using assms(3) by (intro step [OF unlock] step [OF decide_ok] rtranclp.rtrancl_refl) simp
  then have "(call_step sz)\<^sup>*\<^sup>* (PcTruncate ?a, ?s2) (PcReturn ?a, ?s5)"
    using n by (intro step [OF truncated [where n = n]] step [OF store_size]) simp_all
  then have "(call_step sz)\<^sup>*\<^sup>* (PcLoadPanicked ?a, ?s2) (PcReturn ?a, ?s5)"
    using assms(1,3) by (intro step [OF no_panic] step [OF must_grow]) simp_all
  then have "(call_step sz)\<^sup>*\<^sup>* (PcTryLock ?a, ?s1) (PcReturn ?a, ?s5)"
    using assms(2) by (intro step [OF lock_taken]) simp_all
  then have "(call_step sz)\<^sup>*\<^sup>* (PcFetchAdd, s) (PcReturn ?a, ?s5)"
    using assms(1) by (intro step [OF fetch_add] step [OF size_short]) simp_all
  moreover have "?s5 = s\<lparr>md := (md s)\<lparr>cursor := ?a + sz, file_size := n\<rparr>, flen := unat n\<rparr>"
    using assms(2) by (cases s, cases "md s") simp
  ultimately show ?thesis by simp
qed

text \<open>
  C21. The atomic steps are those of the code: a call of the sequential model \<open>mmlog_checkout\<close> that
  nobody disturbs does to the metadata and the file length exactly what some run of
  the step relation does, and returns the same range.
\<close>

theorem checkout_refines_steps:
  assumes "handles w h = Some hn" and "meta_ino (metadata hn) w = Some mi" and "fdtab w (data_fd hn) = Some di"
    and "meta_ok (metas w mi) (inodes w di)" and "faults w = []"
    and "unat (cursor (metas w mi)) + unat sz + unat (chunk_size (metas w mi)) \<le> 2 ^ 32"
  shows "\<exists>w'. mmlog_checkout env (Some h) sz w = Some (cursor (metas w mi), w') \<and>
     (call_step sz)\<^sup>*\<^sup>* (PcFetchAdd, shared_of mi di w) (PcReturn (cursor (metas w mi)), shared_of mi di w')"
proof -
  obtain w' where w': "mmlog_checkout env (Some h) sz w = Some (cursor (metas w mi), w')"
     "core w' = core (reserved mi di sz w)"
    using mmlog_checkout_reserves [OF assms] by blast
  have eq: "shared_of mi di w' = shared_of mi di (reserved mi di sz w)"
    using core_eqD [OF w'(2)] by (simp add: shared_of_def)
  have "\<not> is_locked (metas w mi)" "\<not> is_panicked (metas w mi)"
    using assms(4) by (auto simp: meta_ok_def)
  with solo_run_fits [of "shared_of mi di w" sz] solo_run_grows [of "shared_of mi di w" sz, OF _ _ _ refl]
  have "(call_step sz)\<^sup>*\<^sup>* (PcFetchAdd, shared_of mi di w) (PcReturn (cursor (metas w mi)), shared_of mi di (reserved mi di sz w))"
    by (cases "file_size (metas w mi) < cursor (metas w mi) + sz")
       (simp_all add: shared_of_def reserved_def grown_def Let_def)
  with w'(1) eq show ?thesis by auto
qed

theorem checkout_refines_steps_witness:
  "\<exists>w'. mmlog_checkout (\<lambda>w. w) (Some 0) 5000 demo_world = Some (0, w') \<and>
     (call_step 5000)\<^sup>*\<^sup>* (PcFetchAdd, shared_of 0 1 demo_world) (PcReturn 0, shared_of 0 1 w')"
proof -
  have "meta_ok (metas demo_world 0) (inodes demo_world 1)"
    using demo_world_log_ok by (rule log_okE)
  then show ?thesis
    using checkout_refines_steps [of demo_world 0 _ 0 1 5000 "\<lambda>w. w"] by simp
qed

end
