(* ===== verification/Nopeeking.thy ===== *)
theory Nopeeking
  imports C_String
begin

text \<open>
  The message registry, \<^verbatim>\<open>nopeeking_registry/src/nopeeking.c\<close>: a process leaves a message in
  a multicast socket and others look at it without consuming it.

  \<open>np_world\<close> is the process with its sockets. \<open>fdt\<close> maps descriptors to sockets (two
  descriptors may share one after \<open>dup2\<close>), \<open>outbox\<close> is what was sent, with its
  destination. What the kernel decides is data of the world: \<open>fails\<close> says of each
  fallible call in turn whether it fails (when the list is used up they succeed), \<open>rnd\<close>
  are the results of \<open>rand\<close>, \<open>dup_ok\<close> says which descriptor numbers \<open>dup2\<close> accepts,
  \<open>links\<close> is \<^verbatim>\<open>/proc/<pid>/fd/<fd>\<close>, and \<open>udp\<close> is \<^verbatim>\<open>/proc/net/udp\<close> line by line
  as \<open>sscanf\<close> reads it, \<^const>\<open>None\<close> for a line it cannot read completely.
  Messages to the terminal are left out.
\<close>

section \<open>State\<close>

record multicast_context =
  sockfd :: int
  sin_addr :: u32
  sin_port :: nat
  multicast_addr :: string
  port :: int

record sock =
  ttl :: "int option"
  reuse :: bool
  peer :: "(u32 \<times> nat) option"
  bound :: "nat option"
  groups :: "u32 list"
  rqueue :: "byte list list"

record udp_entry =
  local_addr :: "u32 list"
  local_port :: u32
  remote_addr :: "u32 list"
  remote_port :: u32
  socket_inode :: u32

record np_world =
  g_multicast_ctx :: multicast_context
  g_sequence_id :: u32
  fdt :: "int \<rightharpoonup> nat"
  next_sockfd :: int
  socks :: "nat \<Rightarrow> sock"
  next_sid :: nat
  outbox :: "((u32 \<times> nat) option \<times> byte list) list"
  fails :: "bool list"
  rnd :: "nat list"
  dup_ok :: "int \<Rightarrow> bool"
  links :: "int \<Rightarrow> int \<Rightarrow> string option"
  udp :: "udp_entry option list option"

definition zero_ctx :: multicast_context where
  "zero_ctx = \<lparr>sockfd = 0, sin_addr = 0, sin_port = 0, multicast_addr = [], port = 0\<rparr>"

definition fresh_sock :: sock where
  "fresh_sock = \<lparr>ttl = None, reuse = False, peer = None, bound = None, groups = [], rqueue = []\<rparr>"

section \<open>Calls to the system\<close>

definition call_fails :: "np_world \<Rightarrow> bool \<times> np_world" where
  "call_fails w = (case fails w of [] \<Rightarrow> (False, w) | f # fs \<Rightarrow> (f, w\<lparr>fails := fs\<rparr>))"

definition c_rand :: "np_world \<Rightarrow> nat \<times> np_world" where
  "c_rand w = (case rnd w of [] \<Rightarrow> (0, w) | r # rs \<Rightarrow> (r, w\<lparr>rnd := rs\<rparr>))"

definition sys_socket :: "np_world \<Rightarrow> int \<times> np_world" where
  "sys_socket w =
     (case call_fails w of
        (True, w) \<Rightarrow> (-1, w)
      | (False, w) \<Rightarrow>
          (next_sockfd w, w\<lparr>fdt := (fdt w)(next_sockfd w \<mapsto> next_sid w), next_sockfd := next_sockfd w + 1,
             socks := (socks w)(next_sid w := fresh_sock), next_sid := Suc (next_sid w)\<rparr>))"

text \<open>A call that changes one socket (\<open>setsockopt\<close>, \<open>bind\<close>, \<open>connect\<close>): whether it worked.\<close>

definition on_sock :: "int \<Rightarrow> (sock \<Rightarrow> sock) \<Rightarrow> np_world \<Rightarrow> bool \<times> np_world" where
  "on_sock fd f w =
     (case call_fails w of
        (True, w) \<Rightarrow> (False, w)
      | (False, w) \<Rightarrow>
          (case fdt w fd of
             None \<Rightarrow> (False, w)
           | Some s \<Rightarrow> (True, w\<lparr>socks := (socks w)(s := f (socks w s))\<rparr>)))"

definition close_fd :: "int \<Rightarrow> np_world \<Rightarrow> np_world" where
  "close_fd fd w = w\<lparr>fdt := (fdt w)(fd := None)\<rparr>"

definition sys_dup2 :: "int \<Rightarrow> int \<Rightarrow> np_world \<Rightarrow> bool \<times> np_world" where
  "sys_dup2 old new w =
     (case fdt w old of
        None \<Rightarrow> (False, w)
      | Some s \<Rightarrow> if dup_ok w new then (True, w\<lparr>fdt := (fdt w)(new \<mapsto> s)\<rparr>) else (False, w))"

definition sys_send :: "int \<Rightarrow> byte list \<Rightarrow> np_world \<Rightarrow> int \<times> np_world" where
  "sys_send fd bs w =
     (case call_fails w of
        (True, w) \<Rightarrow> (-1, w)
      | (False, w) \<Rightarrow>
          (case fdt w fd of
             None \<Rightarrow> (-1, w)
           | Some s \<Rightarrow> (int (length bs), w\<lparr>outbox := outbox w @ [(peer (socks w s), bs)]\<rparr>)))"

text \<open>
  \<open>recv\<close> of at most \<open>n\<close> bytes: the bytes of the first datagram that fit, \<^const>\<open>None\<close> inside
  for \<open>-1\<close>. Without \<open>MSG_DONTWAIT\<close> an empty queue blocks for ever, which is the outer
  \<^const>\<open>None\<close>. Unless \<open>MSG_PEEK\<close> is given the whole datagram is taken off the queue.
\<close>

definition sys_recv ::
  "int \<Rightarrow> nat \<Rightarrow> bool \<Rightarrow> bool \<Rightarrow> np_world \<Rightarrow> (byte list option \<times> np_world) option" where
  "sys_recv fd n peek dontwait w =
     (case call_fails w of
        (True, w) \<Rightarrow> Some (None, w)
      | (False, w) \<Rightarrow>
          (case fdt w fd of
             None \<Rightarrow> Some (None, w)
           | Some s \<Rightarrow>
               (case rqueue (socks w s) of
                  [] \<Rightarrow> if dontwait then Some (None, w) else None
                | d # q \<Rightarrow>
                    Some (Some (take n d),
                      if peek then w
                      else w\<lparr>socks := (socks w)(s := (socks w s)\<lparr>rqueue := q\<rparr>)\<rparr>))))"

section \<open>Multicast sockets\<close>

definition MCAST_SUCCESS :: int where "MCAST_SUCCESS = 0"
definition MCAST_ERROR_INVALID_ADDR :: int where "MCAST_ERROR_INVALID_ADDR = -1"
definition MCAST_ERROR_SOCKET :: int where "MCAST_ERROR_SOCKET = -2"
definition MCAST_ERROR_TTL :: int where "MCAST_ERROR_TTL = -3"
definition MCAST_ERROR_BIND :: int where "MCAST_ERROR_BIND = -4"
definition MCAST_ERROR_MEMBERSHIP :: int where "MCAST_ERROR_MEMBERSHIP = -5"
definition MCAST_ERROR_CONNECT :: int where "MCAST_ERROR_CONNECT = -6"
definition MCAST_ERROR_SEND :: int where "MCAST_ERROR_SEND = -7"
definition MCAST_ERROR_RECV :: int where "MCAST_ERROR_RECV = -8"

lemmas MCAST_defs = MCAST_SUCCESS_def MCAST_ERROR_INVALID_ADDR_def MCAST_ERROR_SOCKET_def
  MCAST_ERROR_TTL_def MCAST_ERROR_BIND_def MCAST_ERROR_MEMBERSHIP_def MCAST_ERROR_CONNECT_def
  MCAST_ERROR_SEND_def MCAST_ERROR_RECV_def

definition INET_ADDRSTRLEN :: nat where "INET_ADDRSTRLEN = 16"

text \<open>
  The address written by \<open>snprintf\<close> into \<open>size\<close> bytes (cut off when it does not fit) and
  whether it fitted.
\<close>

definition generate_safe_multicast_address :: "nat \<Rightarrow> np_world \<Rightarrow> bool \<times> string \<times> np_world" where
  "generate_safe_multicast_address sz w =
     (let (x, w) = c_rand w; (y, w) = c_rand w; (z, w) = c_rand w;
          s = ''239.'' @ dec (x mod 256) @ ''.'' @ dec (y mod 256) @ ''.'' @ dec (z mod 256)
      in (0 < length s \<and> length s < sz, take (sz - 1) s, w))"

definition is_valid_multicast_address :: "string \<Rightarrow> bool" where
  "is_valid_multicast_address addr_str =
     (case inet_pton addr_str of
        None \<Rightarrow> False
      | Some addr_val \<Rightarrow> 0xE0000000 \<le> addr_val \<and> addr_val \<le> 0xEFFFFFFF)"

definition init_multicast_sender ::
  "multicast_context \<Rightarrow> string option \<Rightarrow> np_world \<Rightarrow> int \<times> multicast_context \<times> np_world" where
  "init_multicast_sender ctx maddr w =
     (let (addr_str, w) =
            (case maddr of
               None \<Rightarrow> (case generate_safe_multicast_address INET_ADDRSTRLEN w of (ok, s, w) \<Rightarrow> (s, w))
             | Some s \<Rightarrow> (s, w))
      in case (is_valid_multicast_address addr_str, inet_pton addr_str) of
           (True, Some mcast) \<Rightarrow>
             (case sys_socket w of
                (fd, w) \<Rightarrow>
                  if fd < 0 then (MCAST_ERROR_SOCKET, ctx, w)
                  else
                    (case on_sock fd (\<lambda>s. s\<lparr>ttl := Some 1\<rparr>) w of
                       (False, w) \<Rightarrow> (MCAST_ERROR_TTL, ctx, close_fd fd w)
                     | (True, w) \<Rightarrow>
                         (let ctx = ctx\<lparr>port := 0\<rparr>
                          in case on_sock fd (\<lambda>s. s\<lparr>peer := Some (mcast, 0)\<rparr>) w of
                               (False, w) \<Rightarrow> (MCAST_ERROR_CONNECT, ctx, close_fd fd w)
                             | (True, w) \<Rightarrow>
                                 (MCAST_SUCCESS,
                                  ctx\<lparr>sockfd := fd, sin_addr := mcast, sin_port := 0,
                                      multicast_addr := take INET_ADDRSTRLEN addr_str\<rparr>, w))))
         | _ \<Rightarrow> (MCAST_ERROR_INVALID_ADDR, ctx, w))"

definition init_multicast_receiver ::
  "multicast_context \<Rightarrow> string \<Rightarrow> int \<Rightarrow> np_world \<Rightarrow> int \<times> multicast_context \<times> np_world" where
  "init_multicast_receiver ctx addr_str prt w =
     (case (is_valid_multicast_address addr_str, inet_pton addr_str) of
        (True, Some mcast) \<Rightarrow>
          (case sys_socket w of
             (fd, w) \<Rightarrow>
               if fd < 0 then (MCAST_ERROR_SOCKET, ctx, w)
               else
                 (case on_sock fd (\<lambda>s. s\<lparr>reuse := True\<rparr>) w of
                    (False, w) \<Rightarrow> (MCAST_ERROR_SOCKET, ctx, close_fd fd w)
                  | (True, w) \<Rightarrow>
                      (let p = nat (prt mod 65536)
                       in case on_sock fd (\<lambda>s. s\<lparr>bound := Some p\<rparr>) w of
                            (False, w) \<Rightarrow> (MCAST_ERROR_BIND, ctx, close_fd fd w)
                          | (True, w) \<Rightarrow>
                              (case on_sock fd (\<lambda>s. s\<lparr>groups := mcast # groups s\<rparr>) w of
                                 (False, w) \<Rightarrow> (MCAST_ERROR_MEMBERSHIP, ctx, close_fd fd w)
                               | (True, w) \<Rightarrow>
                                   (MCAST_SUCCESS,
                                    ctx\<lparr>sockfd := fd, sin_addr := 0, sin_port := p,
                                        multicast_addr := take INET_ADDRSTRLEN addr_str, port := prt\<rparr>, w)))))
      | _ \<Rightarrow> (MCAST_ERROR_INVALID_ADDR, ctx, w))"

definition multicast_send :: "multicast_context \<Rightarrow> byte list \<Rightarrow> np_world \<Rightarrow> int \<times> np_world" where
  "multicast_send ctx bs w =
     (case sys_send (sockfd ctx) bs w of
        (send_len, w) \<Rightarrow> if send_len < 0 then (MCAST_ERROR_SEND, w) else (send_len, w))"

definition multicast_receive ::
  "multicast_context \<Rightarrow> nat \<Rightarrow> bool \<Rightarrow> bool \<Rightarrow> np_world \<Rightarrow> (int \<times> byte list \<times> np_world) option" where
  "multicast_receive ctx max_len peek dontwait w =
     Option.bind (sys_recv (sockfd ctx) max_len peek dontwait w) (\<lambda>(r, w).
       Some (case r of None \<Rightarrow> (MCAST_ERROR_RECV, [], w) | Some bs \<Rightarrow> (int (length bs), bs, w)))"

definition multicast_close :: "np_world \<Rightarrow> np_world" where
  "multicast_close w =
     (close_fd (sockfd (g_multicast_ctx w)) w)\<lparr>g_multicast_ctx := (g_multicast_ctx w)\<lparr>sockfd := -1\<rparr>\<rparr>"

definition multicast_strerror :: "int \<Rightarrow> string" where
  "multicast_strerror e =
     (if e = MCAST_SUCCESS then ''Success''
      else if e = MCAST_ERROR_INVALID_ADDR then ''Invalid multicast address''
      else if e = MCAST_ERROR_SOCKET then ''Socket error''
      else if e = MCAST_ERROR_TTL then ''Failed to set TTL''
      else if e = MCAST_ERROR_BIND then ''Bind error''
      else if e = MCAST_ERROR_MEMBERSHIP then ''Failed to join multicast group''
      else if e = MCAST_ERROR_CONNECT then ''Connect error''
      else if e = MCAST_ERROR_SEND then ''Send error''
      else if e = MCAST_ERROR_RECV then ''Receive error''
      else ''Unknown error'')"

section \<open>Snowflakes\<close>

definition create_snowflake :: "u32 \<Rightarrow> u32 \<Rightarrow> u64" where
  "create_snowflake sz seq = push_bit 32 (ucast sz) OR ucast seq"

definition parse_snowflake :: "u64 \<Rightarrow> u32 \<times> u32" where
  "parse_snowflake sf = (ucast (drop_bit 32 sf), ucast (sf AND 0xFFFFFFFF))"

section \<open>The registry\<close>

text \<open>
  The loop over powers of two from \<open>1 << power\<close> downwards: the first descriptor number
  above the original that \<open>dup2\<close> accepts.
\<close>

fun position_fd :: "int \<Rightarrow> nat \<Rightarrow> np_world \<Rightarrow> int \<times> np_world" where
  "position_fd orig pw w =
     (let target = 2 ^ pw;
          (ok, w') = (if target \<le> orig then (False, w) else sys_dup2 orig target w)
      in if ok then (target, w')
         else (case pw of 0 \<Rightarrow> (-1, w') | Suc p \<Rightarrow> position_fd orig p w'))"

declare position_fd.simps [simp del]

text \<open>The two \<open>return -1\<close> of \<open>np_socket_init\<close> convert to \<open>true\<close>, its result type being \<open>bool\<close>.\<close>

definition np_socket_init :: "np_world \<Rightarrow> bool \<times> np_world" where
  "np_socket_init w =
     (case init_multicast_sender (g_multicast_ctx w) None w of
        (err, ctx, w) \<Rightarrow>
          (let w = w\<lparr>g_multicast_ctx := ctx\<rparr>
           in if err \<noteq> MCAST_SUCCESS then (True, w)
              else
                (case position_fd (sockfd ctx) 30 w of
                   (positioned_fd, w) \<Rightarrow>
                     if positioned_fd = -1 then (True, multicast_close w)
                     else
                       (True, (close_fd (sockfd ctx) w)
                                \<lparr>g_multicast_ctx := (g_multicast_ctx w)\<lparr>sockfd := positioned_fd\<rparr>\<rparr>))))"

definition get_socket_inode :: "int \<Rightarrow> int \<Rightarrow> np_world \<Rightarrow> u64" where
  "get_socket_inode pid fd w =
     (case links w pid fd of
        None \<Rightarrow> -1
      | Some link \<Rightarrow>
          (if take 8 link = ''socket:[''
           then (case strtoul10 (drop 8 link) of
                   (inode, end) \<Rightarrow> if end \<noteq> [] \<and> hd end = CHR '']'' then inode else -1)
           else -1))"

definition addr_of :: "u32 list \<Rightarrow> u32" where
  "addr_of a = push_bit 24 (a ! 0) OR push_bit 16 (a ! 1) OR push_bit 8 (a ! 2) OR a ! 3"

text \<open>The body of the search loop for the line of the socket.\<close>

definition join_group ::
  "udp_entry \<Rightarrow> multicast_context \<Rightarrow> np_world \<Rightarrow> int \<times> multicast_context \<times> np_world" where
  "join_group e ctx w =
     (let ctx = ctx\<lparr>port := int (unat (local_port e))\<rparr>;
          ipaddr = addr_of (local_addr e);
          remote_ipaddr = addr_of (remote_addr e)
      in if ipaddr AND 0xF0 = 0xE0 \<or> remote_ipaddr AND 0xF0 = 0xE0
         then
           (let mcast = (if ipaddr AND 0xF0 = 0xE0 then ipaddr else remote_ipaddr);
                ctx = ctx\<lparr>multicast_addr := ''0.0.0.0''\<rparr>;
                ctx = ctx\<lparr>sin_port := unat (local_port e) mod 65536, sin_addr := mcast\<rparr>
            in case sys_socket w of
                 (fd, w) \<Rightarrow>
                   (let ctx = ctx\<lparr>sockfd := fd\<rparr>
                    in if fd = -1 then (-1, ctx, w)
                       else
                         (case on_sock fd (\<lambda>s. s\<lparr>reuse := True\<rparr>) w of
                            (False, w) \<Rightarrow> (-1, ctx, close_fd fd w)
                          | (True, w) \<Rightarrow>
                              (case on_sock fd (\<lambda>s. s\<lparr>bound := Some 0\<rparr>) w of
                                 (False, w) \<Rightarrow> (-1, ctx, close_fd fd w)
                               | (True, w) \<Rightarrow>
                                   (case on_sock fd (\<lambda>s. s\<lparr>groups := mcast # groups s\<rparr>) w of
                                      (False, w) \<Rightarrow> (-1, ctx, close_fd fd w)
                                    | (True, w) \<Rightarrow> (0, ctx, w))))))
         else (-1, ctx, w))"

fun find_entry :: "u64 \<Rightarrow> udp_entry option list \<Rightarrow> udp_entry option" where
  "find_entry inode [] = None"
| "find_entry inode (None # ls) = find_entry inode ls"
| "find_entry inode (Some e # ls) =
     (if ucast (socket_inode e) = inode then Some e else find_entry inode ls)"

text \<open>
  \<open>init_multicast_context_from_pid_fd\<close>. The error value of \<open>get_socket_inode\<close> is
  \<open>ULONG_MAX\<close>, what it is compared with is \<open>UINT_MAX\<close>.
\<close>

definition init_multicast_context_from_pid_fd ::
  "int \<Rightarrow> int \<Rightarrow> np_world \<Rightarrow> int \<times> multicast_context \<times> np_world" where
  "init_multicast_context_from_pid_fd pid fd w =
     (let ctx = zero_ctx; inode = get_socket_inode pid fd w
      in if inode = 0xFFFFFFFF then (-1, ctx, w)
         else
           (case udp w of
              None \<Rightarrow> (-1, ctx, w)
            | Some ls \<Rightarrow>
                (case find_entry inode (tl ls) of
                   None \<Rightarrow> (-1, ctx, w)
                 | Some e \<Rightarrow> join_group e ctx w)))"

text \<open>
  \<open>np_peek_message\<close>. \<open>net\<close> is what arrives from the network between joining the group and the
  first look at the new socket. \<open>junk\<close> are the eight bytes of the uninitialised variable \<open>snowflake\<close>,
  of which a short datagram overwrites only the first ones. The two calls of \<open>malloc\<close>
  may fail.
\<close>

definition np_peek_message ::
  "(np_world \<Rightarrow> np_world) \<Rightarrow> byte list \<Rightarrow> int \<Rightarrow> np_world \<Rightarrow> (byte list option \<times> np_world) option" where
  "np_peek_message net junk pid w =
     (case init_multicast_context_from_pid_fd pid (sockfd (g_multicast_ctx w)) w of
        (r, ctx, w) \<Rightarrow>
          if r \<noteq> 0 then Some (None, w)
          else
            (let fd = sockfd ctx
             in Option.bind (sys_recv fd 8 True True (net w)) (\<lambda>(b, w).
                  (case b of
                     None \<Rightarrow> Some (None, w)
                   | Some bs \<Rightarrow>
                       if bs = [] then Some (None, w)
                       else
                         (let snowflake = of_nat (of_le_bytes (bs @ drop (length bs) junk));
                              (sz, seq) = parse_snowflake snowflake
                          in if sz = 0 then Some (None, w)
                             else
                               (case call_fails w of
                                  (True, w) \<Rightarrow> Some (None, w)
                                | (False, w) \<Rightarrow>
                                    (let total_size = 8 + unat sz
                                     in Option.bind (sys_recv fd total_size True False w) (\<lambda>(b, w).
                                          (case b of
                                             None \<Rightarrow> Some (None, w)
                                           | Some buf \<Rightarrow>
                                               if length buf \<noteq> total_size then Some (None, w)
                                               else if parse_snowflake (of_nat (of_le_bytes (take 8 buf))) \<noteq> (sz, seq)
                                               then Some (None, w)
                                               else
                                                 (case call_fails w of
                                                    (True, w) \<Rightarrow> Some (None, w)
                                                  | (False, w) \<Rightarrow> Some (Some (drop 8 buf), w)))))))))))"

text \<open>The loop that empties the receive queue.\<close>

fun drain :: "bool list \<Rightarrow> byte list list \<Rightarrow> bool list \<times> byte list list" where
  "drain fs [] = (tl fs, [])"
| "drain fs (d # q) =
     (if fs \<noteq> [] \<and> hd fs then (tl fs, d # q)
      else if d = [] then (tl fs, q)
      else drain (tl fs) q)"

definition drain_fd :: "int \<Rightarrow> np_world \<Rightarrow> np_world" where
  "drain_fd fd w =
     (case fdt w fd of
        None \<Rightarrow> w\<lparr>fails := tl (fails w)\<rparr>
      | Some s \<Rightarrow>
          (case drain (fails w) (rqueue (socks w s)) of
             (fs, q) \<Rightarrow> w\<lparr>fails := fs, socks := (socks w)(s := (socks w s)\<lparr>rqueue := q\<rparr>)\<rparr>))"

definition np_frame :: "byte list \<Rightarrow> u32 \<Rightarrow> byte list" where
  "np_frame msg seq =
     le_bytes 8 (unat (create_snowflake (of_nat (length msg)) seq)) @
     take (unat (of_nat (length msg) :: u32)) msg"

definition np_modify_message :: "byte list option \<Rightarrow> np_world \<Rightarrow> bool \<times> np_world" where
  "np_modify_message new_message w =
     (case new_message of
        None \<Rightarrow> (False, w)
      | Some msg \<Rightarrow>
          (let fd = sockfd (g_multicast_ctx w)
           in if fd < 0 then (False, w)
              else
                (case call_fails w of
                   (True, w) \<Rightarrow> (False, w)
                 | (False, w) \<Rightarrow>
                     (let seq = g_sequence_id w;
                          w = w\<lparr>g_sequence_id := seq + 1\<rparr>;
                          buffer = np_frame msg seq;
                          w = drain_fd fd w
                      in case sys_send fd buffer w of
                           (sent, w) \<Rightarrow> (sent = int (length buffer), w)))))"

definition np_socket_cleanup :: "np_world \<Rightarrow> np_world" where
  "np_socket_cleanup w = multicast_close w"

section \<open>Addresses\<close>

lemma generated_fits:
  assumes "x \<le> 255" "y \<le> 255" "z \<le> 255"
  shows "length (''239.'' @ dec x @ ''.'' @ dec y @ ''.'' @ dec z) \<le> 15"
  using length_dec_le [of x 3] length_dec_le [of y 3] length_dec_le [of z 3] assms by simp

lemma generated_valid:
  assumes "x \<le> 255" "y \<le> 255" "z \<le> 255"
  shows "is_valid_multicast_address (''239.'' @ dec x @ ''.'' @ dec y @ ''.'' @ dec z)"
proof -
  let ?v = "239 * 2 ^ 24 + x * 2 ^ 16 + y * 2 ^ 8 + z"
  have "dec 239 = ''239''" by code_simp
  then have "inet_pton (''239.'' @ dec x @ ''.'' @ dec y @ ''.'' @ dec z) = Some (of_nat ?v)"
    using inet_pton_dec [of 239 x y z] assms by simp
  moreover have "?v < 2 ^ 32" "4026531839 \<ge> ?v" "3758096384 \<le> ?v"
    using assms by simp_all
  moreover from this(1) have "unat (of_nat ?v :: u32) = ?v"
    by (simp only: unsigned_of_nat of_nat_id) (simp add: take_bit_nat_eq_self)
  ultimately show ?thesis
    by (simp add: is_valid_multicast_address_def word_le_nat_alt)
qed

text \<open>
  Whatever \<open>rand\<close> returns, the generated address fits the buffer of \<open>INET_ADDRSTRLEN\<close> bytes
  and passes the program's own test for a multicast address.
\<close>

theorem generated_address_is_multicast:
  "case generate_safe_multicast_address INET_ADDRSTRLEN w of
     (ok, s, w') \<Rightarrow> ok \<and> is_valid_multicast_address s"
proof -
  obtain x w1 where 1: "c_rand w = (x, w1)" by fastforce
  obtain y w2 where 2: "c_rand w1 = (y, w2)" by fastforce
  obtain z w3 where 3: "c_rand w2 = (z, w3)" by fastforce
  let ?s = "''239.'' @ dec (x mod 256) @ ''.'' @ dec (y mod 256) @ ''.'' @ dec (z mod 256)"
  have r: "x mod 256 \<le> 255" "y mod 256 \<le> 255" "z mod 256 \<le> 255"
    by (simp_all add: less_Suc_eq_le [symmetric])
  have len: "length ?s \<le> 15" and ok: "is_valid_multicast_address ?s"
    using generated_fits [OF r] generated_valid [OF r] by blast+
  have "generate_safe_multicast_address INET_ADDRSTRLEN w = (0 < length ?s \<and> length ?s < 16, take 15 ?s, w3)"
    by (simp add: generate_safe_multicast_address_def 1 2 3 INET_ADDRSTRLEN_def Let_def)
  moreover have "take 15 ?s = ?s" using len by (intro take_all)
  moreover have "0 < length ?s \<and> length ?s < 16" using len by simp
  ultimately show ?thesis using ok by simp
qed

section \<open>Snowflakes\<close>

lemma bit_low_mask: "bit (0xFFFFFFFF :: int) n \<longleftrightarrow> n < 32"
proof -
  have "(0xFFFFFFFF :: int) = mask 32" by (simp add: mask_eq_exp_minus_1)
  then show ?thesis by (simp only: bit_mask_iff) auto
qed

lemma parse_create_snowflake [simp]: "parse_snowflake (create_snowflake sz seq) = (sz, seq)"
proof -
  have "ucast (drop_bit 32 (create_snowflake sz seq)) = sz"
    by (rule bit_eqI) (auto simp: create_snowflake_def bit_simps dest: bit_imp_le_length)
  moreover have "ucast (create_snowflake sz seq AND 0xFFFFFFFF) = seq"
  proof (rule bit_word_eqI)
    fix n assume "n < LENGTH(32)"
    then show "bit (ucast (create_snowflake sz seq AND 0xFFFFFFFF) :: u32) n \<longleftrightarrow> bit seq n"
      by (auto simp: create_snowflake_def bit_low_mask bit_simps)
  qed
  ultimately show ?thesis by (simp add: parse_snowflake_def)
qed


text \<open>
  The snowflake is a bijection: size and sequence number come back from it, and every
  64-bit value is the snowflake of what is read from it.
\<close>

theorem snowflake_bijective:
  "parse_snowflake (create_snowflake sz seq) = (sz, seq) \<and>
   (case parse_snowflake sf of (a, b) \<Rightarrow> create_snowflake a b = sf)"
proof -
  have "create_snowflake (ucast (drop_bit 32 sf)) (ucast (sf AND 0xFFFFFFFF)) = sf"
  proof (rule bit_word_eqI)
    fix n assume "n < LENGTH(64)"
    then show "bit (create_snowflake (ucast (drop_bit 32 sf)) (ucast (sf AND 0xFFFFFFFF))) n \<longleftrightarrow> bit sf n"
      by (cases "n < 32") (auto simp: create_snowflake_def bit_low_mask bit_simps)
  qed
  then show ?thesis by (simp add: parse_snowflake_def [of sf])
qed

section \<open>Messages\<close>

lemma call_fails_none [simp]: "fails w = [] \<Longrightarrow> call_fails w = (False, w)"
  by (simp add: call_fails_def)

lemma call_fails_frame:
  assumes "call_fails w = (b, w')"
  shows "fdt w' = fdt w" "socks w' = socks w"
  using assms by (auto simp: call_fails_def split: list.splits)

lemma sys_recv_peek_frame:
  assumes "sys_recv fd n True dw w = Some (b, w')"
  shows "fdt w' = fdt w" "socks w' = socks w"
  using assms by (auto simp: sys_recv_def call_fails_frame split: prod.splits bool.splits option.splits list.splits if_splits)



lemma sys_socket_fresh:
  assumes "sys_socket w = (fd, w')" "fd \<noteq> -1"
  shows "fdt w' fd = Some (next_sid w)" "socks w' (next_sid w) = fresh_sock"
  using assms by (auto simp: sys_socket_def call_fails_def split: list.splits bool.splits)

lemma on_sock_keeps_queue:
  assumes "on_sock fd f w = (b, w')" "\<And>s. rqueue (f s) = rqueue s"
  shows "fdt w' = fdt w" "rqueue (socks w' s) = rqueue (socks w s)"
  using assms by (auto simp: on_sock_def call_fails_frame split: prod.splits bool.splits option.splits)


lemma join_group_empty:
  assumes "join_group e c w = (0, ctx, w1)"
  shows "\<exists>s. fdt w1 (sockfd ctx) = Some s \<and> rqueue (socks w1 s) = [] \<and> multicast_addr ctx = ''0.0.0.0''"
proof -
  obtain fd v where o: "sys_socket w = (fd, v)" by fastforce
  obtain b1 v1 where 1: "on_sock fd (\<lambda>s. s\<lparr>reuse := True\<rparr>) v = (b1, v1)" by fastforce
  obtain b2 v2 where 2: "on_sock fd (\<lambda>s. s\<lparr>bound := Some 0\<rparr>) v1 = (b2, v2)" by fastforce
  let ?m = "if addr_of (local_addr e) AND 0xF0 = 0xE0 then addr_of (local_addr e) else addr_of (remote_addr e)"
  obtain b3 v3 where 3: "on_sock fd (\<lambda>s. s\<lparr>groups := ?m # groups s\<rparr>) v2 = (b3, v3)" by fastforce
  have ok: "fd \<noteq> -1" "b1" "b2" "b3" "w1 = v3" "sockfd ctx = fd" "multicast_addr ctx = ''0.0.0.0''"
    using assms o 1 2 3 by (auto simp: join_group_def Let_def split: if_splits bool.splits)
  note q = on_sock_keeps_queue [OF 1] on_sock_keeps_queue [OF 2] on_sock_keeps_queue [OF 3]
  have "fdt v3 fd = Some (next_sid w)" "rqueue (socks v3 (next_sid w)) = []"
    using q sys_socket_fresh [OF o ok(1)] by (simp_all add: fresh_sock_def)
  with ok show ?thesis by auto
qed

lemma init_from_pid_fd_empty:
  assumes "init_multicast_context_from_pid_fd pid fd w = (0, ctx, w1)"
  shows "\<exists>s. fdt w1 (sockfd ctx) = Some s \<and> rqueue (socks w1 s) = [] \<and> multicast_addr ctx = ''0.0.0.0''"
  using assms join_group_empty
  by (auto simp: init_multicast_context_from_pid_fd_def Let_def split: if_splits option.splits)

text \<open>
  A peek finds nothing unless a message arrives while it runs: the socket it looks into
  is new, so without such an arrival \<open>np_peek_message\<close> returns \<open>NULL\<close> whatever was
  left with \<open>np_modify_message\<close> before.
\<close>

theorem peek_without_arrival_finds_nothing:
  "\<exists>w'. np_peek_message (\<lambda>w. w) junk pid w = Some (None, w')"
proof -
  obtain r ctx w1 where i: "init_multicast_context_from_pid_fd pid (sockfd (g_multicast_ctx w)) w = (r, ctx, w1)"
    by (cases "init_multicast_context_from_pid_fd pid (sockfd (g_multicast_ctx w)) w") auto
  show ?thesis
  proof (cases "r = 0")
    case True
    then obtain s where s: "fdt w1 (sockfd ctx) = Some s" "rqueue (socks w1 s) = []"
      using init_from_pid_fd_empty [of pid _ w ctx w1] i by auto
    obtain b w2 where c: "call_fails w1 = (b, w2)" by fastforce
    have "sys_recv (sockfd ctx) 8 True True w1 = Some (None, w2)"
      using s call_fails_frame [OF c] c by (cases b) (simp_all add: sys_recv_def)
    with True i show ?thesis by (simp add: np_peek_message_def Let_def)
  qed (use i in \<open>simp add: np_peek_message_def\<close>)
qed

definition keeps_fds :: "(int \<rightharpoonup> nat) \<Rightarrow> ('a \<times> np_world) option \<Rightarrow> bool" where
  "keeps_fds F r \<longleftrightarrow> (case r of None \<Rightarrow> True | Some (x, w') \<Rightarrow> fdt w' = F)"

lemma keeps_Some: "fdt w' = F \<Longrightarrow> keeps_fds F (Some (x, w'))"
  by (simp add: keeps_fds_def)

lemma keeps_recv:
  assumes "fdt v = F" and "\<And>b v'. fdt v' = F \<Longrightarrow> keeps_fds F (f b v')"
  shows "keeps_fds F (Option.bind (sys_recv fd n True dw v) (\<lambda>(b, v'). f b v'))"
  using assms sys_recv_peek_frame [of fd n dw v]
  by (cases "sys_recv fd n True dw v") (auto simp: keeps_fds_def [of _ None])

text \<open>
  Every successful look at another process costs a descriptor: no path of
  \<open>np_peek_message\<close> closes the socket it opened, and the textual address it stores in
  the context is \<open>0.0.0.0\<close> whatever the group is.
\<close>

theorem peek_leaks_socket:
  assumes "init_multicast_context_from_pid_fd pid (sockfd (g_multicast_ctx w)) w = (0, ctx, w1)"
    and "np_peek_message net junk pid w = Some (r, w')"
  shows "fdt w' = fdt (net w1) \<and> fdt w1 (sockfd ctx) \<noteq> None \<and> multicast_addr ctx = ''0.0.0.0''"
proof -
  have "keeps_fds (fdt (net w1)) (np_peek_message net junk pid w)"
    using assms(1)
    by (auto simp: np_peek_message_def Let_def split: option.splits prod.splits bool.splits
        intro!: keeps_recv keeps_Some) (metis call_fails_frame(1))+
  then have "fdt w' = fdt (net w1)"
    using assms(2) by (simp add: keeps_fds_def)
  then show ?thesis
    using init_from_pid_fd_empty [OF assms(1)] by auto
qed

section \<open>Opening the registry\<close>

lemma sys_dup2_result:
  assumes "fdt w orig = Some s"
  shows "sys_dup2 orig new w = (if dup_ok w new then (True, w\<lparr>fdt := (fdt w)(new \<mapsto> s)\<rparr>) else (False, w))"
  using assms by (simp add: sys_dup2_def)

lemma position_fd_result:
  assumes "fdt w orig = Some s" and "position_fd orig p w = (fd, w')"
  shows "fd = -1 \<and> w' = w \<and> (\<forall>j \<le> p. 2 ^ j \<le> orig \<or> \<not> dup_ok w (2 ^ j)) \<or>
         (\<exists>k \<le> p. fd = 2 ^ k \<and> orig < 2 ^ k \<and> dup_ok w (2 ^ k) \<and> w' = w\<lparr>fdt := (fdt w)(2 ^ k \<mapsto> s)\<rparr> \<and>
            (\<forall>j \<le> p. k < j \<longrightarrow> \<not> dup_ok w (2 ^ j)))"
  using assms(2)
proof (induction p)
  case 0
  then show ?case
    using assms(1)
    by (auto simp: position_fd.simps [of orig 0] sys_dup2_result Let_def split: if_splits)
       (simp add: fun_upd_def)
next
  case (Suc p)
  show ?case
  proof (cases "orig < 2 ^ Suc p \<and> dup_ok w (2 ^ Suc p)")
    case True
    then show ?thesis
      using Suc.prems assms(1)
      by (intro disjI2 exI [of _ "Suc p"]) (auto simp: position_fd.simps [of orig "Suc p"] sys_dup2_result Let_def fun_upd_def)
  next
    case False
    then have "position_fd orig p w = (fd, w')"
      using Suc.prems assms(1)
      by (auto simp: position_fd.simps [of orig "Suc p"] sys_dup2_result Let_def split: if_splits)
    note IH = Suc.IH [OF this]
    have larger: "\<not> dup_ok w (2 ^ Suc p)" if "orig < 2 ^ k" "k \<le> p" for k
    proof -
      have "(2 :: int) ^ k \<le> 2 ^ Suc p" using that(2) by (intro power_increasing) auto
      with that(1) have "orig < 2 ^ Suc p" by linarith
      with False show ?thesis by blast
    qed
    from IH show ?thesis
    proof (elim disjE)
      assume a: "fd = -1 \<and> w' = w \<and> (\<forall>j \<le> p. 2 ^ j \<le> orig \<or> \<not> dup_ok w (2 ^ j))"
      with False show ?thesis by (auto simp: le_Suc_eq)
    next
      assume "\<exists>k \<le> p. fd = 2 ^ k \<and> orig < 2 ^ k \<and> dup_ok w (2 ^ k) \<and> w' = w\<lparr>fdt := (fdt w)(2 ^ k \<mapsto> s)\<rparr> \<and>
            (\<forall>j \<le> p. k < j \<longrightarrow> \<not> dup_ok w (2 ^ j))"
      with larger show ?thesis by (metis le_Suc_eq)
    qed
  qed
qed

lemma sys_socket_cases:
  assumes "sys_socket w = (fd, w')"
  shows "fd = -1 \<and> fdt w' = fdt w \<and> next_sockfd w' = next_sockfd w \<or>
         fd = next_sockfd w \<and> fdt w' = (fdt w)(fd \<mapsto> next_sid w)"
    and "dup_ok w' = dup_ok w" "g_multicast_ctx w' = g_multicast_ctx w"
  using assms by (auto simp: sys_socket_def call_fails_def split: list.splits bool.splits)

lemma on_sock_frame:
  assumes "on_sock fd f w = (b, w')"
  shows "fdt w' = fdt w \<and> dup_ok w' = dup_ok w \<and> g_multicast_ctx w' = g_multicast_ctx w"
  using assms by (auto simp: on_sock_def call_fails_def split: prod.splits bool.splits option.splits list.splits)

lemma c_rand_frame:
  assumes "c_rand w = (x, w')"
  shows "fdt w' = fdt w \<and> next_sockfd w' = next_sockfd w \<and> dup_ok w' = dup_ok w \<and> g_multicast_ctx w' = g_multicast_ctx w"
  using assms by (auto simp: c_rand_def split: list.splits)

lemma generate_frame:
  assumes "generate_safe_multicast_address n w = (ok, s, w')"
  shows "fdt w' = fdt w \<and> next_sockfd w' = next_sockfd w \<and> dup_ok w' = dup_ok w \<and> g_multicast_ctx w' = g_multicast_ctx w"
  using assms by (auto simp: generate_safe_multicast_address_def Let_def split: prod.splits dest!: c_rand_frame)

lemma init_multicast_sender_result:
  assumes "init_multicast_sender ctx maddr w = (err, ctx', w')" and "fdt w (next_sockfd w) = None" and "0 \<le> next_sockfd w"
  shows "if err = MCAST_SUCCESS
         then sockfd ctx' = next_sockfd w \<and> (\<exists>s. fdt w' = (fdt w)(next_sockfd w \<mapsto> s))
         else sockfd ctx' = sockfd ctx \<and> fdt w' = fdt w"
    and "dup_ok w' = dup_ok w" "g_multicast_ctx w' = g_multicast_ctx w"
proof -
  obtain a v where a: "(case maddr of None \<Rightarrow> (case generate_safe_multicast_address INET_ADDRSTRLEN w of (ok, s, w) \<Rightarrow> (s, w))
       | Some s \<Rightarrow> (s, w)) = (a, v)" by fastforce
  have v: "fdt v = fdt w" "next_sockfd v = next_sockfd w" "dup_ok v = dup_ok w" "g_multicast_ctx v = g_multicast_ctx w"
    using a by (auto split: option.splits prod.splits dest!: generate_frame)
  obtain fd v1 where 1: "sys_socket v = (fd, v1)" by fastforce
  obtain b2 v2 where 2: "on_sock fd (\<lambda>s. s\<lparr>ttl := Some 1\<rparr>) v1 = (b2, v2)" by fastforce
  have c3: "\<exists>b3 v3. on_sock fd (\<lambda>s. s\<lparr>peer := Some (m, 0)\<rparr>) v2 = (b3, v3)" for m by fastforce
  note f = v sys_socket_cases [OF 1] on_sock_frame [OF 2]
  have unf: "init_multicast_sender ctx maddr w =
     (case (is_valid_multicast_address a, inet_pton a) of
        (True, Some mcast) \<Rightarrow>
          if fd < 0 then (MCAST_ERROR_SOCKET, ctx, v1)
          else if \<not> b2 then (MCAST_ERROR_TTL, ctx, close_fd fd v2)
          else (case on_sock fd (\<lambda>s. s\<lparr>peer := Some (mcast, 0)\<rparr>) v2 of
                  (False, w) \<Rightarrow> (MCAST_ERROR_CONNECT, ctx\<lparr>port := 0\<rparr>, close_fd fd w)
                | (True, w) \<Rightarrow> (MCAST_SUCCESS, ctx\<lparr>port := 0, sockfd := fd, sin_addr := mcast, sin_port := 0,
                      multicast_addr := take INET_ADDRSTRLEN a\<rparr>, w))
      | _ \<Rightarrow> (MCAST_ERROR_INVALID_ADDR, ctx, v))"
    unfolding init_multicast_sender_def a using 1 2 by (auto simp: Let_def split: bool.splits option.splits)
  show "if err = MCAST_SUCCESS
         then sockfd ctx' = next_sockfd w \<and> (\<exists>s. fdt w' = (fdt w)(next_sockfd w \<mapsto> s))
         else sockfd ctx' = sockfd ctx \<and> fdt w' = fdt w"
    and "dup_ok w' = dup_ok w" "g_multicast_ctx w' = g_multicast_ctx w"
    using assms f unfolding unf
    by (auto simp: MCAST_defs close_fd_def fun_upd_idem split: bool.splits option.splits if_splits prod.splits dest!: on_sock_frame)
qed

text \<open>
  \<open>np_socket_init\<close>: the result is \<open>true\<close> in every case. When it worked, the registry's
  descriptor is the largest power of two up to \<open>2 ^ 30\<close> that \<open>dup2\<close> accepts above the
  original one, which is closed; when it did not, the descriptor is the old one
  or \<open>-1\<close> and no descriptor was added.
\<close>

theorem socket_init_result:
  assumes "np_socket_init w = (b, w')" and "fdt w (next_sockfd w) = None" and "0 \<le> next_sockfd w"
  shows "b \<and>
     (sockfd (g_multicast_ctx w') = sockfd (g_multicast_ctx w) \<and> fdt w' = fdt w \<or>
      sockfd (g_multicast_ctx w') = -1 \<and> fdt w' = fdt w \<and>
        (\<forall>j \<le> 30. 2 ^ j \<le> next_sockfd w \<or> \<not> dup_ok w (2 ^ j)) \<or>
      (\<exists>k \<le> 30. \<exists>s. sockfd (g_multicast_ctx w') = 2 ^ k \<and> next_sockfd w < 2 ^ k \<and> dup_ok w (2 ^ k) \<and>
         (\<forall>j \<le> 30. k < j \<longrightarrow> \<not> dup_ok w (2 ^ j)) \<and> fdt w' = (fdt w)(2 ^ k \<mapsto> s)))"
proof -
  obtain err ctx v where i: "init_multicast_sender (g_multicast_ctx w) None w = (err, ctx, v)"
    by (cases "init_multicast_sender (g_multicast_ctx w) None w") auto
  note r = init_multicast_sender_result [OF i assms(2,3)]
  let ?v = "v\<lparr>g_multicast_ctx := ctx\<rparr>"
  show ?thesis
  proof (cases "err = MCAST_SUCCESS")
    case False
    then show ?thesis
      using assms(1) i r by (auto simp: np_socket_init_def Let_def)
  next
    case True
    with r(1) obtain s where s: "sockfd ctx = next_sockfd w" "fdt v = (fdt w)(next_sockfd w \<mapsto> s)" by auto
    obtain fd v2 where p: "position_fd (sockfd ctx) 30 ?v = (fd, v2)" by fastforce
    have "fdt ?v (sockfd ctx) = Some s" using s by simp
    note pos = position_fd_result [OF this p]
    have res: "np_socket_init w = (if fd = -1 then (True, multicast_close v2)
        else (True, (close_fd (sockfd ctx) v2)\<lparr>g_multicast_ctx := (g_multicast_ctx v2)\<lparr>sockfd := fd\<rparr>\<rparr>))"
      using i True p by (simp add: np_socket_init_def Let_def)
    from pos show ?thesis
    proof (elim disjE)
      assume a: "fd = -1 \<and> v2 = ?v \<and> (\<forall>j \<le> 30. 2 ^ j \<le> sockfd ctx \<or> \<not> dup_ok ?v (2 ^ j))"
      then have "b" "w' = multicast_close ?v" using assms(1) res by auto
      then show ?thesis
        using a s r(2) assms(2) by (simp add: multicast_close_def close_fd_def fun_upd_idem)
    next
      assume "\<exists>k \<le> 30. fd = 2 ^ k \<and> sockfd ctx < 2 ^ k \<and> dup_ok ?v (2 ^ k) \<and> v2 = ?v\<lparr>fdt := (fdt ?v)(2 ^ k \<mapsto> s)\<rparr> \<and>
            (\<forall>j \<le> 30. k < j \<longrightarrow> \<not> dup_ok ?v (2 ^ j))"
      then obtain k where k: "k \<le> 30" "fd = 2 ^ k" "sockfd ctx < 2 ^ k" "dup_ok ?v (2 ^ k)"
        "v2 = ?v\<lparr>fdt := (fdt ?v)(2 ^ k \<mapsto> s)\<rparr>" "\<forall>j \<le> 30. k < j \<longrightarrow> \<not> dup_ok ?v (2 ^ j)" by blast
      have "0 < fd" unfolding k(2) by simp
      then have w': "b" "w' = (close_fd (sockfd ctx) v2)\<lparr>g_multicast_ctx := (g_multicast_ctx v2)\<lparr>sockfd := fd\<rparr>\<rparr>"
        using assms(1) res by auto
      have "fdt w' = (fdt w)(2 ^ k \<mapsto> s)"
        using k(3,5) s assms(2) by (simp add: w' close_fd_def fun_upd_twist fun_upd_idem)
      then show ?thesis
        using w' k s r(2) by (auto simp: close_fd_def)
    qed
  qed
qed

section \<open>Leaving a message\<close>

lemma drain_none: "drain [] q = ([], tl (dropWhile (\<lambda>d. d \<noteq> []) q))"
  by (induction q) auto

text \<open>
  \<open>np_modify_message\<close> without failures: it empties the own queue up to the first empty
  datagram, sends one frame that carries the message and the next sequence number to
  the socket's peer, and reports success.
\<close>

theorem modify_sends_frame:
  assumes "fails w = []" and "0 \<le> sockfd (g_multicast_ctx w)" and "fdt w (sockfd (g_multicast_ctx w)) = Some s"
  shows "\<exists>w'. np_modify_message (Some msg) w = (True, w') \<and>
     outbox w' = outbox w @ [(peer (socks w s), np_frame msg (g_sequence_id w))] \<and>
     g_sequence_id w' = g_sequence_id w + 1 \<and>
     rqueue (socks w' s) = tl (dropWhile (\<lambda>d. d \<noteq> []) (rqueue (socks w s)))"
  using assms by (simp add: np_modify_message_def drain_fd_def drain_none sys_send_def Let_def not_less)

definition demo_np :: np_world where
  "demo_np = \<lparr>g_multicast_ctx = zero_ctx\<lparr>sockfd := 64\<rparr>, g_sequence_id = 7, fdt = [64 \<mapsto> 0], next_sockfd = 3,
     socks = (\<lambda>_. fresh_sock)(0 := fresh_sock\<lparr>peer := Some (0xEF010203, 0), rqueue := [[1, 2], [3]]\<rparr>), next_sid = 1,
     outbox = [], fails = [], rnd = [], dup_ok = (\<lambda>fd. fd < 100),
     links = (\<lambda>pid fd. if pid = 42 \<and> fd = 64 then Some ''socket:[777]'' else None),
     udp = Some [None, Some \<lparr>local_addr = [0, 0, 0, 0], local_port = 4660,
        remote_addr = [3, 2, 1, 0xEF], remote_port = 0, socket_inode = 777\<rparr>]\<rparr>"

theorem modify_sends_frame_witness:
  "\<exists>w'. np_modify_message (Some [104, 105]) demo_np = (True, w') \<and>
     outbox w' = [(Some (0xEF010203, 0), np_frame [104, 105] 7)] \<and> g_sequence_id w' = 8 \<and>
     rqueue (socks w' 0) = []"
  using modify_sends_frame [of demo_np 0 "[104, 105]"] by (simp add: demo_np_def)

theorem socket_init_result_witness: "fst (np_socket_init demo_np)"
proof -
  have "fdt demo_np (next_sockfd demo_np) = None" "0 \<le> next_sockfd demo_np"
    by (simp_all add: demo_np_def)
  then show ?thesis
    using socket_init_result [of demo_np "fst (np_socket_init demo_np)" "snd (np_socket_init demo_np)"] by simp
qed


lemma demo_init:
  "\<exists>ctx w1. init_multicast_context_from_pid_fd 42 (sockfd (g_multicast_ctx demo_np)) demo_np = (0, ctx, w1) \<and>
     sockfd ctx = 3 \<and> fdt w1 3 = Some 1 \<and> fails w1 = [] \<and> rqueue (socks w1 1) = []"
proof -
  have d: "dec 777 = ''777''" by code_simp
  have "strtoul10 ''777]'' = (777, '']'')"
    using strtoul10_dec [of 777 "'']''"] by (simp add: d is_digit_def)
  then have "get_socket_inode 42 64 demo_np = 777"
    by (simp add: get_socket_inode_def demo_np_def)
  moreover have "addr_of [3, 2, 1, 239] = 50463215" "addr_of [0, 0, 0, 0] = 0" by (simp_all add: addr_of_def)
  ultimately show ?thesis
    by (simp add: demo_np_def init_multicast_context_from_pid_fd_def join_group_def sys_socket_def
        on_sock_def call_fails_def Let_def fresh_sock_def zero_ctx_def)
qed


theorem peek_leaks_socket_witness:
  "\<exists>r w'. np_peek_message (\<lambda>w. w) (replicate 8 0) 42 demo_np = Some (r, w') \<and> fdt w' 3 \<noteq> None"
proof -
  obtain ctx w1 where i: "init_multicast_context_from_pid_fd 42 (sockfd (g_multicast_ctx demo_np)) demo_np = (0, ctx, w1)"
     "sockfd ctx = 3"
    using demo_init by blast
  obtain b w2 where "call_fails w1 = (b, w2)" by fastforce
  have "\<exists>r w'. np_peek_message (\<lambda>w. w) (replicate 8 0) 42 demo_np = Some (r, w')"
    using i init_from_pid_fd_empty [OF i(1)] \<open>call_fails w1 = (b, w2)\<close> call_fails_frame [OF \<open>call_fails w1 = (b, w2)\<close>]
    by (cases b) (auto simp: np_peek_message_def sys_recv_def Let_def)
  then obtain r w' where r: "np_peek_message (\<lambda>w. w) (replicate 8 0) 42 demo_np = Some (r, w')" by blast
  from peek_leaks_socket [OF i(1) r] i(2) r show ?thesis by auto
qed

end
