(* ===== verification/Nopeeking_Main.thy ===== *)
theory Nopeeking_Main
  imports Nopeeking C_Stdio
begin

text \<open>
  The demonstration of the registry, \<^verbatim>\<open>nopeeking_registry/src/main.c\<close>: a process leaves a message, looks
  at it, replaces it and looks again. What arrives from the network during the two looks
  is \<open>net\<close>; \<open>junk\<close> are the uninitialised bytes in each of them.
\<close>

section \<open>The program\<close>

datatype np_report =
  Init_failed | Write_failed | Message_sent string | Peeked "byte list" | No_message
  | Update_failed | Peeked_updated "byte list" | Socket_cleaned_up

definition test_msg :: string where "test_msg = ''Hello, World!''"
definition new_msg :: string where "new_msg = ''This is a new message!''"

definition np_main ::
  "(nat \<Rightarrow> np_world \<Rightarrow> np_world) \<Rightarrow> (nat \<Rightarrow> byte list) \<Rightarrow> int \<Rightarrow> np_world \<Rightarrow> ((int \<times> np_report list) \<times> np_world) option" where
  "np_main net junk pid w =
     (case np_socket_init w of
        (False, w) \<Rightarrow> Some ((1, [Init_failed]), w)
      | (True, w) \<Rightarrow>
          (case np_modify_message (Some (bytes_of test_msg)) w of
             (False, w) \<Rightarrow> Some ((1, [Write_failed]), np_socket_cleanup w)
           | (True, w) \<Rightarrow> do {
               (msg, w) \<leftarrow> np_peek_message (net 0) (junk 0) pid w;
               let out = Message_sent test_msg # [case msg of Some m \<Rightarrow> Peeked m | None \<Rightarrow> No_message];
               (case np_modify_message (Some (bytes_of new_msg)) w of
                  (ok, w) \<Rightarrow> do {
                    (msg, w) \<leftarrow> np_peek_message (net 1) (junk 1) pid w;
                    Some ((0, out @ (if ok then [] else [Update_failed]) @
                      (case msg of Some m \<Rightarrow> [Peeked_updated m] | None \<Rightarrow> []) @ [Socket_cleaned_up]), np_socket_cleanup w)
                  })
             }))"

section \<open>The registry open for messages\<close>

text \<open>
  No call fails any more, the registry has the socket \<open>s\<close> that sends to \<open>p\<close>, under a descriptor
  that new sockets will not get for the next \<open>n\<close> times.
\<close>

definition open_registry :: "nat \<Rightarrow> nat \<Rightarrow> (u32 \<times> nat) option \<Rightarrow> np_world \<Rightarrow> bool" where
  "open_registry n s p w \<longleftrightarrow> fails w = [] \<and> next_sockfd w + int n < sockfd (g_multicast_ctx w) \<and> 0 \<le> next_sockfd w \<and>
     fdt w (sockfd (g_multicast_ctx w)) = Some s \<and> s < next_sid w \<and> peer (socks w s) = p"

lemma generate_calls:
  assumes "generate_safe_multicast_address n w = (ok, a, w')"
  shows "fails w' = fails w" "next_sid w' = next_sid w" "socks w' = socks w" "outbox w' = outbox w" "g_sequence_id w' = g_sequence_id w"
  using assms by (auto simp: generate_safe_multicast_address_def c_rand_def Let_def split: prod.splits list.splits)

lemma init_multicast_sender_fine:
  assumes "fails w = []" "0 \<le> next_sockfd w"
  shows "\<exists>mcast a w'. init_multicast_sender ctx None w =
       (MCAST_SUCCESS, ctx\<lparr>port := 0, sockfd := next_sockfd w, sin_addr := mcast, sin_port := 0, multicast_addr := a\<rparr>, w') \<and>
     fails w' = [] \<and> next_sockfd w' = next_sockfd w + 1 \<and> next_sid w' = Suc (next_sid w) \<and> outbox w' = outbox w \<and>
     g_sequence_id w' = g_sequence_id w \<and> dup_ok w' = dup_ok w \<and> fdt w' = (fdt w)(next_sockfd w \<mapsto> next_sid w) \<and>
     peer (socks w' (next_sid w)) = Some (mcast, 0)"
proof -
  obtain ok a v where a: "generate_safe_multicast_address INET_ADDRSTRLEN w = (ok, a, v)"
    by (cases "generate_safe_multicast_address INET_ADDRSTRLEN w") auto
  then have valid: "is_valid_multicast_address a" using generated_address_is_multicast [of w] by simp
  then obtain mcast where m: "inet_pton a = Some mcast" by (auto simp: is_valid_multicast_address_def split: option.splits)
  show ?thesis
    using valid m assms generate_calls [OF a] generate_frame [OF a]
    by (intro exI [of _ mcast] exI [of _ "take INET_ADDRSTRLEN a"]) (simp add: init_multicast_sender_def a sys_socket_def on_sock_def)
qed

lemma np_socket_init_opens:
  assumes "fails w = []" "0 \<le> next_sockfd w" "k \<le> 30" "next_sockfd w + 1 + int n < 2 ^ k" "dup_ok w (2 ^ k)"
  shows "\<exists>p w'. np_socket_init w = (True, w') \<and> open_registry n (next_sid w) p w' \<and>
     outbox w' = outbox w \<and> g_sequence_id w' = g_sequence_id w"
proof -
  obtain mcast a v where v: "init_multicast_sender (g_multicast_ctx w) None w =
       (MCAST_SUCCESS, (g_multicast_ctx w)\<lparr>port := 0, sockfd := next_sockfd w, sin_addr := mcast, sin_port := 0, multicast_addr := a\<rparr>, v)"
     "fails v = []" "next_sockfd v = next_sockfd w + 1" "next_sid v = Suc (next_sid w)" "outbox v = outbox w"
     "g_sequence_id v = g_sequence_id w" "dup_ok v = dup_ok w" "fdt v = (fdt w)(next_sockfd w \<mapsto> next_sid w)"
     "peer (socks v (next_sid w)) = Some (mcast, 0)"
    using init_multicast_sender_fine [OF assms(1,2), of "g_multicast_ctx w"] by blast
  let ?c = "(g_multicast_ctx w)\<lparr>port := 0, sockfd := next_sockfd w, sin_addr := mcast, sin_port := 0, multicast_addr := a\<rparr>"
  let ?v = "v\<lparr>g_multicast_ctx := ?c\<rparr>"
  obtain fd v2 where p: "position_fd (next_sockfd w) 30 ?v = (fd, v2)" by fastforce
  have f: "fdt ?v (next_sockfd w) = Some (next_sid w)" using v by simp
  have "\<not> 2 ^ k \<le> next_sockfd w" using assms(4) by linarith
  then obtain j where j: "fd = 2 ^ j" "j \<le> 30" "dup_ok w (2 ^ j)" "v2 = ?v\<lparr>fdt := (fdt ?v)(2 ^ j \<mapsto> next_sid w)\<rparr>"
      "\<forall>i \<le> 30. j < i \<longrightarrow> \<not> dup_ok w (2 ^ i)"
    using position_fd_result [OF f p] assms(3,5) v(7) by auto
  have "k \<le> j" using j(5) assms(3,5) by (meson leI)
  then have "(2 :: int) ^ k \<le> 2 ^ j" by (intro power_increasing) auto
  then have large: "next_sockfd w + 1 + int n < 2 ^ j" using assms(4) by linarith
  moreover have "(2 :: int) ^ j \<noteq> -1" by (metis neg_0_le_iff_le not_one_le_zero zero_le_numeral zero_le_power)
  ultimately show ?thesis
    using v p j(1,4) assms(2)
    by (simp add: np_socket_init_def Let_def open_registry_def close_fd_def)
qed

lemma modify_open:
  assumes "open_registry n s p w"
  shows "\<exists>w'. np_modify_message (Some msg) w = (True, w') \<and> open_registry n s p w' \<and>
     outbox w' = outbox w @ [(p, np_frame msg (g_sequence_id w))] \<and> g_sequence_id w' = g_sequence_id w + 1"
  using assms
  by (simp add: open_registry_def np_modify_message_def drain_fd_def drain_none sys_send_def Let_def not_less)

text \<open>Looking at the own process opens at most one socket and finds it empty.\<close>

lemma join_group_open:
  assumes "open_registry (Suc n) s p w" "join_group e c w = (r, ctx, w')"
  shows "open_registry n s p w'" "outbox w' = outbox w" "g_sequence_id w' = g_sequence_id w"
  using assms
  by (auto simp: join_group_def sys_socket_def on_sock_def open_registry_def Let_def split: if_splits)

lemma init_from_pid_fd_open:
  assumes "open_registry (Suc n) s p w" "init_multicast_context_from_pid_fd pid fd w = (r, ctx, w')"
  shows "open_registry n s p w'" "outbox w' = outbox w" "g_sequence_id w' = g_sequence_id w"
proof -
  have "open_registry n s p w" using assms(1) by (simp add: open_registry_def)
  then show "open_registry n s p w'" "outbox w' = outbox w" "g_sequence_id w' = g_sequence_id w"
    using assms join_group_open [OF assms(1)]
    by (auto simp: init_multicast_context_from_pid_fd_def Let_def split: if_splits option.splits)
qed

lemma peek_open:
  assumes "open_registry (Suc n) s p w"
  shows "\<exists>w'. np_peek_message (\<lambda>w. w) junk pid w = Some (None, w') \<and> open_registry n s p w' \<and>
     outbox w' = outbox w \<and> g_sequence_id w' = g_sequence_id w"
proof -
  obtain r ctx w1 where i: "init_multicast_context_from_pid_fd pid (sockfd (g_multicast_ctx w)) w = (r, ctx, w1)"
    by (cases "init_multicast_context_from_pid_fd pid (sockfd (g_multicast_ctx w)) w") auto
  note o = init_from_pid_fd_open [OF assms i]
  have "sys_recv (sockfd ctx) 8 True True w1 = Some (None, w1)" if "r = 0"
    using init_from_pid_fd_empty [of pid "sockfd (g_multicast_ctx w)" w ctx w1] i that o(1)
    by (auto simp: sys_recv_def open_registry_def)
  then show ?thesis
    using i o by (cases "r = 0") (auto simp: np_peek_message_def Let_def)
qed

section \<open>Properties\<close>

text \<open>
  The demonstration never shows its message unless the network returns it: with no failing
  calls, a descriptor number for the registry and no arrivals, it sends both messages in frames
  with consecutive sequence numbers to the same group, reports that none is available, exits
  with zero and has closed the registry's socket. When every descriptor number
  is refused, \<open>np_socket_init\<close> still says yes, and the program ends at the first message.
\<close>

theorem np_main_outcome:
  assumes "fails w = []" and "0 \<le> next_sockfd w" and "fdt w (next_sockfd w) = None"
  shows "(\<forall>k \<le> 30. next_sockfd w + 3 < 2 ^ k \<longrightarrow> dup_ok w (2 ^ k) \<longrightarrow>
       (\<exists>p w'. np_main (\<lambda>_ w. w) junk pid w = Some ((0, [Message_sent test_msg, No_message, Socket_cleaned_up]), w') \<and>
          outbox w' = outbox w @ [(p, np_frame (bytes_of test_msg) (g_sequence_id w)), (p, np_frame (bytes_of new_msg) (g_sequence_id w + 1))] \<and>
          sockfd (g_multicast_ctx w') = -1)) \<and>
     ((\<forall>k \<le> 30. \<not> dup_ok w (2 ^ k)) \<longrightarrow>
       (\<exists>w'. np_main net junk pid w = Some ((1, [Write_failed]), w') \<and> outbox w' = outbox w \<and> fdt w' (next_sockfd w) = None))"
proof (intro conjI allI impI)
  fix k assume k: "k \<le> 30" "next_sockfd w + 3 < 2 ^ k" "dup_ok w (2 ^ k)"
  then have "next_sockfd w + 1 + int 2 < 2 ^ k" by simp
  from np_socket_init_opens [OF assms(1,2) k(1) this k(3)] obtain p w1 where
    w1: "np_socket_init w = (True, w1)" "open_registry 2 (next_sid w) p w1" "outbox w1 = outbox w" "g_sequence_id w1 = g_sequence_id w"
    by blast
  obtain w2 where w2: "np_modify_message (Some (bytes_of test_msg)) w1 = (True, w2)" "open_registry 2 (next_sid w) p w2"
      "outbox w2 = outbox w @ [(p, np_frame (bytes_of test_msg) (g_sequence_id w))]" "g_sequence_id w2 = g_sequence_id w + 1"
    using modify_open [OF w1(2)] w1(3,4) by auto
  obtain w3 where w3: "np_peek_message (\<lambda>w. w) (junk 0) pid w2 = Some (None, w3)" "open_registry 1 (next_sid w) p w3"
      "outbox w3 = outbox w2" "g_sequence_id w3 = g_sequence_id w2"
    using peek_open [of 1] w2(2) by (metis Suc_1)
  obtain w4 where w4: "np_modify_message (Some (bytes_of new_msg)) w3 = (True, w4)" "open_registry 1 (next_sid w) p w4"
      "outbox w4 = outbox w3 @ [(p, np_frame (bytes_of new_msg) (g_sequence_id w3))]"
    using modify_open [OF w3(2)] by auto
  obtain w5 where w5: "np_peek_message (\<lambda>w. w) (junk 1) pid w4 = Some (None, w5)" "outbox w5 = outbox w4"
    using peek_open [of 0] w4(2) by (metis One_nat_def)
  have "np_main (\<lambda>_ w. w) junk pid w = Some ((0, [Message_sent test_msg, No_message, Socket_cleaned_up]), np_socket_cleanup w5)"
    using w1(1) w2(1) w3(1) w4(1) w5(1) by (simp add: np_main_def Let_def)
  then show "\<exists>p w'. np_main (\<lambda>_ w. w) junk pid w = Some ((0, [Message_sent test_msg, No_message, Socket_cleaned_up]), w') \<and>
          outbox w' = outbox w @ [(p, np_frame (bytes_of test_msg) (g_sequence_id w)), (p, np_frame (bytes_of new_msg) (g_sequence_id w + 1))] \<and>
          sockfd (g_multicast_ctx w') = -1"
    using w2(3,4) w3(3,4) w4(3) w5(2) by (auto simp: np_socket_cleanup_def multicast_close_def close_fd_def)
next
  assume none: "\<forall>k \<le> 30. \<not> dup_ok w (2 ^ k)"
  obtain mcast a v where v: "init_multicast_sender (g_multicast_ctx w) None w =
       (MCAST_SUCCESS, (g_multicast_ctx w)\<lparr>port := 0, sockfd := next_sockfd w, sin_addr := mcast, sin_port := 0, multicast_addr := a\<rparr>, v)"
     "fails v = []" "outbox v = outbox w" "dup_ok v = dup_ok w" "fdt v = (fdt w)(next_sockfd w \<mapsto> next_sid w)"
    using init_multicast_sender_fine [OF assms(1,2), of "g_multicast_ctx w"] by blast
  let ?v = "v\<lparr>g_multicast_ctx := (g_multicast_ctx w)\<lparr>port := 0, sockfd := next_sockfd w, sin_addr := mcast, sin_port := 0, multicast_addr := a\<rparr>\<rparr>"
  obtain fd v2 where p: "position_fd (next_sockfd w) 30 ?v = (fd, v2)" by fastforce
  have "fdt ?v (next_sockfd w) = Some (next_sid w)" using v by simp
  from position_fd_result [OF this p] none v(4) have "fd = -1" "v2 = ?v" by auto
  then have "np_socket_init w = (True, multicast_close ?v)"
    using v(1) p by (simp add: np_socket_init_def Let_def)
  then show "\<exists>w'. np_main net junk pid w = Some ((1, [Write_failed]), w') \<and> outbox w' = outbox w \<and> fdt w' (next_sockfd w) = None"
    using v by (simp add: np_main_def multicast_close_def close_fd_def np_modify_message_def np_socket_cleanup_def Let_def)
qed

theorem np_main_outcome_witness:
  "\<exists>p w'. np_main (\<lambda>_ w. w) (\<lambda>_. replicate 8 0) 42 demo_np =
       Some ((0, [Message_sent test_msg, No_message, Socket_cleaned_up]), w') \<and>
     outbox w' = [(p, np_frame (bytes_of test_msg) 7), (p, np_frame (bytes_of new_msg) 8)]"
proof -
  have d: "fails demo_np = []" "0 \<le> next_sockfd demo_np" "fdt demo_np (next_sockfd demo_np) = None" "next_sockfd demo_np + 3 < 2 ^ 5"
      "dup_ok demo_np (2 ^ 5)" "outbox demo_np = []" "g_sequence_id demo_np = 7"
    by (simp_all add: demo_np_def)
  from conjunct1 [OF np_main_outcome [OF d(1-3), of "\<lambda>_. replicate 8 0" 42], rule_format, of 5] d(4-7)
  show ?thesis by auto
qed

end
