(* ===== verification/Split_Ranges.thy ===== *)
theory Split_Ranges
  imports C_String
begin

text \<open>
  \<^verbatim>\<open>cxx20_split_with_ranges/split.cpp\<close>: a string is split at semicolons into views that are trimmed by moving pointers.

  The memory is the string followed by its terminating zero; pointers are positions in it, and reading or moving beyond it is undefined:
  \<^const>\<open>None\<close>. A part of the split is the pair of its beginning and its end.
\<close>

section \<open>The program\<close>

definition char_at :: "string \<Rightarrow> int \<Rightarrow> char option" where
  "char_at s i = (if 0 \<le> i \<and> i < int (length s) then Some (s ! nat i) else if i = int (length s) then Some (CHR 0x00) else None)"

text \<open>The parts of the library's \<open>split\<close> view: from the beginning, and from behind each separator, up to the next one. An empty string has no parts.\<close>

fun split_view :: "char \<Rightarrow> string \<Rightarrow> nat \<Rightarrow> nat \<Rightarrow> (nat \<times> nat) list" where
  "split_view d [] start i = [(start, i)]"
| "split_view d (c # s) start i = (if c = d then (start, i) # split_view d s (Suc i) (Suc i) else split_view d s start (Suc i))"

partial_function (option) skip_forward :: "string \<Rightarrow> int \<Rightarrow> int option" where
  "skip_forward s start = do { c \<leftarrow> char_at s start; if is_space c then skip_forward s (start + 1) else Some start }"

partial_function (option) skip_back :: "string \<Rightarrow> int \<Rightarrow> int option" where
  "skip_back s end_ptr = do { c \<leftarrow> char_at s end_ptr; if is_space c then skip_back s (end_ptr - 1) else Some end_ptr }"

text \<open>A view from a later to an earlier pointer is undefined.\<close>

definition range_to_trimmed_sv :: "string \<Rightarrow> nat \<times> nat \<Rightarrow> string option" where
  "range_to_trimmed_sv s rng = do {
     start \<leftarrow> skip_forward s (int (fst rng));
     end_ptr \<leftarrow> skip_back s (int (snd rng));
     if start \<le> end_ptr then Some (take (nat (end_ptr - start)) (drop (nat start) s)) else None
   }"

definition config_string :: string where
  "config_string = ''key1=val1;key2=val2; key3=val3 ; key4=val4 ;; key5==val5''"

definition split_lines :: "string \<Rightarrow> string list option" where
  "split_lines s = map_option (map (\<lambda>el. if el = [] then ''Empty!'' else el)) 
     (those (map (range_to_trimmed_sv s) (if s = [] then [] else split_view CHR '';'' s 0 0)))"

definition split_main :: "string list option" where
  "split_main = split_lines config_string"

section \<open>Properties\<close>

lemma at_middle: "char_at (p @ c # r) (int (length p)) = Some c"
  by (simp add: char_at_def)

lemma at_end: "char_at p (int (length p)) = Some (CHR 0x00)"
  by (simp add: char_at_def)

lemma not_space_stops [simp]: "\<not> is_space CHR '';''" "\<not> is_space (CHR 0x00)"
  by (simp_all add: is_space_def)

text \<open>Both pointers stop at a separator or at the end of the string.\<close>

lemma skip_forward_part:
  assumes "r = [] \<or> hd r = CHR '';''"
  shows "skip_forward (p @ q @ r) (int (length p)) = Some (int (length p + length (takeWhile is_space q)))"
proof (induction q arbitrary: p)
  case Nil
  show ?case
  proof (cases r)
    case Nil
    then show ?thesis by (subst skip_forward.simps) (simp add: at_end)
  next
    case (Cons c r')
    then show ?thesis using assms by (subst skip_forward.simps) (simp add: at_middle)
  qed
next
  case (Cons c q)
  then show ?case using Cons [of "p @ [c]"] by (subst skip_forward.simps) (simp add: at_middle algebra_simps)
qed

lemma skip_back_stays:
  assumes "r = [] \<or> hd r = CHR '';''"
  shows "skip_back (p @ r) (int (length p)) = Some (int (length p))"
  using assms by (subst skip_back.simps) (cases r, auto simp: at_end at_middle)

lemma trimmed_part:
  assumes "r = [] \<or> hd r = CHR '';''"
  shows "range_to_trimmed_sv (p @ q @ r) (length p, length p + length q) = Some (dropWhile is_space q)"
proof -
  let ?k = "length (takeWhile is_space q)"
  have l: "length q = ?k + length (dropWhile is_space q)"
    by (metis length_append takeWhile_dropWhile_id)
  have "take (length q - ?k) (drop (length p + ?k) (p @ q @ r)) = dropWhile is_space q"
    using l by (simp add: dropWhile_eq_drop)
  moreover have "skip_back (p @ q @ r) (int (length p + length q)) = Some (int (length p + length q))"
    using skip_back_stays [OF assms, of "p @ q"] by simp
  ultimately show ?thesis
    using skip_forward_part [OF assms, of p q] l by (simp add: range_to_trimmed_sv_def del: of_nat_add flip: of_nat_diff)
qed

lemma split_view_trimmed:
  "those (map (range_to_trimmed_sv (p @ q @ s)) (split_view CHR '';'' s (length p) (length p + length q))) =
     Some (map (dropWhile is_space) (case split_on CHR '';'' s of [] \<Rightarrow> [] | t # ts \<Rightarrow> (q @ t) # ts))"
proof (induction s arbitrary: p q)
  case Nil
  then show ?case using trimmed_part [of "[]" p q] by simp
next
  case (Cons c s)
  show ?case
  proof (cases "c = CHR '';''")
    case True
    then show ?thesis
      using trimmed_part [of "c # s" p q] Cons.IH [of "p @ q @ [c]" "[]"] by (cases "split_on CHR '';'' s") simp_all
  next
    case False
    then show ?thesis using Cons.IH [of p "q @ [c]"] by (cases "split_on CHR '';'' s") simp_all
  qed
qed

text \<open>
  The parts are trimmed on one side only: for every string the program prints the parts between the semicolons without the white space
  they begin with. White space at the end stays, because the pointer to the end of a part points at the semicolon or the terminating zero, which is
  no white space, and the loop that should move it back does not run.
\<close>

theorem split_lines_trims_left:
  "split_lines s = Some (map (\<lambda>p. if p = [] then ''Empty!'' else p)
     (if s = [] then [] else map (dropWhile is_space) (split_on CHR '';'' s)))"
  using split_view_trimmed [of "[]" "[]" s] by (auto simp: split_lines_def split: list.split)

lemma split_main_keeps_blanks:
  "split_main = Some [''key1=val1'', ''key2=val2'', ''key3=val3 '', ''key4=val4 '', ''Empty!'', ''key5==val5'']"
  by (simp add: split_main_def split_lines_trims_left config_string_def is_space_def)

end
