(* ===== verification/Lots_Of_Threads.thy ===== *)
theory Lots_Of_Threads
  imports C_Stdio
begin

text \<open>
  \<^verbatim>\<open>lotsathreads/lotsathreads.c\<close>: a thousand functions made by macros, some of which are started as threads and joined.

  A read outside of an array or of a null pointer, and a shift by too much, are undefined: \<^const>\<open>None\<close>.
\<close>

section \<open>The functions\<close>

definition digit_names :: "string \<Rightarrow> string list" where
  "digit_names f = map (\<lambda>d. f @ [digit_char d]) [0..<10]"

definition N1 :: "string \<Rightarrow> string list" where
  "N1 f = [f]"

definition N2 :: "string \<Rightarrow> string list" where
  "N2 f = concat (map N1 (digit_names f))"

definition N3 :: "string \<Rightarrow> string list" where
  "N3 f = concat (map N2 (digit_names f))"

definition all_names :: "(string \<Rightarrow> string list) \<Rightarrow> string list" where
  "all_names N = concat (map N (digit_names ''f''))"

definition funs :: "string list" where
  "funs = all_names N3"

definition numfuns :: nat where
  "numfuns = length funs"

text \<open>What a thread waits for, in cycles from its start: a million times a power of two, by its number in the process.\<close>

definition waste_linear_time :: "int \<Rightarrow> int \<Rightarrow> nat option" where
  "waste_linear_time tid pid = (if 0 \<le> tid - pid \<and> tid - pid < 31 then Some (1000000 * 2 ^ nat (tid - pid)) else None)"

section \<open>The program\<close>

text \<open>\<open>strtoll\<close> in base ten, without its end pointer.\<close>

definition strtoll10 :: "string \<Rightarrow> int" where
  "strtoll10 s =
     (let t = dropWhile is_space s;
          (neg, u) = (case t of
             [] \<Rightarrow> (False, t)
           | c # r \<Rightarrow> if c = CHR ''-'' then (True, r) else if c = CHR ''+'' then (False, r) else (False, t));
          v = int (undec (takeWhile is_digit u))
      in max (- (2 ^ 63)) (min (2 ^ 63 - 1) (if neg then - v else v)))"

definition wanted_threads :: "nat \<Rightarrow> string list \<Rightarrow> int option" where
  "wanted_threads nprocs args =
     (let n = int (length args) - 1
      in if 0 \<le> n then (if 1 < length args then Some (strtoll10 (args ! 1)) else None)
         else Some (int nprocs - 1))"

definition clamp_threads :: "int \<Rightarrow> nat" where
  "clamp_threads v = (if 0 < v then if int numfuns < v then numfuns else nat v else 1)"

text \<open>The first loop counts down; \<open>new_tid i\<close> is the number of the thread for slot \<open>i\<close>, zero when it was not created.\<close>

fun create_loop :: "(nat \<Rightarrow> nat) \<Rightarrow> nat \<Rightarrow> nat list \<Rightarrow> nat list" where
  "create_loop new_tid 0 tids = tids"
| "create_loop new_tid (Suc i) tids = create_loop new_tid i (tids[i := new_tid i])"

text \<open>The second one counts up until it finds a zero.\<close>

function join_loop :: "nat list \<Rightarrow> nat \<Rightarrow> nat list option" where
  "join_loop tids i =
     (if i < length tids
      then (if tids ! i \<noteq> 0 then map_option ((#) (tids ! i)) (join_loop tids (Suc i)) else Some [])
      else None)"
  by auto
termination join_loop
  by (relation "measure (\<lambda>(tids, i). length tids - i)") auto

declare join_loop.simps [simp del]

definition lots_main :: "nat \<Rightarrow> (nat \<Rightarrow> nat) \<Rightarrow> string list \<Rightarrow> (nat \<times> nat list) option" where
  "lots_main nprocs new_tid args = do {
     v \<leftarrow> wanted_threads nprocs args;
     let numthreads = clamp_threads v;
     joined \<leftarrow> join_loop (create_loop new_tid numthreads (replicate numfuns 0)) 0;
     Some (numthreads, joined)
   }"

section \<open>Properties\<close>

lemma distinct_concat_ext:
  assumes "distinct fs" "\<And>f. f \<in> set fs \<Longrightarrow> distinct (N f)"
    and "\<And>f g x. f \<in> set fs \<Longrightarrow> g \<in> set fs \<Longrightarrow> x \<in> set (N f) \<Longrightarrow> x \<in> set (N g) \<Longrightarrow> f = g"
  shows "distinct (concat (map N fs))"
  using assms
proof (induction fs)
  case (Cons f fs)
  have "x \<notin> set (N g)" if "x \<in> set (N f)" "g \<in> set fs" for x g
    using Cons.prems(1) Cons.prems(3) [of f g x] that by auto
  then have "set (N f) \<inter> set (concat (map N fs)) = {}" by auto
  moreover have "distinct (concat (map N fs))" using Cons.prems by (intro Cons.IH) auto
  ultimately show ?case using Cons.prems(2) [of f] by simp
qed simp

lemma digit_char_inj: "d < 10 \<Longrightarrow> e < 10 \<Longrightarrow> digit_char d = digit_char e \<Longrightarrow> d = e"
  by (metis digit_char_simps(2))

lemma names_of_length: "x \<in> set (digit_names f) \<Longrightarrow> butlast x = f"
  by (auto simp: digit_names_def)

lemma distinct_digit_names: "distinct (digit_names f)"
  by (auto simp: digit_names_def distinct_map inj_on_def intro: digit_char_inj)

lemma N2_names: "N2 f = digit_names f"
proof -
  have "concat (map N1 xs) = xs" for xs by (induction xs) (simp_all add: N1_def)
  then show ?thesis by (simp add: N2_def)
qed

lemma N3_prefix: "x \<in> set (N3 f) \<Longrightarrow> butlast (butlast x) = f"
  by (auto simp: N3_def N2_names dest!: names_of_length)

lemma distinct_N3: "distinct (N3 f)"
  unfolding N3_def using names_of_length by (intro distinct_concat_ext) (auto simp: N2_names distinct_digit_names)

lemma distinct_funs: "distinct funs"
  unfolding funs_def all_names_def
  using N3_prefix by (intro distinct_concat_ext distinct_digit_names distinct_N3) metis

lemma numfuns_1000 [simp]: "numfuns = 1000"
proof -
  have "length (digit_names f) = 10" for f by (simp add: digit_names_def)
  then show ?thesis
    by (simp add: numfuns_def funs_def all_names_def N3_def N2_names length_concat comp_def)
      (simp add: digit_names_def sum_list_triv comp_def)
qed

lemma create_loop_slots:
  "k \<le> length tids \<Longrightarrow> create_loop new_tid k tids = map new_tid [0..<k] @ drop k tids"
proof (induction k arbitrary: tids)
  case (Suc k)
  then show ?case by (simp add: Suc.IH drop_update_swap flip: Cons_nth_drop_Suc)
qed simp

lemma join_loop_all:
  assumes "\<And>x. x \<in> set (drop i xs) \<Longrightarrow> x \<noteq> 0" "i \<le> length xs"
  shows "join_loop (xs @ replicate n 0) i = (if n = 0 then None else Some (drop i xs))"
  using assms
proof (induction "length xs - i" arbitrary: i)
  case 0
  then show ?case by (subst join_loop.simps) (auto simp: nth_append)
next
  case (Suc m)
  then have i: "i < length xs" by simp
  have "drop i xs = xs ! i # drop (Suc i) xs" using i by (simp add: Cons_nth_drop_Suc)
  with Suc.prems have "xs ! i \<noteq> 0" "\<And>x. x \<in> set (drop (Suc i) xs) \<Longrightarrow> x \<noteq> 0" by auto
  moreover have "join_loop (xs @ replicate n 0) (Suc i) = (if n = 0 then None else Some (drop (Suc i) xs))"
    using Suc.hyps(1) [of "Suc i"] Suc.hyps(2) i calculation(2) by simp
  ultimately show ?case using i by (subst join_loop.simps) (simp add: nth_append Cons_nth_drop_Suc)
qed

text \<open>
  Every created thread is joined, once and in order, unless there are a thousand: the macros make a thousand functions with different names; with a number as argument the
  program starts that many threads, at least one and at most a thousand, and joins them all, but with a thousand or more the second loop finds no zero
  and reads behind its array. Without an argument the program reads a null pointer: the test for it is always true.
\<close>

theorem threads_joined:
  assumes "\<And>i. i < 1000 \<Longrightarrow> new_tid i \<noteq> 0"
  shows "distinct funs \<and> numfuns = 1000 \<and> lots_main nprocs new_tid [name] = None \<and>
     lots_main nprocs new_tid [name, arg] =
       (if 1000 \<le> strtoll10 arg then None
        else Some (max 1 (nat (strtoll10 arg)), map new_tid [0..<max 1 (nat (strtoll10 arg))]))"
proof -
  let ?k = "clamp_threads (strtoll10 arg)"
  have k: "?k \<le> 1000" "1000 \<le> strtoll10 arg \<longleftrightarrow> ?k = 1000" "?k < 1000 \<Longrightarrow> ?k = max 1 (nat (strtoll10 arg))"
    by (auto simp: clamp_threads_def max_def)
  have "create_loop new_tid ?k (replicate numfuns 0) = map new_tid [0..<?k] @ replicate (1000 - ?k) 0"
    using create_loop_slots [of ?k "replicate 1000 0"] k(1) by simp
  moreover have "join_loop (map new_tid [0..<?k] @ replicate (1000 - ?k) 0) 0 = (if 1000 - ?k = 0 then None else Some (map new_tid [0..<?k]))"
    by (subst join_loop_all) (use assms k(1) in auto)
  ultimately have "lots_main nprocs new_tid [name, arg] = (if ?k = 1000 then None else Some (?k, map new_tid [0..<?k]))"
    using k(1) by (simp add: lots_main_def wanted_threads_def Let_def)
  moreover have "lots_main nprocs new_tid [name] = None" by (simp add: lots_main_def wanted_threads_def)
  ultimately show ?thesis using k distinct_funs by (cases "?k = 1000") auto
qed

end
