(* ===== verification/Maps_File.thy ===== *)
theory Maps_File
  imports C_Stdio
begin

text \<open>
  \<^verbatim>\<open>sofile_with_main/main.c\<close>: a library that finds the file it was loaded from in the list of its mappings, and executes it.

  A value that was never stored, and a store through a null pointer, are undefined: \<^const>\<open>None\<close>.
\<close>

section \<open>Hexadecimal numbers\<close>

definition hex_char :: "nat \<Rightarrow> char" where
  "hex_char d = (if d < 10 then char_of (48 + d) else char_of (87 + d))"

definition hex_val :: "char \<Rightarrow> nat option" where
  "hex_val c =
     (let n = of_char c
      in if 48 \<le> n \<and> n \<le> 57 then Some (n - 48)
         else if 97 \<le> n \<and> n \<le> 102 then Some (n - 87)
         else if 65 \<le> n \<and> n \<le> 70 then Some (n - 55)
         else None)"

fun hex :: "nat \<Rightarrow> string" where
  "hex n = (if n < 16 then [hex_char n] else hex (n div 16) @ [hex_char (n mod 16)])"

declare hex.simps [simp del]

text \<open>\<open>%lx\<close>: white space and digits; what does not fit into a word is cut to the largest one.\<close>

fun scan_digits :: "nat \<Rightarrow> string \<Rightarrow> nat \<times> string" where
  "scan_digits v [] = (v, [])"
| "scan_digits v (c # s) = (case hex_val c of Some d \<Rightarrow> scan_digits (16 * v + d) s | None \<Rightarrow> (v, c # s))"

definition scan_hex :: "string \<Rightarrow> (nat \<times> string) option" where
  "scan_hex s =
     (case dropWhile is_space s of
        [] \<Rightarrow> None
      | c # t \<Rightarrow> if hex_val c = None then None else (case scan_digits 0 (c # t) of (v, r) \<Rightarrow> Some (min v (2 ^ 64 - 1), r)))"

definition scan_range :: "string \<Rightarrow> (nat \<times> nat) option" where
  "scan_range s = do {
     (a, r) \<leftarrow> scan_hex s;
     (case r of [] \<Rightarrow> None | c # r \<Rightarrow> if c \<noteq> CHR ''-'' then None else do { (b, _) \<leftarrow> scan_hex r; Some (a, b) })
   }"

section \<open>The function\<close>

text \<open>The text behind the last occurrence of a character, and that before the first.\<close>

definition strrchr_next :: "string \<Rightarrow> char \<Rightarrow> string option" where
  "strrchr_next s c = (if c \<in> set s then Some (rev (takeWhile (\<lambda>x. x \<noteq> c) (rev s))) else None)"

definition cut_at :: "string \<Rightarrow> char \<Rightarrow> string option" where
  "cut_at s c = (if c \<in> set s then Some (takeWhile (\<lambda>x. x \<noteq> c) s) else None)"

fun search_maps :: "nat \<Rightarrow> string list \<Rightarrow> string option" where
  "search_maps addr [] = Some []"
| "search_maps addr (line # rest) = do {
     (start, end_addr) \<leftarrow> scan_range line;
     if start \<le> addr \<and> addr < end_addr
     then do {
       path \<leftarrow> strrchr_next line CHR '' '';
       cut_at path newline
     }
     else search_maps addr rest
   }"

datatype executed = Executes string | Exec_failed

text \<open>\<open>foo\<close> at address \<open>addr\<close>, with the text of the list of mappings and which files can be executed.\<close>

definition foo :: "(string \<Rightarrow> bool) \<Rightarrow> string \<Rightarrow> nat \<Rightarrow> executed option" where
  "foo executable maps addr = do {
     path \<leftarrow> search_maps addr (fgets_lines 256 maps);
     Some (if executable path then Executes path else Exec_failed)
   }"

section \<open>Reading what the kernel writes\<close>

lemma hex_val_char [simp]: "d < 16 \<Longrightarrow> hex_val (hex_char d) = Some d"
  by (auto simp: hex_val_def hex_char_def Let_def)

lemma hex_char_code: "d < 16 \<Longrightarrow> (of_char (hex_char d) :: nat) = (if d < 10 then 48 + d else 87 + d)"
  by (simp add: hex_char_def)

definition is_hex :: "char \<Rightarrow> bool" where
  "is_hex c \<longleftrightarrow> (\<exists>d < 16. c = hex_char d)"

lemma is_hex_props: "is_hex c \<Longrightarrow> \<not> is_space c \<and> c \<noteq> newline \<and> hex_val c \<noteq> None \<and> c \<noteq> CHR 0x00"
proof -
  assume "is_hex c"
  then obtain d where d: "d < 16" "c = hex_char d" by (auto simp: is_hex_def)
  have n: "48 \<le> (of_char c :: nat)" using d hex_char_code [of d] by (auto split: if_splits)
  then have "c \<noteq> CHR '' ''" "c \<noteq> newline" "c \<noteq> CHR 0x00" by (auto simp: newline_def)
  then show ?thesis using n d by (auto simp: is_space_def)
qed

lemma hex_digits: "c \<in> set (hex n) \<Longrightarrow> is_hex c"
proof (induction n rule: hex.induct)
  case (1 n)
  have "is_hex (hex_char (n mod 16))" unfolding is_hex_def by (rule exI [of _ "n mod 16"]) simp
  moreover have "is_hex (hex_char n)" if "n < 16" using that by (auto simp: is_hex_def)
  ultimately show ?case using 1 hex.simps [of n] by (auto split: if_splits)
qed

lemma hex_not_Nil [simp]: "hex n \<noteq> []"
  by (subst hex.simps) simp

lemma scan_digits_append:
  assumes "r = [] \<or> hex_val (hd r) = None"
  shows "scan_digits v (hex n @ r) = (v * 16 ^ length (hex n) + n, r)"
proof -
  have stop: "scan_digits u r = (u, r)" for u using assms by (cases r) auto
  have "scan_digits v (hex n @ t) = scan_digits (v * 16 ^ length (hex n) + n) t" for t
  proof (induction n arbitrary: v t rule: hex.induct)
    case (1 n)
    show ?case
    proof (cases "n < 16")
      case True
      then show ?thesis by (subst (1 2) hex.simps) (simp add: mult.commute)
    next
      case False
      then show ?thesis using 1 [of v "hex_char (n mod 16) # t"]
        by (subst (1 2) hex.simps) (simp add: algebra_simps)
    qed
  qed
  with stop show ?thesis by simp
qed

lemma scan_hex_hex:
  assumes "n < 2 ^ 64" "r = [] \<or> hex_val (hd r) = None"
  shows "scan_hex (hex n @ r) = Some (n, r)"
proof -
  obtain c u where c: "hex n = c # u" by (cases "hex n") simp_all
  then have h: "is_hex c" using hex_digits [of c n] by simp
  have "scan_digits 0 (c # u @ r) = (n, r)" using scan_digits_append [OF assms(2), of 0 n] c by simp
  then show ?thesis using is_hex_props [OF h] c assms(1) by (auto simp: scan_hex_def simp del: scan_digits.simps)
qed

section \<open>Properties\<close>

record mapping_line =
  m_start :: nat
  m_end :: nat
  m_info :: string
  m_path :: string

definition maps_line :: "mapping_line \<Rightarrow> string" where
  "maps_line l = hex (m_start l) @ ''-'' @ hex (m_end l) @ '' '' @ m_info l @ '' '' @ m_path l @ [newline]"

definition maps_line_ok :: "mapping_line \<Rightarrow> bool" where
  "maps_line_ok l \<longleftrightarrow> m_start l < 2 ^ 64 \<and> m_end l < 2 ^ 64 \<and> newline \<notin> set (m_info l) \<and> newline \<notin> set (m_path l) \<and>
     CHR '' '' \<notin> set (m_path l) \<and> length (maps_line l) < 256"

lemma hex_val_stops [simp]: "hex_val CHR ''-'' = None" "hex_val CHR '' '' = None"
  by (simp_all add: hex_val_def)

lemma scan_range_line: "maps_line_ok l \<Longrightarrow> scan_range (maps_line l) = Some (m_start l, m_end l)"
  using scan_hex_hex [of "m_start l" "''-'' @ hex (m_end l) @ '' '' @ m_info l @ '' '' @ m_path l @ [newline]"]
    scan_hex_hex [of "m_end l" "'' '' @ m_info l @ '' '' @ m_path l @ [newline]"]
  by (simp add: maps_line_ok_def scan_range_def maps_line_def)

lemma path_of_line:
  assumes "maps_line_ok l"
  shows "strrchr_next (maps_line l) CHR '' '' = Some (m_path l @ [newline])" "cut_at (m_path l @ [newline]) newline = Some (m_path l)"
proof -
  have n: "newline \<noteq> CHR '' ''" by (simp add: newline_def)
  have "takeWhile (\<lambda>x. x \<noteq> CHR '' '') (rev (m_path l) @ CHR '' '' # r) = rev (m_path l)" for r
    using assms by (subst takeWhile_append2) (auto simp: maps_line_ok_def)
  then have "takeWhile (\<lambda>x. x \<noteq> CHR '' '') (newline # rev (m_path l) @ CHR '' '' # r) = newline # rev (m_path l)" for r
    using n by simp
  then show "strrchr_next (maps_line l) CHR '' '' = Some (m_path l @ [newline])"
    by (simp add: strrchr_next_def maps_line_def)
  have "takeWhile (\<lambda>x. x \<noteq> newline) (m_path l @ [newline]) = m_path l"
    using assms by (subst takeWhile_append2) (auto simp: maps_line_ok_def)
  then show "cut_at (m_path l @ [newline]) newline = Some (m_path l)"
    by (simp add: cut_at_def)
qed

lemma search_maps_lines:
  "list_all maps_line_ok ls \<Longrightarrow> search_maps addr (map maps_line ls) =
     Some (case find (\<lambda>l. m_start l \<le> addr \<and> addr < m_end l) ls of Some l \<Rightarrow> m_path l | None \<Rightarrow> [])"
  by (induction ls) (simp_all add: scan_range_line path_of_line)

lemma maps_line_is_line: "maps_line_ok l \<Longrightarrow> is_line 256 (maps_line l)"
  using hex_digits [of newline] is_hex_props [of newline]
  by (auto simp: is_line_def maps_line_ok_def maps_line_def butlast_append newline_def)

text \<open>
  The library executes its own file: for a list of mappings as the kernel writes it, with lines below \<open>256\<close> characters and file names without blanks, the
  function executes the file of the first mapping that contains its address, and fails when there is none. Together with the properties of reading
  and writing hexadecimal numbers this says that the text round trips.
\<close>

theorem foo_executes_own_file:
  assumes "list_all maps_line_ok ls"
  shows "foo executable (concat (map maps_line ls)) addr =
     Some (let path = (case find (\<lambda>l. m_start l \<le> addr \<and> addr < m_end l) ls of Some l \<Rightarrow> m_path l | None \<Rightarrow> [])
       in if executable path then Executes path else Exec_failed)"
proof -
  have "fgets_lines 256 (concat (map maps_line ls)) = map maps_line ls"
    using assms maps_line_is_line by (intro fgets_lines_concat) (auto simp: list_all_iff)
  then show ?thesis using search_maps_lines [OF assms, of addr] by (simp add: foo_def Let_def)
qed

end
