(* ===== verification/Evil_Init.thy ===== *)
theory Evil_Init
  imports Prelude
begin

text \<open>
  \<^verbatim>\<open>evil_static_init\<close>: a library whose static initialiser executes the program again, with other arguments, before its main function
  has run.

  An environment variable tells the second start from the first. For the \<open>n\<close>-th start, \<open>memory n\<close> says whether \<open>setenv\<close> has memory, \<open>readable n\<close>
  whether the command line can be read, and \<open>execs path\<close> whether executing the path leads to this program again; a call that fails returns. Starts without end are
  \<^const>\<open>None\<close>.
\<close>

section \<open>The initialiser\<close>

definition SEE_NO_EVIL :: string where
  "SEE_NO_EVIL = ''SEE_NO_EVIL''"

definition new_args :: "string \<Rightarrow> string list" where
  "new_args program = [program, ''Who'', ''touched'', ''my'', ''keyboard?'']"

text \<open>
  \<open>first_arg\<close> is what reading the command line up to its first zero delivers. The result is the number of starts, the arguments that the main function gets and
  the messages.
\<close>

definition first_arg :: "string list \<Rightarrow> string" where
  "first_arg args = (case args of [] \<Rightarrow> [] | a # _ \<Rightarrow> a)"

partial_function (option) AutoStart ::
  "(nat \<Rightarrow> bool) \<Rightarrow> (nat \<Rightarrow> bool) \<Rightarrow> (string \<Rightarrow> bool) \<Rightarrow> nat \<Rightarrow> (string \<rightharpoonup> string) \<Rightarrow> string list \<Rightarrow> (nat \<times> string list \<times> string list) option" where
  "AutoStart memory readable execs n env args =
     (if env SEE_NO_EVIL \<noteq> None then Some (Suc n, args, [])
      else
        (let env = (if memory n then env(SEE_NO_EVIL \<mapsto> ''lolok'') else env)
         in if \<not> readable n then Some (Suc n, args, [''Failed to introspect''])
            else if execs (first_arg args) then AutoStart memory readable execs (Suc n) env (new_args (first_arg args))
            else Some (Suc n, args, [])))"

section \<open>The program\<close>

definition innocent_main :: "string list \<Rightarrow> string list option" where
  "innocent_main args = (case args of [] \<Rightarrow> None | _ # rest \<Rightarrow> Some rest)"

definition innocent :: "(nat \<Rightarrow> bool) \<Rightarrow> (nat \<Rightarrow> bool) \<Rightarrow> (string \<Rightarrow> bool) \<Rightarrow> (string \<rightharpoonup> string) \<Rightarrow> string list \<Rightarrow> (nat \<times> string list) option" where
  "innocent memory readable execs env args =
     Option.bind (AutoStart memory readable execs 0 env args)
       (\<lambda>(n, args, _). map_option (\<lambda>out. (n, out)) (innocent_main args))"

section \<open>Properties\<close>

lemma first_arg_simps [simp]: "first_arg (a # as) = a" "first_arg (new_args p) = p"
  by (simp_all add: first_arg_def new_args_def)

lemma starts_for_ever:
  assumes "AutoStart memory readable execs n env args = Some r"
  shows "\<not> ((\<forall>n. \<not> memory n \<and> readable n) \<and> env SEE_NO_EVIL = None \<and> execs (first_arg args))"
  by (rule AutoStart.raw_induct [where P = "\<lambda>memory readable execs n env args r.
        \<not> ((\<forall>n. \<not> memory n \<and> readable n) \<and> env SEE_NO_EVIL = None \<and> execs (first_arg args))", OF _ assms])
    (fastforce simp: Let_def split: if_splits)

text \<open>
  With memory for the variable the program is started at most twice and its main function runs: when the variable is set, or the command line cannot be read or
  not be executed, it prints its own arguments; otherwise it is executed again, once, and prints the others. When there is never any
  memory for the variable, and the program can always be read and executed, it executes itself for ever: the result of \<open>setenv\<close> is not looked at.
\<close>

theorem innocent_outcome:
  "(memory 0 \<longrightarrow> innocent memory readable execs env (name # args) =
     (if env SEE_NO_EVIL = None \<and> readable 0 \<and> execs name then Some (2, [''Who'', ''touched'', ''my'', ''keyboard?'']) else Some (1, args))) \<and>
   ((\<forall>n. \<not> memory n \<and> readable n) \<and> env SEE_NO_EVIL = None \<and> execs name \<longrightarrow> innocent memory readable execs env (name # args) = None)"
proof (intro conjI impI)
  assume "memory 0"
  then show "innocent memory readable execs env (name # args) =
     (if env SEE_NO_EVIL = None \<and> readable 0 \<and> execs name then Some (2, [''Who'', ''touched'', ''my'', ''keyboard?'']) else Some (1, args))"
    using AutoStart.simps [of memory readable execs 0 env "name # args"]
      AutoStart.simps [of memory readable execs 1 "env(SEE_NO_EVIL \<mapsto> ''lolok'')" "new_args name"]
    by (auto simp: innocent_def innocent_main_def new_args_def [of name] Let_def)
next
  assume "(\<forall>n. \<not> memory n \<and> readable n) \<and> env SEE_NO_EVIL = None \<and> execs name"
  then have "AutoStart memory readable execs 0 env (name # args) = None"
    using starts_for_ever [of memory readable execs 0 env "name # args"]
    by (cases "AutoStart memory readable execs 0 env (name # args)") auto
  then show "innocent memory readable execs env (name # args) = None" by (simp add: innocent_def)
qed

end
