(* ===== verification/Orphanizer.thy ===== *)
theory Orphanizer
  imports C_Stdio
begin

text \<open>
  \<^verbatim>\<open>reaping_orphans\<close>: a library that makes processes which end at once and are not waited for, and a program that counts in which
  state they are.

  \<open>fork\<close> returns process numbers, or \<open>-1\<close>; \<open>proc path\<close> is the text of a file of the kernel, if there is one. A value that was never stored, and
  an index outside of an array, are undefined: \<^const>\<open>None\<close>. One function of the library, \<open>make_detached_orphan\<close>, is unfinished and does not compile.
\<close>

section \<open>The library\<close>

text \<open>What \<open>fork\<close> returns in the parent; the child exits at once.\<close>

definition make_zombie :: "(nat \<Rightarrow> int) \<Rightarrow> nat \<Rightarrow> int" where
  "make_zombie fork i = fork i"

text \<open>The format \<open>%*d %*s %c\<close>: a number, a word and a character, with white space before each.\<close>

definition scan_word :: "string \<Rightarrow> string option" where
  "scan_word s = (let t = dropWhile is_space s in if t = [] then None else Some (dropWhile (\<lambda>c. \<not> is_space c) t))"

definition scan_status :: "string \<Rightarrow> char option" where
  "scan_status s = do {
     (_, r) \<leftarrow> scan_int s;
     r \<leftarrow> scan_word r;
     (case dropWhile is_space r of [] \<Rightarrow> None | c # _ \<Rightarrow> Some c)
   }"

definition stat_path :: "int \<Rightarrow> string" where
  "stat_path pid = ''/proc/'' @ show_int pid @ ''/stat''"

definition get_status :: "(string \<rightharpoonup> string) \<Rightarrow> int \<Rightarrow> char option" where
  "get_status proc pid = (case proc (stat_path pid) of None \<Rightarrow> Some CHR ''E'' | Some s \<Rightarrow> scan_status s)"

section \<open>The program\<close>

definition MAX_CHILDREN :: nat where
  "MAX_CHILDREN = 100"

text \<open>A character is signed: one above \<open>127\<close> is a negative index.\<close>

fun count_stats :: "char option list \<Rightarrow> nat list \<Rightarrow> nat list option" where
  "count_stats [] stats = Some stats"
| "count_stats (c # cs) stats = do {
     c \<leftarrow> c;
     let i = of_char c;
     if i < 128 then count_stats cs (stats[i := stats ! i + 1]) else None
   }"

definition stats_lines :: "nat list \<Rightarrow> string list" where
  "stats_lines stats = map (\<lambda>i. char_of i # '': '' @ dec (stats ! i) @ [newline]) (filter (\<lambda>i. 0 < stats ! i) [0..<length stats])"

text \<open>\<open>proc i\<close> are the files at the time of the \<open>i\<close>-th look.\<close>

definition call_orphanizer :: "(nat \<Rightarrow> int) \<Rightarrow> (nat \<Rightarrow> string \<rightharpoonup> string) \<Rightarrow> string list option" where
  "call_orphanizer fork proc =
     (let children = map (make_zombie fork) [0..<MAX_CHILDREN]
      in map_option stats_lines (count_stats (map (\<lambda>i. get_status (proc i) (children ! i)) [0..<MAX_CHILDREN]) (replicate 256 0)))"

section \<open>Properties\<close>

text \<open>The text of the kernel for a process: its number, its name in parentheses, its state and more.\<close>

definition stat_text :: "nat \<Rightarrow> string \<Rightarrow> char \<Rightarrow> string \<Rightarrow> string" where
  "stat_text pid comm state rest = dec pid @ '' ('' @ comm @ '') '' @ [state] @ rest"

lemma scan_word_word:
  assumes "w \<noteq> []" "\<And>c. c \<in> set w \<Longrightarrow> \<not> is_space c"
  shows "scan_word (CHR '' '' # w @ CHR '' '' # r) = Some (CHR '' '' # r)"
proof -
  have "is_space CHR '' ''" by (simp add: is_space_def)
  moreover have "dropWhile is_space (w @ CHR '' '' # r) = w @ CHR '' '' # r" using assms by (cases w) simp_all
  moreover have "dropWhile (\<lambda>c. \<not> is_space c) (w @ CHR '' '' # r) = CHR '' '' # r"
    using assms(2) calculation(1) by (subst dropWhile_append2) auto
  ultimately show ?thesis using assms(1) by (simp add: scan_word_def Let_def)
qed

lemma scan_status_text:
  assumes "pid < 2 ^ 31" "\<And>c. c \<in> set comm \<Longrightarrow> \<not> is_space c" "\<not> is_space state"
  shows "scan_status (stat_text pid comm state rest) = Some state"
proof -
  have "\<not> is_digit CHR '' ''" by (simp add: is_digit_def)
  then have "scan_int (stat_text pid comm state rest) = Some (int pid, '' ('' @ comm @ '') '' @ [state] @ rest)"
    using scan_int_dec [OF assms(1), of "'' ('' @ comm @ '') '' @ [state] @ rest"] by (simp add: stat_text_def)
  moreover have "scan_word (CHR '' '' # (''('' @ comm @ '')'') @ CHR '' '' # state # rest) = Some (CHR '' '' # state # rest)"
    using assms(2) by (intro scan_word_word) (auto simp: is_space_def)
  moreover have "is_space CHR '' ''" by (simp add: is_space_def)
  ultimately show ?thesis using assms(3) by (simp add: scan_status_def)
qed

lemma count_stats_counts:
  assumes "length stats = 256" "\<And>c. c \<in> set cs \<Longrightarrow> (of_char c :: nat) < 128"
  shows "count_stats (map Some cs) stats = Some (map (\<lambda>i. stats ! i + length (filter (\<lambda>c. of_char c = i) cs)) [0..<256])"
  using assms
proof (induction cs arbitrary: stats)
  case Nil
  then show ?case by (simp add: map_nth flip: Nil(1))
next
  case (Cons c cs)
  let ?i = "of_char c :: nat"
  have "?i < 128" using Cons.prems(2) by simp
  moreover have "map (\<lambda>j. stats[?i := stats ! ?i + 1] ! j + length (filter (\<lambda>c. of_char c = j) cs)) [0..<256] =
      map (\<lambda>j. stats ! j + length (filter (\<lambda>c. of_char c = j) (c # cs))) [0..<256]"
    using Cons.prems(1) calculation by (intro map_cong) (auto simp: nth_list_update)
  ultimately show ?case using Cons.IH [of "stats[?i := stats ! ?i + 1]"] Cons.prems by (simp add: Let_def)
qed

lemma stats_lines_map:
  "stats_lines (map f [0..<n]) = map (\<lambda>i. char_of i # '': '' @ dec (f i) @ [newline]) (filter (\<lambda>i. 0 < f i) [0..<n])"
  unfolding stats_lines_def by (intro map_cong) (auto intro: filter_cong)

lemma char_counts: "(\<Sum>i \<leftarrow> [0..<256]. length (filter (\<lambda>c. (of_char c :: nat) = i) cs)) = length cs"
proof (induction cs)
  case (Cons c cs)
  have "(\<Sum>i = 0..<256. length (filter (\<lambda>c. (of_char c :: nat) = i) (c # cs))) =
      (\<Sum>i = 0..<256. (if of_char c = i then 1 else 0) + length (filter (\<lambda>c. (of_char c :: nat) = i) cs))"
    by (intro sum.cong) auto
  also have "\<dots> = 1 + (\<Sum>i = 0..<256. length (filter (\<lambda>c. (of_char c :: nat) = i) cs))"
    by (simp add: sum.distrib sum.delta')
  finally show ?case using Cons.IH by (simp add: interv_sum_list_conv_sum_set_nat del: filter.simps)
qed simp

text \<open>
  The program counts the states: when every child has been made and its state can be read, names without blanks, the program prints a line
  for each state that occurs, in the order of the characters, with the number of children in it; the numbers add up to a hundred.
\<close>

theorem orphan_states_counted:
  assumes "\<And>i. i < 100 \<Longrightarrow> proc i (stat_path (fork i)) = Some (stat_text (nat (fork i)) comm (cs ! i) (rest i))"
    and "\<And>i. i < 100 \<Longrightarrow> fork i < 2 ^ 31" and "length cs = 100"
    and "\<And>c. c \<in> set cs \<Longrightarrow> (of_char c :: nat) < 128 \<and> \<not> is_space c" and "\<And>c. c \<in> set comm \<Longrightarrow> \<not> is_space c"
  shows "call_orphanizer fork proc =
       Some (map (\<lambda>i. char_of i # '': '' @ dec (length (filter (\<lambda>c. of_char c = i) cs)) @ [newline])
         (filter (\<lambda>i. \<exists>c \<in> set cs. of_char c = i) [0..<256])) \<and>
     (\<Sum>i \<leftarrow> [0..<256]. length (filter (\<lambda>c. of_char c = i) cs)) = 100"
proof -
  have "get_status (proc i) (make_zombie fork i) = Some (cs ! i)" if "i < 100" for i
    using assms(1,2) [OF that] scan_status_text [of "nat (fork i)" comm "cs ! i" "rest i"] assms(4,5) that assms(3)
    by (auto simp: get_status_def make_zombie_def)
  then have "map (\<lambda>i. get_status (proc i) (map (make_zombie fork) [0..<100] ! i)) [0..<100] = map Some cs"
    using assms(3) by (intro nth_equalityI) auto
  moreover have "count_stats (map Some cs) (replicate 256 0) = Some (map (\<lambda>i. length (filter (\<lambda>c. of_char c = i) cs)) [0..<256])"
    using count_stats_counts [of "replicate 256 0" cs] assms(4) by (simp cong: map_cong)
  moreover have "(\<lambda>i. 0 < length (filter (\<lambda>c. of_char c = i) cs)) = (\<lambda>i :: nat. \<exists>c \<in> set cs. of_char c = i)"
    by (auto simp: filter_empty_conv)
  ultimately show ?thesis
    using assms(3) char_counts [of cs] by (simp only: call_orphanizer_def MAX_CHILDREN_def Let_def option.map stats_lines_map)
qed

end
