(* ===== verification/Threaded_Forks.thy ===== *)
theory Threaded_Forks
  imports Prelude
begin

text \<open>
  \<^verbatim>\<open>threaded_forks\<close>: two programs that fork while other threads take and release a mutex.

  A process is its mutex and its threads; thread \<open>0\<close> is the one that runs the main function. A fork copies the memory, the mutex
  included, but only the thread that forks. A mutex that was held by another thread is held in the child by nobody.
\<close>

section \<open>Locks whose holder is gone\<close>

locale lost_lock =
  fixes step :: "'p \<Rightarrow> 'p \<Rightarrow> bool" and holder :: "'p \<Rightarrow> nat option" and active :: "'p \<Rightarrow> nat set" and progress :: "'p \<Rightarrow> 'q"
  assumes lost_kept: "step p p' \<Longrightarrow> holder p = Some t \<Longrightarrow> t \<notin> active p \<Longrightarrow> holder p' = Some t \<and> t \<notin> active p' \<and> progress p' = progress p"
begin

lemma lost_for_ever:
  assumes "step\<^sup>*\<^sup>* p p'" "holder p = Some t" "t \<notin> active p"
  shows "holder p' = Some t \<and> t \<notin> active p' \<and> progress p' = progress p"
  using assms
proof (induction rule: rtranclp_induct)
  case (step q r)
  then show ?case using lost_kept [of q r t] by simp
qed simp

end

section \<open>Threads that work and sleep\<close>

text \<open>\<open>foo.cpp\<close>: the loop of \<open>threadFunction\<close>; \<open>rounds\<close> counts how often it has got through.\<close>

datatype mutex_pc = Locking | Working | Sleeping

record fprocess =
  flock :: "nat option"
  pcs :: "nat \<rightharpoonup> mutex_pc"
  rounds :: nat

inductive threadFunction :: "fprocess \<Rightarrow> fprocess \<Rightarrow> bool" where
  lock_taken: "pcs p t = Some Locking \<Longrightarrow> flock p = None \<Longrightarrow> threadFunction p (p\<lparr>flock := Some t, pcs := (pcs p)(t \<mapsto> Working)\<rparr>)"
| unlocked: "pcs p t = Some Working \<Longrightarrow>
    threadFunction p (p\<lparr>flock := None, pcs := (pcs p)(t \<mapsto> Sleeping), rounds := Suc (rounds p)\<rparr>)"
| woken: "pcs p t = Some Sleeping \<Longrightarrow> threadFunction p (p\<lparr>pcs := (pcs p)(t \<mapsto> Locking)\<rparr>)"

datatype foo_main = Creating nat | Announcing | Forking nat | Sleeping_main | Saying_done | Returning | Terminated

record fsystem =
  parent :: fprocess
  children :: "fprocess list"
  fmain :: foo_main
  fsaid :: "string list"

definition forked_child :: "fprocess \<Rightarrow> fprocess" where
  "forked_child p = \<lparr>flock = flock p, pcs = [0 \<mapsto> Locking], rounds = 0\<rparr>"

text \<open>Returning from \<open>main\<close> destroys thread objects that were neither joined nor detached, which terminates the program.\<close>

inductive foo_step :: "fsystem \<Rightarrow> fsystem \<Rightarrow> bool" where
  create: "fmain s = Creating i \<Longrightarrow> i < 10 \<Longrightarrow>
    foo_step s (s\<lparr>parent := (parent s)\<lparr>pcs := (pcs (parent s))(Suc i \<mapsto> Locking)\<rparr>, fmain := Creating (Suc i)\<rparr>)"
| created: "fmain s = Creating i \<Longrightarrow> \<not> i < 10 \<Longrightarrow> foo_step s (s\<lparr>fmain := Announcing\<rparr>)"
| announce: "fmain s = Announcing \<Longrightarrow> foo_step s (s\<lparr>fsaid := fsaid s @ [''Starting 5 child processes...''], fmain := Forking 0\<rparr>)"
| fork_child: "fmain s = Forking i \<Longrightarrow> i < 5 \<Longrightarrow>
    foo_step s (s\<lparr>children := children s @ [forked_child (parent s)], fmain := Forking (Suc i)\<rparr>)"
| fork_fails: "fmain s = Forking i \<Longrightarrow> i < 5 \<Longrightarrow> foo_step s (s\<lparr>fmain := Forking (Suc i)\<rparr>)"
| forks_done: "fmain s = Forking i \<Longrightarrow> \<not> i < 5 \<Longrightarrow> foo_step s (s\<lparr>fmain := Sleeping_main\<rparr>)"
| slept: "fmain s = Sleeping_main \<Longrightarrow> foo_step s (s\<lparr>fmain := Saying_done\<rparr>)"
| say_done: "fmain s = Saying_done \<Longrightarrow> foo_step s (s\<lparr>fsaid := fsaid s @ [''Done''], fmain := Returning\<rparr>)"
| return: "fmain s = Returning \<Longrightarrow> foo_step s (s\<lparr>fmain := Terminated\<rparr>)"
| parent_works: "fmain s \<noteq> Terminated \<Longrightarrow> threadFunction (parent s) p \<Longrightarrow> foo_step s (s\<lparr>parent := p\<rparr>)"
| child_works: "k < length (children s) \<Longrightarrow> threadFunction (children s ! k) p \<Longrightarrow> foo_step s (s\<lparr>children := (children s)[k := p]\<rparr>)"

definition foo_start :: fsystem where
  "foo_start = \<lparr>parent = \<lparr>flock = None, pcs = Map.empty, rounds = 0\<rparr>, children = [], fmain = Creating 0, fsaid = []\<rparr>"

text \<open>Whoever works holds the mutex, and a holder that is there works.\<close>

definition mutex_ok :: "fprocess \<Rightarrow> bool" where
  "mutex_ok p \<longleftrightarrow> (\<forall>t. pcs p t = Some Working \<longleftrightarrow> flock p = Some t \<and> t \<in> dom (pcs p))"

lemma holder_works:
  assumes "mutex_ok p" "flock p = Some t" "pcs p t = Some w"
  shows "w = Working"
proof -
  have "pcs p t = Some Working \<longleftrightarrow> flock p = Some t \<and> t \<in> dom (pcs p)" using assms(1) unfolding mutex_ok_def by (rule spec)
  with assms(2,3) show ?thesis by (simp add: domI)
qed

lemma threadFunction_mutex: "threadFunction p p' \<Longrightarrow> mutex_ok p \<Longrightarrow> mutex_ok p' \<and> dom (pcs p') = dom (pcs p)"
proof (induction rule: threadFunction.induct)
  case (woken p t)
  then have "flock p \<noteq> Some t" using holder_works by fastforce
  with woken show ?case by (auto simp: mutex_ok_def split: if_splits)
qed (auto simp: mutex_ok_def split: if_splits)

interpretation forked: lost_lock threadFunction flock "\<lambda>p. if mutex_ok p then dom (pcs p) else UNIV" rounds
proof
  fix p p' t
  assume "threadFunction p p'" "flock p = Some t" "t \<notin> (if mutex_ok p then dom (pcs p) else UNIV)"
  then show "flock p' = Some t \<and> t \<notin> (if mutex_ok p' then dom (pcs p') else UNIV) \<and> rounds p' = rounds p"
    using threadFunction_mutex [of p p'] by (auto elim!: threadFunction.cases simp: mutex_ok_def split: if_splits)
qed

inductive_simps threadFunction_iff: "threadFunction p p'"

text \<open>A child whose mutex was copied in the hands of a thread that was not copied has one thread, which waits in its first round.\<close>

definition lost_child :: "fprocess \<Rightarrow> bool" where
  "lost_child p \<longleftrightarrow> (\<exists>t. flock p = Some t \<and> t \<noteq> 0) \<and> pcs p = [0 \<mapsto> Locking] \<and> rounds p = 0"

definition live_child :: "fprocess \<Rightarrow> bool" where
  "live_child p \<longleftrightarrow> dom (pcs p) = {0} \<and> (flock p = None \<or> flock p = Some 0)"

fun main_ok :: "nat set \<Rightarrow> nat \<Rightarrow> foo_main \<Rightarrow> bool" where
  "main_ok ts n (Creating i) \<longleftrightarrow> i \<le> 10 \<and> ts \<subseteq> {1..i} \<and> n = 0"
| "main_ok ts n Announcing \<longleftrightarrow> ts \<subseteq> {1..10} \<and> n = 0"
| "main_ok ts n (Forking i) \<longleftrightarrow> i \<le> 5 \<and> ts \<subseteq> {1..10} \<and> n \<le> i"
| "main_ok ts n _ \<longleftrightarrow> ts \<subseteq> {1..10} \<and> n \<le> 5"

lemma main_ok_children: "main_ok ts n m \<Longrightarrow> n \<le> 5 \<and> 0 \<notin> ts"
  by (cases m) auto

definition foo_inv :: "fsystem \<Rightarrow> bool" where
  "foo_inv s \<longleftrightarrow> mutex_ok (parent s) \<and> (\<forall>t. flock (parent s) = Some t \<longrightarrow> t \<in> dom (pcs (parent s))) \<and>
    main_ok (dom (pcs (parent s))) (length (children s)) (fmain s) \<and>
    (\<forall>c \<in> set (children s). mutex_ok c \<and> (lost_child c \<or> live_child c))"

lemma lost_child_stuck: "lost_child c \<Longrightarrow> \<not> threadFunction c c'"
  by (auto simp: lost_child_def threadFunction_iff split: if_splits)

lemma live_child_moves: "live_child c \<Longrightarrow> mutex_ok c \<Longrightarrow> \<exists>c'. threadFunction c c'"
proof -
  assume c: "live_child c" "mutex_ok c"
  then obtain w where w: "pcs c 0 = Some w" by (auto simp: live_child_def dom_def)
  show ?thesis
  proof (cases w)
    case Locking
    with c w holder_works [of c 0] have "flock c = None" by (auto simp: live_child_def)
    with w Locking show ?thesis using threadFunction.lock_taken by blast
  qed (use w in \<open>blast intro: threadFunction.intros\<close>)+
qed

lemma live_child_kept: "threadFunction c c' \<Longrightarrow> live_child c \<Longrightarrow> live_child c'"
  by (induction rule: threadFunction.induct) (auto simp: live_child_def)

lemma forked_child_ok:
  assumes "\<forall>t. flock p = Some t \<longrightarrow> t \<noteq> 0"
  shows "mutex_ok (forked_child p) \<and> (lost_child (forked_child p) \<or> live_child (forked_child p))"
  using assms by (cases "flock p") (auto simp: forked_child_def mutex_ok_def lost_child_def live_child_def)

lemma holder_kept: "threadFunction p p' \<Longrightarrow> \<forall>t. flock p = Some t \<longrightarrow> t \<in> dom (pcs p) \<Longrightarrow> \<forall>t. flock p' = Some t \<longrightarrow> t \<in> dom (pcs p')"
  by (induction rule: threadFunction.induct) auto

lemma foo_inv_start: "foo_inv foo_start"
  by (simp add: foo_inv_def foo_start_def mutex_ok_def)

lemma foo_inv_step: "foo_step s s' \<Longrightarrow> foo_inv s \<Longrightarrow> foo_inv s'"
proof (induction rule: foo_step.induct)
  case (create s i)
  then have new: "Suc i \<notin> dom (pcs (parent s))" by (auto simp: foo_inv_def)
  with create have "flock (parent s) \<noteq> Some (Suc i)" by (auto simp: foo_inv_def)
  with create new show ?case by (auto simp: foo_inv_def mutex_ok_def split: if_splits)
next
  case (fork_child s i)
  then have "\<forall>t. flock (parent s) = Some t \<longrightarrow> t \<noteq> 0" using main_ok_children by (fastforce simp: foo_inv_def)
  from fork_child forked_child_ok [OF this] show ?case by (simp add: foo_inv_def)
next
  case (parent_works s p)
  then show ?case using threadFunction_mutex [of "parent s" p] holder_kept [of "parent s" p] by (simp add: foo_inv_def)
next
  case (child_works k s p)
  then have "children s ! k \<in> set (children s)" by simp
  with child_works have "mutex_ok p \<and> live_child p"
    using threadFunction_mutex live_child_kept lost_child_stuck by (metis foo_inv_def)
  with child_works show ?case by (auto simp: foo_inv_def dest!: set_update_subset_insert [THEN subsetD])
qed (auto simp: foo_inv_def)

lemma foo_inv_reachable: "foo_step\<^sup>*\<^sup>* foo_start s \<Longrightarrow> foo_inv s"
  by (induction rule: rtranclp_induct) (auto intro: foo_inv_start foo_inv_step)

text \<open>
  C27. However the threads and the children interleave: there are at most five children; at most one thread of the parent works; and a
  child either can always go on, or it was forked while a thread of its parent held the mutex, and then it never gets through
  the loop once.
\<close>

theorem foo_children_live_or_lost:
  assumes "foo_step\<^sup>*\<^sup>* foo_start s"
  shows "length (children s) \<le> 5 \<and>
    (\<forall>t u. pcs (parent s) t = Some Working \<longrightarrow> pcs (parent s) u = Some Working \<longrightarrow> t = u) \<and>
    (\<forall>c \<in> set (children s). (\<exists>c'. threadFunction c c') \<or>
      (\<exists>t. flock c = Some t \<and> t \<notin> dom (pcs c) \<and> (\<forall>c'. threadFunction\<^sup>*\<^sup>* c c' \<longrightarrow> flock c' = Some t \<and> rounds c' = 0)))"
proof -
  have inv: "foo_inv s" using foo_inv_reachable [OF assms] .
  have "(\<exists>c'. threadFunction c c') \<or>
      (\<exists>t. flock c = Some t \<and> t \<notin> dom (pcs c) \<and> (\<forall>c'. threadFunction\<^sup>*\<^sup>* c c' \<longrightarrow> flock c' = Some t \<and> rounds c' = 0))"
    if "c \<in> set (children s)" for c
  proof (cases "live_child c")
    case True
    with inv that live_child_moves show ?thesis by (auto simp: foo_inv_def)
  next
    case False
    with inv that obtain t where c: "mutex_ok c" "flock c = Some t" "t \<noteq> 0" "pcs c = [0 \<mapsto> Locking]" "rounds c = 0"
      by (auto simp: foo_inv_def lost_child_def)
    then have "threadFunction\<^sup>*\<^sup>* c c' \<Longrightarrow> flock c' = Some t \<and> rounds c' = 0" for c'
      using forked.lost_for_ever [of c c' t] by simp
    with c show ?thesis by auto
  qed
  moreover have "length (children s) \<le> 5"
    using inv main_ok_children unfolding foo_inv_def by blast
  ultimately show ?thesis using inv unfolding foo_inv_def mutex_ok_def by (metis option.inject)
qed

text \<open>The lost case occurs: the first thread takes the mutex and keeps it until the first fork.\<close>

lemma created_under_lock: "i < 10 \<Longrightarrow> \<exists>s. foo_step\<^sup>*\<^sup>* foo_start s \<and> fmain s = Creating (Suc i) \<and> flock (parent s) = Some 1"
proof (induction i)
  case 0
  let ?s = "foo_start\<lparr>parent := (parent foo_start)\<lparr>pcs := [1 \<mapsto> Locking]\<rparr>, fmain := Creating 1\<rparr>"
  have "foo_step foo_start ?s" using foo_step.create [of foo_start 0] by (simp add: foo_start_def)
  moreover have "foo_step ?s (?s\<lparr>parent := (parent ?s)\<lparr>flock := Some 1, pcs := (pcs (parent ?s))(1 \<mapsto> Working)\<rparr>\<rparr>)"
    by (rule foo_step.parent_works, simp, rule threadFunction.lock_taken) (simp_all add: foo_start_def)
  ultimately show ?case by (intro exI conjI, rule rtranclp.rtrancl_into_rtrancl [OF r_into_rtranclp]) simp_all
next
  case (Suc i)
  then obtain s where s: "foo_step\<^sup>*\<^sup>* foo_start s" "fmain s = Creating (Suc i)" "flock (parent s) = Some 1" by auto
  let ?t = "s\<lparr>parent := (parent s)\<lparr>pcs := (pcs (parent s))(Suc (Suc i) \<mapsto> Locking)\<rparr>, fmain := Creating (Suc (Suc i))\<rparr>"
  have "foo_step s ?t" using s Suc.prems by (intro foo_step.create) simp_all
  with s have "foo_step\<^sup>*\<^sup>* foo_start ?t" by simp
  with s show ?case by (intro exI [of _ ?t]) simp
qed

lemma lost_child_reachable: "\<exists>s. foo_step\<^sup>*\<^sup>* foo_start s \<and> (\<exists>c \<in> set (children s). lost_child c)"
proof -
  obtain s where s: "foo_step\<^sup>*\<^sup>* foo_start s" "fmain s = Creating 10" "flock (parent s) = Some 1"
    using created_under_lock [of 9] by auto
  let ?a = "s\<lparr>fmain := Announcing\<rparr>"
  let ?f = "?a\<lparr>fsaid := fsaid s @ [''Starting 5 child processes...''], fmain := Forking 0\<rparr>"
  let ?c = "?f\<lparr>children := children s @ [forked_child (parent s)], fmain := Forking 1\<rparr>"
  have "foo_step s ?a" using s by (simp add: foo_step.created)
  moreover have "foo_step ?a ?f" using foo_step.announce [of ?a] by simp
  moreover have "foo_step ?f ?c" using foo_step.fork_child [of ?f 0] by simp
  ultimately have "foo_step\<^sup>*\<^sup>* foo_start ?c" using s(1) by (meson rtranclp.rtrancl_into_rtrancl)
  moreover have "lost_child (forked_child (parent s))" using s by (simp add: lost_child_def forked_child_def)
  ultimately show ?thesis by force
qed

theorem foo_children_live_or_lost_witness:
  "\<exists>s c. foo_step\<^sup>*\<^sup>* foo_start s \<and> c \<in> set (children s) \<and> length (children s) \<le> 5 \<and>
     (\<forall>c'. threadFunction\<^sup>*\<^sup>* c c' \<longrightarrow> rounds c' = 0)"
proof -
  obtain s c where s: "foo_step\<^sup>*\<^sup>* foo_start s" "c \<in> set (children s)" "lost_child c" using lost_child_reachable by blast
  with foo_children_live_or_lost [OF s(1)] lost_child_stuck show ?thesis by metis
qed

section \<open>Threads that spin\<close>

text \<open>
  \<open>main.cpp\<close>. \<open>Foo::spin\<close> takes and releases the mutex for ever. \<open>spin_thread n\<close> counts \<open>n\<close> down before every turn, says so,
  takes the mutex, starts a thread while it holds it, and releases it at the end of the turn. \<open>sforks\<close> counts the calls of
  \<open>fork_n_go\<close> the loop of \<open>main\<close> has made. \<open>sleep(0.1)\<close> converts its argument to an unsigned number and does not sleep at all.
\<close>

datatype spin_pc = Wants | Has

datatype spin_main_pc = Testing int | Saying int | Wanting int | Holding int | Napping | Looping | Last_sleep | Exited

record sprocess =
  slock :: "nat option"
  spinners :: "nat \<rightharpoonup> spin_pc"
  mpc :: spin_main_pc
  sforks :: nat
  spawned :: nat
  said :: nat

inductive spin :: "sprocess \<Rightarrow> sprocess \<Rightarrow> bool" where
  spin_lock: "mpc p \<noteq> Exited \<Longrightarrow> spinners p t = Some Wants \<Longrightarrow> slock p = None \<Longrightarrow>
    spin p (p\<lparr>slock := Some t, spinners := (spinners p)(t \<mapsto> Has)\<rparr>)"
| spin_unlock: "mpc p \<noteq> Exited \<Longrightarrow> spinners p t = Some Has \<Longrightarrow> spin p (p\<lparr>slock := None, spinners := (spinners p)(t \<mapsto> Wants)\<rparr>)"

inductive spin_thread :: "sprocess \<Rightarrow> sprocess \<Rightarrow> bool" where
  again: "mpc p = Testing n \<Longrightarrow> n - 1 \<ge> 0 \<Longrightarrow> spin_thread p (p\<lparr>mpc := Saying (n - 1)\<rparr>)"
| counted: "mpc p = Testing n \<Longrightarrow> \<not> n - 1 \<ge> 0 \<Longrightarrow> spin_thread p (p\<lparr>mpc := if sforks p = 0 then Looping else Napping\<rparr>)"
| says: "mpc p = Saying n \<Longrightarrow> spin_thread p (p\<lparr>mpc := Wanting n, said := Suc (said p)\<rparr>)"
| locks: "mpc p = Wanting n \<Longrightarrow> slock p = None \<Longrightarrow> spin_thread p (p\<lparr>mpc := Holding n, slock := Some 0\<rparr>)"
| spawns: "mpc p = Holding n \<Longrightarrow> spin_thread p (p\<lparr>mpc := Testing n, slock := None,
    spinners := (spinners p)(Suc (spawned p) \<mapsto> Wants), spawned := Suc (spawned p)\<rparr>)"

inductive alone :: "sprocess \<Rightarrow> sprocess \<Rightarrow> bool" where
  spins: "spin p p' \<Longrightarrow> alone p p'"
| spawning: "spin_thread p p' \<Longrightarrow> alone p p'"
| napped: "mpc p = Napping \<Longrightarrow> alone p (p\<lparr>mpc := Looping\<rparr>)"
| loop_done: "mpc p = Looping \<Longrightarrow> \<not> sforks p < 5 \<Longrightarrow> alone p (p\<lparr>mpc := Last_sleep\<rparr>)"
| returned: "mpc p = Last_sleep \<Longrightarrow> alone p (p\<lparr>mpc := Exited\<rparr>)"

definition went_on :: "sprocess \<Rightarrow> sprocess" where
  "went_on p = p\<lparr>mpc := Napping, sforks := Suc (sforks p)\<rparr>"

definition went_child :: "sprocess \<Rightarrow> sprocess" where
  "went_child p = p\<lparr>spinners := Map.empty, mpc := Testing 10, sforks := Suc (sforks p), spawned := 0, said := 0\<rparr>"

inductive fork_n_go :: "sprocess list \<Rightarrow> sprocess list \<Rightarrow> bool" where
  forks: "k < length ps \<Longrightarrow> mpc (ps ! k) = Looping \<Longrightarrow> sforks (ps ! k) < 5 \<Longrightarrow>
    fork_n_go ps (ps[k := went_on (ps ! k)] @ [went_child (ps ! k)])"
| no_fork: "k < length ps \<Longrightarrow> mpc (ps ! k) = Looping \<Longrightarrow> sforks (ps ! k) < 5 \<Longrightarrow> fork_n_go ps (ps[k := went_on (ps ! k)])"

inductive spin_main :: "sprocess list \<Rightarrow> sprocess list \<Rightarrow> bool" where
  goes: "fork_n_go ps ps' \<Longrightarrow> spin_main ps ps'"
| on_its_own: "k < length ps \<Longrightarrow> alone (ps ! k) p \<Longrightarrow> spin_main ps (ps[k := p])"

definition spin_start :: "sprocess list" where
  "spin_start = [\<lparr>slock = None, spinners = Map.empty, mpc = Testing 10, sforks = 0, spawned = 0, said = 0\<rparr>]"

definition holding :: "spin_main_pc \<Rightarrow> bool" where
  "holding m \<longleftrightarrow> (case m of Holding _ \<Rightarrow> True | _ \<Rightarrow> False)"

lemma holding_simps [simp]:
  "holding (Testing n) = False" "holding (Saying n) = False" "holding (Wanting n) = False" "holding (Holding n) = True"
  "holding Napping = False" "holding Looping = False" "holding Last_sleep = False" "holding Exited = False"
  by (simp_all add: holding_def)

definition spin_ok :: "sprocess \<Rightarrow> bool" where
  "spin_ok p \<longleftrightarrow> (holding (mpc p) \<longleftrightarrow> slock p = Some 0) \<and> spinners p 0 = None \<and>
    (\<forall>t w. spinners p t = Some w \<longrightarrow> (w = Has \<longleftrightarrow> slock p = Some t))"

lemma spin_okD: "spin_ok p \<Longrightarrow> spinners p t = Some w \<Longrightarrow> w = Has \<longleftrightarrow> slock p = Some t"
  by (simp add: spin_ok_def)

lemma spinner_positive: "spin_ok p \<Longrightarrow> spinners p t = Some w \<Longrightarrow> t \<noteq> 0"
  by (cases "t = 0") (simp_all add: spin_ok_def)

lemma spin_alone: "spin p p' \<Longrightarrow> spin_ok p \<Longrightarrow> spin_ok p' \<and> mpc p' = mpc p \<and> spawned p' = spawned p \<and> sforks p' = sforks p \<and>
    dom (spinners p') = dom (spinners p) \<and> (\<forall>t. slock p = Some t \<longrightarrow> t \<in> dom (spinners p)) \<and>
    (\<forall>t. slock p' = Some t \<longrightarrow> t \<in> dom (spinners p'))"
proof (induction rule: spin.induct)
  case (spin_lock p t)
  then have "t \<noteq> 0" using spinner_positive by blast
  with spin_lock show ?case by (auto simp: spin_ok_def split: if_splits)
next
  case (spin_unlock p t)
  then have t: "t \<noteq> 0" "slock p = Some t" using spinner_positive spin_okD by blast+
  with spin_unlock show ?case by (auto simp: spin_ok_def split: if_splits)
qed

lemma spawning_alone: "spin_thread p p' \<Longrightarrow> spin_ok p \<Longrightarrow> spin_ok p' \<and> sforks p' = sforks p \<and>
    (slock p' = slock p \<and> spinners p' = spinners p \<and> spawned p' = spawned p \<or> slock p = None \<and> slock p' = Some 0 \<or> slock p = Some 0 \<and> slock p' = None)"
  by (induction rule: spin_thread.induct) (auto simp: spin_ok_def split: if_splits intro!: gr0I)

text \<open>The holder of the mutex is a thread of the process, or the process was forked under a mutex that nobody can release.\<close>

definition held_here :: "sprocess \<Rightarrow> bool" where
  "held_here p \<longleftrightarrow> (\<forall>t. slock p = Some t \<longrightarrow> t = 0 \<or> t \<in> dom (spinners p))"

definition born_locked :: "sprocess \<Rightarrow> bool" where
  "born_locked p \<longleftrightarrow> (\<exists>t. slock p = Some t \<and> t \<noteq> 0) \<and> spinners p = Map.empty \<and> spawned p = 0 \<and>
    mpc p \<in> {Testing 10, Saying 9, Wanting 9}"

lemma born_locked_alone: "alone p p' \<Longrightarrow> born_locked p \<Longrightarrow> born_locked p' \<and> sforks p' = sforks p \<and> slock p' = slock p"
  by (auto simp: born_locked_def elim!: alone.cases spin.cases spin_thread.cases)

lemma alone_ok: "alone p p' \<Longrightarrow> spin_ok p \<Longrightarrow> spin_ok p' \<and> sforks p' = sforks p"
proof (induction rule: alone.induct)
  case (spins p p') then show ?case using spin_alone by blast
next
  case (spawning p p') then show ?case using spawning_alone by blast
qed (auto simp: spin_ok_def)

lemma alone_held: "alone p p' \<Longrightarrow> spin_ok p \<Longrightarrow> held_here p \<Longrightarrow> held_here p'"
proof (induction rule: alone.induct)
  case (spins p p') then show ?case using spin_alone [of p p'] by (auto simp: held_here_def)
next
  case (spawning p p') then show ?case using spawning_alone [of p p'] by (auto simp: held_here_def)
qed (auto simp: held_here_def)

definition proc_ok :: "sprocess \<Rightarrow> bool" where
  "proc_ok p \<longleftrightarrow> spin_ok p \<and> sforks p \<le> 5 \<and> (held_here p \<or> born_locked p)"

lemma proc_ok_alone: "alone p p' \<Longrightarrow> proc_ok p \<Longrightarrow> proc_ok p' \<and> sforks p' = sforks p"
  using alone_ok alone_held born_locked_alone unfolding proc_ok_def by metis

lemma proc_ok_forks:
  assumes "proc_ok p" "mpc p = Looping" "sforks p < 5"
  shows "proc_ok (went_on p)" "proc_ok (went_child p)"
  using assms by (auto simp: proc_ok_def spin_ok_def held_here_def born_locked_def went_on_def went_child_def)

interpretation spun: lost_lock alone slock "\<lambda>p. if born_locked p then {0} else UNIV" "\<lambda>p. (spawned p, sforks p)"
proof
  fix p p' t
  assume "alone p p'" "slock p = Some t" "t \<notin> (if born_locked p then {0} else UNIV)"
  then show "slock p' = Some t \<and> t \<notin> (if born_locked p' then {0} else UNIV) \<and> (spawned p', sforks p') = (spawned p, sforks p)"
    using born_locked_alone [of p p'] by (auto split: if_splits simp: born_locked_def)
qed

text \<open>Every process can still grow into \<open>2 ^ (5 - sforks)\<close> of them.\<close>

definition growth :: "sprocess list \<Rightarrow> nat" where
  "growth ps = (\<Sum>p\<leftarrow>ps. 2 ^ (5 - sforks p))"

lemma growth_update: "k < length ps \<Longrightarrow> growth (ps[k := p]) + 2 ^ (5 - sforks (ps ! k)) = growth ps + 2 ^ (5 - sforks p)"
  unfolding growth_def by (induction ps arbitrary: k) (auto simp: nth_Cons split: nat.splits)

lemma length_growth: "length ps \<le> growth ps"
proof (induction ps)
  case (Cons p ps)
  have "1 + length ps \<le> 2 ^ (5 - sforks p) + growth ps" by (rule add_mono) (simp, rule Cons.IH)
  then show ?case by (simp add: growth_def)
qed simp

lemma growth_fork:
  assumes "k < length ps" "sforks (ps ! k) < 5"
  shows "growth (ps[k := went_on (ps ! k)] @ [went_child (ps ! k)]) = growth ps" "growth (ps[k := went_on (ps ! k)]) \<le> growth ps"
proof -
  obtain j where j: "5 - sforks (ps ! k) = Suc j" "5 - Suc (sforks (ps ! k)) = j" using assms(2) by (metis Suc_diff_Suc)
  have on: "growth (ps[k := went_on (ps ! k)]) + 2 * 2 ^ j = growth ps + 2 ^ j"
    using growth_update [OF assms(1), of "went_on (ps ! k)"] j by (simp add: went_on_def)
  then show "growth (ps[k := went_on (ps ! k)]) \<le> growth ps" by simp
  have "growth (ps[k := went_on (ps ! k)] @ [went_child (ps ! k)]) = growth (ps[k := went_on (ps ! k)]) + 2 ^ j"
    using j by (simp add: growth_def went_child_def)
  then show "growth (ps[k := went_on (ps ! k)] @ [went_child (ps ! k)]) = growth ps" using on by simp
qed

lemma spin_main_inv: "spin_main ps ps' \<Longrightarrow> list_all proc_ok ps \<Longrightarrow> list_all proc_ok ps' \<and> growth ps' \<le> growth ps"
proof (induction rule: spin_main.induct)
  case (goes ps ps')
  then show ?case
    by (induction rule: fork_n_go.induct)
       (auto simp: growth_fork list_all_length nth_list_update nth_append proc_ok_forks less_Suc_eq)
next
  case (on_its_own k ps p)
  then have "proc_ok (ps ! k)" by (simp add: list_all_length)
  with on_its_own proc_ok_alone have "proc_ok p" "sforks p = sforks (ps ! k)" by blast+
  with on_its_own show ?case using growth_update [of k ps p] by (auto simp: list_all_length nth_list_update)
qed

lemma spin_main_reachable: "spin_main\<^sup>*\<^sup>* spin_start ps \<Longrightarrow> list_all proc_ok ps \<and> growth ps \<le> 32"
proof (induction rule: rtranclp_induct)
  case base
  show ?case by (auto simp: spin_start_def proc_ok_def spin_ok_def held_here_def growth_def)
next
  case (step ps ps')
  then show ?case using spin_main_inv [of ps ps'] by auto
qed

text \<open>
  The children return into the loop of \<open>main\<close> and fork as well, so there are up to 32 processes. In each of them the mutex is
  held by one of its own threads, or it was forked under a held mutex: then it never starts a thread and never calls \<open>fork_n_go\<close>.
\<close>

theorem spin_main_processes:
  assumes "spin_main\<^sup>*\<^sup>* spin_start ps"
  shows "length ps \<le> 32 \<and> (\<forall>p \<in> set ps. held_here p \<or>
    spawned p = 0 \<and> (\<forall>p'. alone\<^sup>*\<^sup>* p p' \<longrightarrow> slock p' = slock p \<and> spawned p' = 0 \<and> sforks p' = sforks p \<and> mpc p' \<noteq> Looping))"
proof -
  have ok: "list_all proc_ok ps" "length ps \<le> 32"
    using spin_main_reachable [OF assms] length_growth [of ps] by auto
  have "spawned p = 0 \<and> (\<forall>p'. alone\<^sup>*\<^sup>* p p' \<longrightarrow> slock p' = slock p \<and> spawned p' = 0 \<and> sforks p' = sforks p \<and> mpc p' \<noteq> Looping)"
    if bl: "born_locked p" for p
  proof -
    obtain t where t: "slock p = Some t" "t \<noteq> 0" "spawned p = 0" using bl unfolding born_locked_def by blast
    have "slock p' = Some t \<and> spawned p' = 0 \<and> sforks p' = sforks p \<and> born_locked p'" if r: "alone\<^sup>*\<^sup>* p p'" for p'
    proof -
      have "slock p' = Some t \<and> t \<notin> (if born_locked p' then {0} else UNIV) \<and> (spawned p', sforks p') = (spawned p, sforks p)"
        using r t(1) by (rule spun.lost_for_ever) (simp add: bl t)
      with t(3) show ?thesis by (cases "born_locked p'") simp_all
    qed
    moreover have "mpc p' \<noteq> Looping" if "born_locked p'" for p'
      using that unfolding born_locked_def by fastforce
    ultimately show ?thesis using t by metis
  qed
  with ok show ?thesis unfolding list_all_iff proc_ok_def by blast
qed

end
