(* ===== verification/Benchmark.thy ===== *)
theory Benchmark
  imports File_Appender C_Double C_Stdio
begin

text \<open>
  The driver of the benchmark \<^verbatim>\<open>write_append/src/main.cc\<close> around the file appender: the parent that forks and
  waits, the figures it computes in floating point, and the table it prints.

  The results of the forks (\<open>None\<close> for a failure), the milliseconds a run takes and the rounding of the machine are parameters.
\<close>

section \<open>Forking and waiting\<close>

text \<open>
  The parent notes what \<open>fork\<close> returned, a failure (\<open>-1\<close>) too. A child that was created runs to its end; here the children
  run one after the other, and what is left of each is its number and its exit code.
\<close>

fun fork_children ::
  "(log_world \<Rightarrow> (int \<times> log_world) option) \<Rightarrow> int option list \<Rightarrow> log_world \<Rightarrow> ((int list \<times> (int \<times> int) list) \<times> log_world) option" where
  "fork_children child [] w = Some (([], []), w)"
| "fork_children child (None # fs) w = do {
     ((pids, zs), w) \<leftarrow> fork_children child fs w;
     Some ((-1 # pids, zs), w)
   }"
| "fork_children child (Some pid # fs) w = do {
     (status, w) \<leftarrow> child w;
     ((pids, zs), w) \<leftarrow> fork_children child fs w;
     Some ((pid # pids, (pid, status) # zs), w)
   }"

text \<open>
  \<open>waitpid\<close> takes the child of that number, or any child when the number is \<open>-1\<close>: here the first. Without such a child it fails and
  does not set the status, which the loop then reads uninitialised (\<open>None\<close>).
\<close>

fun waitpid :: "int \<Rightarrow> (int \<times> int) list \<Rightarrow> (int \<times> (int \<times> int) list) option" where
  "waitpid pid [] = None"
| "waitpid pid ((p, status) # zs) =
     (if pid = -1 \<or> pid = p then Some (status, zs)
      else Option.bind (waitpid pid zs) (\<lambda>(s, zs). Some (s, (p, status) # zs)))"

fun wait_children :: "int list \<Rightarrow> (int \<times> int) list \<Rightarrow> int list option" where
  "wait_children [] zs = Some []"
| "wait_children (pid # pids) zs = do {
     (status, zs) \<leftarrow> waitpid pid zs;
     failed \<leftarrow> wait_children pids zs;
     Some (if status \<noteq> 0 then pid # failed else failed)
   }"

section \<open>The figures\<close>

record BenchmarkResult =
  method_name :: string
  duration_ms :: int
  time_per_call_us :: double
  throughput_gbps :: double

text \<open>The product of the two counts is one of type \<open>int\<close>.\<close>

definition calculate_metrics :: "rounding \<Rightarrow> AppendMethod \<Rightarrow> int \<Rightarrow> nat \<Rightarrow> nat \<Rightarrow> nat \<Rightarrow> BenchmarkResult option" where
  "calculate_metrics r m duration num_processes ops_per_process data_size =
     (if num_processes * ops_per_process \<ge> 2 ^ 31 then None
      else
        let per_call = d_div r (d_mul r (d_of_int r duration) (Fin 1000)) (d_of_int r (int (num_processes * ops_per_process)));
            total_bytes = d_mul r (d_mul r (d_of_int r (int num_processes)) (d_of_int r (int ops_per_process))) (d_of_int r (int data_size));
            seconds = d_div r (d_of_int r duration) (Fin 1000)
        in Some \<lparr>method_name = GetMethodName m, duration_ms = duration, time_per_call_us = per_call,
             throughput_gbps = d_mul r (d_div r (d_div r total_bytes seconds) (Fin (1024 * 1024 * 1024))) (Fin 8)\<rparr>)"

definition child_failed :: "int \<Rightarrow> string" where
  "child_failed pid = ''Child process '' @ show_int pid @ '' failed'' @ [newline]"

definition run_benchmark ::
  "(log_world \<Rightarrow> log_world) \<Rightarrow> libaio \<Rightarrow> nat \<Rightarrow> rounding \<Rightarrow> int option list \<Rightarrow> int \<Rightarrow> AppendMethod \<Rightarrow> nat \<Rightarrow> nat \<Rightarrow> log_world \<Rightarrow>
     ((BenchmarkResult \<times> string) \<times> log_world) option" where
  "run_benchmark env lib align r forks duration m ops_per_process data_size w =
     (let w = sys_unlink (benchmark_file m) w;
          w = sys_unlink (benchmark_file m @ ''.mmlog'') w
      in do {
        ((pids, zs), w) \<leftarrow> fork_children (benchmark_child env lib align m ops_per_process data_size) forks w;
        failed \<leftarrow> wait_children pids zs;
        result \<leftarrow> calculate_metrics r m duration (length forks) ops_per_process data_size;
        Some ((result, concat (map child_failed failed)), w)
      })"

section \<open>The table\<close>

text \<open>\<open>std::fixed\<close> with a precision: the nearest decimal number with that many digits, the even one of two equally near.\<close>

definition round_even :: "rat \<Rightarrow> nat" where
  "round_even q =
     (let n = nat \<lfloor>q\<rfloor>; rest = q - of_int \<lfloor>q\<rfloor>
      in if rest < 1 / 2 \<or> rest = 1 / 2 \<and> even n then n else Suc n)"

definition pad_zeros :: "nat \<Rightarrow> string \<Rightarrow> string" where
  "pad_zeros k ds = replicate (k - length ds) (CHR ''0'') @ ds"

fun show_fixed :: "nat \<Rightarrow> double \<Rightarrow> string" where
  "show_fixed p (Fin a) =
     (let n = round_even (\<bar>a\<bar> * 10 ^ p)
      in (if a < 0 then ''-'' else []) @ dec (n div 10 ^ p) @ ''.'' @ pad_zeros p (dec (n mod 10 ^ p)))"
| "show_fixed p PInf = ''inf''"
| "show_fixed p NInf = ''-inf''"
| "show_fixed p NaN = ''nan''"

definition result_row :: "BenchmarkResult \<Rightarrow> string" where
  "result_row result = ''| '' @ method_name result @ '' | '' @ show_int (duration_ms result) @ '' | '' @
     show_fixed 2 (time_per_call_us result) @ '' | '' @ show_fixed 3 (throughput_gbps result) @ '' |'' @ [newline]"

definition help_text :: "string \<Rightarrow> string" where
  "help_text argv0 = ''Usage: '' @ argv0 @ '' [benchmark_names...]'' @ newline # concat (map (\<lambda>l. l @ [newline])
     [''Available benchmarks:'',
      ''  mmlog   - Memory-mapped log'',
      ''  write   - O_APPEND with write()'',
      ''  writev  - writev() with O_APPEND'',
      ''  fwrite  - FILE streams (fwrite)'',
      ''  direct  - Direct I/O (O_DIRECT)'',
      ''  aio     - Linux AIO'',
      ''  all     - Run all benchmarks'',
      ''If no arguments are provided, all benchmarks will be run.''])"

definition BENCH_PROCESSES :: nat where
  "BENCH_PROCESSES = 4"

definition OPS_PER_PROCESS :: nat where
  "OPS_PER_PROCESS = 10000"

definition DATA_SIZE :: nat where
  "DATA_SIZE = 4095"

text \<open>The mu of the header is two bytes in UTF-8.\<close>

definition table_header :: string where
  "table_header = ''Running benchmarks with '' @ dec BENCH_PROCESSES @ '' processes, '' @ dec OPS_PER_PROCESS @
     '' operations per process, '' @ dec DATA_SIZE @ '' bytes per operation'' @ [newline, newline] @
     ''| Category | Total Time (ms) | Time per Call ('' @ [CHR 0xCE, CHR 0xBC] @ ''s) | Throughput (GB/s) |'' @ [newline] @
     ''|----------|----------------|-------------------|------------------|'' @ [newline]"

text \<open>
  A machine says for every method what the forks of its run return and how long the run takes. The results are the two
  streams the program writes to.
\<close>

record machine =
  m_forks :: "AppendMethod \<Rightarrow> nat \<Rightarrow> int option"
  m_duration :: "AppendMethod \<Rightarrow> int"
  m_round :: rounding

definition run_one ::
  "(log_world \<Rightarrow> log_world) \<Rightarrow> libaio \<Rightarrow> nat \<Rightarrow> machine \<Rightarrow> AppendMethod \<Rightarrow> log_world \<Rightarrow>
     ((BenchmarkResult \<times> string) \<times> log_world) option" where
  "run_one env lib align mach m =
     run_benchmark env lib align (m_round mach) (map (m_forks mach m) [0..<BENCH_PROCESSES]) (m_duration mach m) m OPS_PER_PROCESS DATA_SIZE"

fun run_selected ::
  "(AppendMethod \<Rightarrow> log_world \<Rightarrow> ((BenchmarkResult \<times> string) \<times> log_world) option) \<Rightarrow> AppendMethod list \<Rightarrow> log_world \<Rightarrow>
     ((BenchmarkResult list \<times> string) \<times> log_world) option" where
  "run_selected run [] w = Some (([], []), w)"
| "run_selected run (m # ms) w = do {
     ((result, err), w) \<leftarrow> run m w;
     ((results, errs), w) \<leftarrow> run_selected run ms w;
     Some ((result # results, err @ errs), w)
   }"

definition benchmark_main ::
  "(log_world \<Rightarrow> log_world) \<Rightarrow> libaio \<Rightarrow> nat \<Rightarrow> machine \<Rightarrow> string \<Rightarrow> string list \<Rightarrow> log_world \<Rightarrow> ((string \<times> string) \<times> log_world) option" where
  "benchmark_main env lib align mach argv0 args w =
     (case selected_benchmarks args of
        None \<Rightarrow> Some ((help_text argv0, []), w)
      | Some ms \<Rightarrow> do {
          ((results, errs), w) \<leftarrow> run_selected (run_one env lib align mach) ms w;
          Some ((table_header @ concat (map result_row results), errs), w)
        })"

section \<open>Children that are all there\<close>

lemma fork_children_ok:
  "fork_children child (map Some pids) w = Option.bind (run_children child (length pids) w) (\<lambda>(stats, w). Some ((pids, zip pids stats), w))"
  by (induction pids arbitrary: w) (auto split: prod.splits Option.bind_splits)

lemma run_children_length: "run_children child n w = Some (stats, w') \<Longrightarrow> length stats = n"
  by (induction n arbitrary: w stats w') (auto split: Option.bind_splits)

lemma wait_children_ok:
  "length stats = length pids \<Longrightarrow> -1 \<notin> set pids \<Longrightarrow>
   wait_children pids (zip pids stats) = Some (map fst (filter (\<lambda>(p, s). s \<noteq> 0) (zip pids stats)))"
  by (induction pids stats rule: list_induct2') auto

text \<open>
  When every fork succeeds, the parent collects every child once: the messages are those for the children with another
  exit code than zero, in the order they were started, and the files are left as the children leave them.
\<close>

theorem run_benchmark_forks_ok:
  assumes "-1 \<notin> set pids"
  shows "run_benchmark env lib align r (map Some pids) duration m ops data_size w =
    Option.bind (RunBenchmark env lib align m (length pids) ops data_size w) (\<lambda>((name, stats), w).
      Option.bind (calculate_metrics r m duration (length pids) ops data_size) (\<lambda>result.
        Some ((result, concat (map child_failed (map fst (filter (\<lambda>(p, s). s \<noteq> 0) (zip pids stats))))), w)))"
  using assms
  by (auto simp: run_benchmark_def RunBenchmark_def fork_children_ok Let_def wait_children_ok
    dest!: run_children_length split: Option.bind_splits)

text \<open>A fork that fails leaves one wait too many, which reads a status nobody has set.\<close>

lemma waitpid_length: "waitpid pid zs = Some (s, zs') \<Longrightarrow> length zs = Suc (length zs')"
  by (induction pid zs arbitrary: zs' rule: waitpid.induct) (auto split: if_splits Option.bind_splits)

lemma wait_children_length: "wait_children pids zs = Some failed \<Longrightarrow> length pids \<le> length zs"
  by (induction pids arbitrary: zs failed) (auto dest!: waitpid_length split: Option.bind_splits)

lemma fork_children_length:
  "fork_children child fs w = Some ((pids, zs), w') \<Longrightarrow> length pids = length fs \<and> length zs = length (filter (\<lambda>f. f \<noteq> None) fs)"
  by (induction child fs w arbitrary: pids zs w' rule: fork_children.induct) (auto split: Option.bind_splits)

lemma failed_fork_unset:
  assumes "None \<in> set forks"
  shows "run_benchmark env lib align r forks duration m ops data_size w = None"
proof -
  have "length (filter (\<lambda>f. f \<noteq> None) forks) < length forks"
    using assms by (auto intro: length_filter_less)
  then show ?thesis
    by (auto simp: run_benchmark_def Let_def dest!: fork_children_length wait_children_length split: Option.bind_splits)
qed

section \<open>What the figures say\<close>

text \<open>
  Without rounding, the time per call in microseconds times the throughput is the size of a record in units of \<open>2 ^ 30\<close> bits
  per second, eight to the byte; the heading of the column says bytes. A run below one millisecond has an infinite throughput.
\<close>

theorem exact_metrics:
  assumes "0 < n" "0 < ops" "n * ops < 2 ^ 31" "0 < duration"
  shows "\<exists>result t g. calculate_metrics Fin m duration n ops data_size = Some result \<and> time_per_call_us result = Fin t \<and>
    throughput_gbps result = Fin g \<and> t * g = 8 * of_nat data_size * 10 ^ 6 / 2 ^ 30 \<and> t * of_nat (n * ops) = of_int duration * 1000"
proof -
  let ?t = "of_int duration * 1000 / (of_nat n * of_nat ops) :: rat"
  let ?g = "of_nat n * of_nat ops * of_nat data_size / (of_int duration / 1000) / 1073741824 * 8 :: rat"
  have "calculate_metrics Fin m duration n ops data_size =
      Some \<lparr>method_name = GetMethodName m, duration_ms = duration, time_per_call_us = Fin ?t, throughput_gbps = Fin ?g\<rparr>"
    using assms by (simp add: calculate_metrics_def d_of_int_def Let_def)
  moreover have "?t * ?g = 8 * of_nat data_size * 10 ^ 6 / 2 ^ 30" "?t * of_nat (n * ops) = of_int duration * 1000"
    using assms by (simp_all add: field_simps)
  ultimately show ?thesis by (intro exI [of _ "_ :: BenchmarkResult"] exI [of _ ?t] exI [of _ ?g]) auto
qed

lemma dec_zero: "dec 0 = ''0''"
  by code_simp

lemma zero_duration_row:
  assumes "0 < n" "0 < ops" "0 < data_size" "n * ops < 2 ^ 31"
  shows "\<exists>result. calculate_metrics Fin m 0 n ops data_size = Some result \<and>
    result_row result = ''| '' @ GetMethodName m @ '' | 0 | 0.00 | inf |'' @ [newline]"
  using assms by (simp add: calculate_metrics_def d_of_int_def Let_def result_row_def show_int_def round_even_def pad_zeros_def
    dec_zero)

text \<open>The rows come in the order of the table, whatever the order of the arguments, each of them once.\<close>

lemma run_selected_names:
  "run_selected (run_one env lib align mach) ms w = Some ((results, errs), w') \<Longrightarrow> map method_name results = map GetMethodName ms"
  by (induction ms arbitrary: w results errs w')
     (auto simp: run_one_def run_benchmark_def calculate_metrics_def Let_def split: Option.bind_splits if_splits)

lemma selected_table_order:
  assumes "selected_benchmarks args = Some ms"
  shows "subseq ms (map snd benchmark_table)"
proof -
  obtain P where "ms = map snd (filter P benchmark_table)"
    using assms by (auto simp: selected_benchmarks_def split: option.splits)
  then show ?thesis by (auto intro: subseq_map)
qed

lemma scan_args_help: "scan_args args b names = None \<longleftrightarrow> ''-h'' \<in> set args \<or> ''--help'' \<in> set args"
  by (induction args b names rule: scan_args.induct) auto

lemma run_selected_forks:
  assumes "run_selected (run_one env lib align mach) ms w = Some (x, w')" "m \<in> set ms"
  shows "None \<notin> m_forks mach m ` {..<BENCH_PROCESSES}"
proof -
  have "\<exists>w y. run_one env lib align mach m w = Some y"
    using assms by (induction ms arbitrary: w x) (auto split: Option.bind_splits)
  then have "None \<notin> set (map (m_forks mach m) [0..<BENCH_PROCESSES])"
    using failed_fork_unset by (fastforce simp: run_one_def)
  then show ?thesis by (simp add: lessThan_atLeast0)
qed

theorem benchmark_rows:
  assumes "benchmark_main env lib align mach argv0 args w = Some ((out, err), w')" "''-h'' \<notin> set args" "''--help'' \<notin> set args"
  shows "\<exists>results ms. out = table_header @ concat (map result_row results) \<and> map method_name results = map GetMethodName ms \<and>
    subseq ms [MMLOG_APPEND, WRITE_APPEND, WRITEV_APPEND, FWRITE_APPEND, DIRECT_APPEND, AIO_APPEND] \<and>
    (\<forall>m \<in> set ms. None \<notin> m_forks mach m ` {..<BENCH_PROCESSES})"
proof -
  obtain ms where ms: "selected_benchmarks args = Some ms"
    using assms(2,3) scan_args_help [of args "args = []" "[]"] by (cases "scan_args args (args = []) []") (auto simp: selected_benchmarks_def)
  with assms(1) obtain results where res: "run_selected (run_one env lib align mach) ms w = Some ((results, err), w')"
      "out = table_header @ concat (map result_row results)"
    by (auto simp: benchmark_main_def split: Option.bind_splits)
  with ms run_selected_names run_selected_forks selected_table_order [OF ms] show ?thesis
    by (intro exI [of _ results] exI [of _ ms]) (auto simp: benchmark_table_def)
qed

lemma benchmark_help:
  assumes "''-h'' \<in> set args \<or> ''--help'' \<in> set args"
  shows "benchmark_main env lib align mach argv0 args w = Some ((help_text argv0, []), w)"
  using assms scan_args_help [of args "args = []" "[]"] by (auto simp: benchmark_main_def selected_benchmarks_def)

end
