(* ===== verification/Clone_Fork.thy ===== *)
theory Clone_Fork
  imports C_Stdio
begin

unbundle bit_operations_syntax

text \<open>
  \<^verbatim>\<open>fork_without_handlers/clone.c\<close>: a program that makes a child in one of five ways and shows which of them run the
  handlers given to \<open>pthread_atfork\<close>.

  The result of a run is what each process prints, in its own order, and its exit code; the first process is the one that was
  started. Parameters are the number of the child (\<open>None\<close> when none can be made) and what the uninitialised bytes of a buffer hold.
\<close>

section \<open>The system call\<close>

definition CLONE_VM :: "32 word" where
  "CLONE_VM = 0x100"

definition CLONE_VFORK :: "32 word" where
  "CLONE_VFORK = 0x4000"

definition CLONE_CHILD_SETTID :: "32 word" where
  "CLONE_CHILD_SETTID = 0x1000000"

definition SIGCHLD :: "32 word" where
  "SIGCHLD = 17"

text \<open>
  What the call returns, and what \<open>*child_tid\<close> holds afterwards, in the parent and in the child. The number of the child
  is stored in the memory of the child, which is the parent's only when they share it.
\<close>

definition clone :: "32 word \<Rightarrow> int \<Rightarrow> int option \<Rightarrow> (int \<times> int) \<times> (int \<times> int) option" where
  "clone flags child_tid kid =
     (case kid of
        None \<Rightarrow> ((-1, child_tid), None)
      | Some k \<Rightarrow>
          let stored = (if flags AND CLONE_CHILD_SETTID \<noteq> 0 then k else child_tid)
          in ((k, if flags AND CLONE_VM \<noteq> 0 then stored else child_tid), Some (0, stored)))"

definition clone_like_fork :: "int option \<Rightarrow> int \<times> int option" where
  "clone_like_fork kid = (case clone (CLONE_CHILD_SETTID OR SIGCHLD) 0 kid of ((_, ctid), c) \<Rightarrow> (ctid, map_option snd c))"

definition clone_like_vfork :: "int option \<Rightarrow> int \<times> int option" where
  "clone_like_vfork kid = (case clone (CLONE_VM OR CLONE_VFORK OR SIGCHLD) 0 kid of ((_, ctid), c) \<Rightarrow> (ctid, map_option snd c))"

section \<open>The processes\<close>

record cproc =
  cpid :: int
  clines :: "string list"
  ccode :: int
  catches :: bool

definition atfork_line :: "int \<Rightarrow> string" where
  "atfork_line pid = ''Process '' @ show_int pid @ '' has hit an atfork handler'' @ [newline]"

definition done_line :: "int \<Rightarrow> string" where
  "done_line pid = ''Clean exit for '' @ show_int pid @ [newline]"

definition usage_line :: "string \<Rightarrow> string" where
  "usage_line argv0 = ''Usage: '' @ argv0 @ '' [fork|vfork|clone_fork|clone_vfork|spawn]'' @ [newline]"

definition clone_segfault_handler :: "int \<Rightarrow> int \<Rightarrow> string \<times> int" where
  "clone_segfault_handler pid sig = (''Process '' @ show_int pid @ '' has hit a segfault'' @ [newline], 128 + sig)"

text \<open>The constructor installs the handler unless something is preloaded.\<close>

definition install_handler :: "(string \<rightharpoonup> string) \<Rightarrow> bool" where
  "install_handler env \<longleftrightarrow> env ''LD_PRELOAD'' = None"

text \<open>
  \<open>readlink\<close> does not end the path with a zero: what follows in the buffer belongs to the path. The new process has an empty
  environment and no arguments, so it says that it is done and nothing else.
\<close>

definition try_spawn :: "string option \<Rightarrow> string \<Rightarrow> (string \<Rightarrow> int option) \<Rightarrow> cproc option" where
  "try_spawn link junk start =
     (case link of
        None \<Rightarrow> None
      | Some target \<Rightarrow>
          map_option (\<lambda>k. \<lparr>cpid = k, clines = [done_line k], ccode = 0, catches = install_handler Map.empty\<rparr>)
            (start (cstr (take 4096 (target @ junk)))))"

definition lower :: "char \<Rightarrow> char" where
  "lower c = (let n = of_char c :: nat in if 65 \<le> n \<and> n \<le> 90 then char_of (n + 32) else c)"

definition strcasecmp_eq :: "string \<Rightarrow> string \<Rightarrow> bool" where
  "strcasecmp_eq s t \<longleftrightarrow> map lower s = map lower t"

record kernel =
  self :: int
  kid :: "int option"
  exe_link :: "string option"
  path_junk :: string
  starts_kid :: "string \<Rightarrow> int option"
  environment :: "string \<rightharpoonup> string"

definition finish :: "kernel \<Rightarrow> int \<Rightarrow> string list \<Rightarrow> cproc" where
  "finish k pid ls = \<lparr>cpid = pid, clines = ls @ [done_line pid], ccode = 0, catches = install_handler (environment k)\<rparr>"

definition opt_proc :: "(int \<Rightarrow> cproc) \<Rightarrow> int option \<Rightarrow> cproc list" where
  "opt_proc f p = (case p of None \<Rightarrow> [] | Some c \<Rightarrow> [f c])"

text \<open>
  The handler before a fork and the one of the parent after it run in the parent, also when no child could be made. The child of
  \<open>clone_like_vfork\<close> returns, on the stack it shares with its parent, from the function that made it: what follows is
  undefined (\<open>None\<close>).
\<close>

definition clone_main :: "kernel \<Rightarrow> string list \<Rightarrow> cproc list option" where
  "clone_main k argv =
     (case argv of
        argv0 # arg # _ \<Rightarrow>
          if strcasecmp_eq arg ''fork'' then
            Some (finish k (self k) [atfork_line (self k), atfork_line (self k)] # opt_proc (\<lambda>c. finish k c [atfork_line c]) (kid k))
          else if strcasecmp_eq arg ''vfork'' then
            Some (finish k (self k) [] # opt_proc (\<lambda>c. finish k c []) (kid k))
          else if strcasecmp_eq arg ''clone_fork'' then
            Some (finish k (self k) [] # opt_proc (\<lambda>c. finish k c []) (snd (clone_like_fork (kid k))))
          else if strcasecmp_eq arg ''clone_vfork'' then
            (case clone_like_vfork (kid k) of
               (_, Some _) \<Rightarrow> None
             | (_, None) \<Rightarrow> Some [finish k (self k) []])
          else if strcasecmp_eq arg ''spawn'' then
            Some (finish k (self k) [] # (case try_spawn (exe_link k) (path_junk k) (starts_kid k) of None \<Rightarrow> [] | Some c \<Rightarrow> [c]))
          else if strcasecmp_eq arg ''help'' then
            Some [\<lparr>cpid = self k, clines = [usage_line argv0], ccode = 1, catches = install_handler (environment k)\<rparr>]
          else Some [finish k (self k) []]
      | _ \<Rightarrow> Some [finish k (self k) []])"

section \<open>What the experiment shows\<close>

text \<open>The parent never learns the number of its child, and the two are told apart the wrong way round.\<close>

lemma clone_like_fork_results: "clone_like_fork (Some c) = (0, Some c)" "clone_like_vfork (Some c) = (0, Some 0)"
  by (simp_all add: clone_like_fork_def clone_like_vfork_def clone_def CLONE_CHILD_SETTID_def CLONE_VM_def CLONE_VFORK_def SIGCHLD_def)

lemma clone_fails: "clone_like_fork None = (0, None)" "clone_like_vfork None = (0, None)"
  by (simp_all add: clone_like_fork_def clone_like_vfork_def clone_def)

definition handler_lines :: "cproc list \<Rightarrow> nat" where
  "handler_lines ps = length (filter (\<lambda>l. \<exists>pid. l = atfork_line pid) (concat (map clines ps)))"

lemma lines_differ: "done_line p \<noteq> atfork_line q" "usage_line a \<noteq> atfork_line q"
  by (auto simp: done_line_def atfork_line_def usage_line_def)

lemma handler_lines_simps [simp]:
  "handler_lines [] = 0"
  "handler_lines (\<lparr>cpid = p, clines = ls, ccode = e, catches = h\<rparr> # ps) = length (filter (\<lambda>l. \<exists>pid. l = atfork_line pid) ls) + handler_lines ps"
  by (simp_all add: handler_lines_def)

text \<open>Only \<open>fork\<close> itself runs the handlers: once before, and once in each of the two processes after it.\<close>

theorem only_fork_runs_handlers:
  assumes "clone_main k (argv0 # arg # rest) = Some ps"
  shows "handler_lines ps = (if strcasecmp_eq arg ''fork'' then (if kid k = None then 2 else 3) else 0)"
  using assms
  by (auto simp: clone_main_def finish_def opt_proc_def try_spawn_def lines_differ split: if_splits option.splits prod.splits)

lemma clone_main_clean_exit:
  assumes "clone_main k argv = Some ps" "\<not> (\<exists>argv0 arg rest. argv = argv0 # arg # rest \<and> strcasecmp_eq arg ''help'')" "p \<in> set ps"
  shows "last (clines p) = done_line (cpid p) \<and> ccode p = 0"
  using assms
  by (auto simp: clone_main_def finish_def opt_proc_def try_spawn_def split: if_splits option.splits prod.splits list.splits)

end
