(* ===== verification/Argv_Print.thy ===== *)
theory Argv_Print
  imports Argv
begin

text \<open>
  The rest of \<^verbatim>\<open>argv/lib.c\<close> and \<^verbatim>\<open>argv0/lib.c\<close>: what they print of the arguments they have found, the output of
  \<^verbatim>\<open>ps\<close> and the path of the executable. What a command prints, and where the link of the executable
  leads, are parameters; \<open>None\<close> is a call that fails.
\<close>

section \<open>Printing the arguments\<close>

text \<open>The conversion \<open>%s\<close> reads up to a zero; without one it does not return.\<close>

partial_function (option) read_text :: "(int \<Rightarrow> char) \<Rightarrow> int \<Rightarrow> string option" where
  "read_text m p =
     (if m p = CHR 0x00 then Some []
      else Option.bind (read_text m (p + 1)) (\<lambda>s. Some (m p # s)))"

definition argv_line :: "nat \<Rightarrow> string \<Rightarrow> string" where
  "argv_line i s = ''argv['' @ dec i @ '']: '' @ s @ [newline]"

fun print_from :: "(int \<Rightarrow> int) \<Rightarrow> int \<Rightarrow> (int \<Rightarrow> char) \<Rightarrow> nat list \<Rightarrow> string option" where
  "print_from stack p m [] = Some []"
| "print_from stack p m (i # is) = do {
     s \<leftarrow> read_text m (stack (p + int i));
     rest \<leftarrow> print_from stack p m is;
     Some (argv_line i s @ rest)
   }"

definition print_args :: "(int \<Rightarrow> int) \<Rightarrow> Args \<Rightarrow> (int \<Rightarrow> char) \<Rightarrow> string option" where
  "print_args stack args m =
     (case argv args of
        None \<Rightarrow> if argc args = 0 then Some (''argc: '' @ dec 0 @ [newline]) else None
      | Some p \<Rightarrow> do {
          ls \<leftarrow> print_from stack p m [0..<argc args];
          Some (''argc: '' @ dec (argc args) @ [newline] @ ls)
        })"

section \<open>Asking \<open>ps\<close>\<close>

definition ps_command :: "int \<Rightarrow> string" where
  "ps_command pid = ''ps -p '' @ show_int pid @ '' -o args=''"

text \<open>What goes to the two streams. The output of the command is copied line by line through a buffer.\<close>

definition print_ps :: "int \<Rightarrow> (string \<Rightarrow> string option) \<Rightarrow> string \<times> string" where
  "print_ps pid popen =
     (case snprintf 1024 (ps_command pid) of (result, cmd) \<Rightarrow>
        if 1024 \<le> result then ([], ''Command formatting error'' @ [newline])
        else case popen cmd of
          None \<Rightarrow> ([], ''Failed to run command'' @ [newline])
        | Some out \<Rightarrow> (''ps output:'' @ [newline] @ concat (map cstr (fgets_lines 1024 out)), []))"

section \<open>The executable\<close>

definition get_exe :: "string option \<Rightarrow> string option" where
  "get_exe link = map_option (\<lambda>target. cstr (take 4095 target)) link"

text \<open>A null pointer is printed by name.\<close>

definition show_str :: "string option \<Rightarrow> string" where
  "show_str s = (case s of None \<Rightarrow> ''(null)'' | Some s \<Rightarrow> s)"

definition deref :: "(int \<Rightarrow> char) \<Rightarrow> int option \<Rightarrow> string option option" where
  "deref m p = (case p of None \<Rightarrow> Some None | Some a \<Rightarrow> if a = 0 then Some None else map_option Some (read_text m a))"

definition init_messages :: "int \<Rightarrow> string option \<Rightarrow> (int \<Rightarrow> int) \<Rightarrow> int \<Rightarrow> (int \<Rightarrow> char) \<Rightarrow> argv_lib \<Rightarrow> (string list \<times> argv_lib) option" where
  "init_messages pid link stack environ m s =
     (let s = init_for_fun stack environ s; tag = CHR ''['' # show_int pid @ ''] ''
      in do {
        a0 \<leftarrow> deref m (get_argv stack s 0);
        first \<leftarrow> Some [tag @ ''argv[0] = '' @ show_str a0 @ [newline]];
        second \<leftarrow> (if 1 < this_argc s
          then map_option (\<lambda>a1. [tag @ ''argv[1] = '' @ show_str a1 @ [newline]]) (deref m (get_argv stack s 1))
          else Some []);
        Some (first @ second @ [tag @ ''exe = '' @ show_str (get_exe link) @ [newline]], s)
      })"

section \<open>What is printed\<close>

lemma read_text_at: "text_at m p (s @ [CHR 0x00]) \<Longrightarrow> CHR 0x00 \<notin> set s \<Longrightarrow> read_text m p = Some s"
proof (induction s arbitrary: p)
  case Nil
  then show ?case by (subst read_text.simps) simp
next
  case (Cons c s)
  then have "read_text m (p + 1) = Some s" by auto
  with Cons.prems show ?case by (subst read_text.simps) auto
qed

lemma print_from_block:
  assumes "text_at m q (block ss)" "list_all (\<lambda>s. CHR 0x00 \<notin> set s) ss" "map (\<lambda>i. stack (p + int i)) [k..<k + length ss] = starts q ss"
  shows "print_from stack p m [k..<k + length ss] = Some (concat (map (\<lambda>(i, s). argv_line i s) (zip [k..<k + length ss] ss)))"
  using assms
proof (induction ss arbitrary: k q)
  case (Cons s ss)
  have upt: "[k..<k + length (s # ss)] = k # [Suc k..<Suc k + length ss]"
    by (subst upt_rec) (simp del: upt_Suc)
  from Cons.prems(3) have "stack (p + int k) = q" and rest: "map (\<lambda>i. stack (p + int i)) [Suc k..<Suc k + length ss] = starts (q + int (length s) + 1) ss"
    unfolding upt by simp_all
  moreover have "read_text m q = Some s" using Cons.prems(1,2) by (intro read_text_at) simp_all
  moreover have "text_at m (q + int (length s) + 1) (block ss)" using Cons.prems(1) by (simp add: add.assoc)
  ultimately show ?case using Cons.IH [OF _ _ rest] Cons.prems(2) unfolding upt by simp
qed simp

lemma length_starts: "length (starts p ss) = length ss"
  by (induction ss arbitrary: p) simp_all

text \<open>
  On the stack of a process with fewer than \<open>1024\<close> arguments, the arguments that are found are printed as the memory has them at
  that moment: before they are overwritten or, each as long as before, after it.
\<close>

theorem found_arguments_printed:
  assumes "process_stack stack a (starts p ss) environ" "length ss < 1024"
    and "text_at m p (block ss)" "list_all (\<lambda>s. CHR 0x00 \<notin> set s) ss"
  shows "print_args stack (get_args stack environ) m =
    Some (''argc: '' @ dec (length ss) @ [newline] @ concat (map (\<lambda>(i, s). argv_line i s) (zip [0..<length ss] ss)))"
proof -
  have "find_argc stack 1024 0 (environ - 1) = \<lparr>argc = length ss, argv = Some (a + 1)\<rparr>"
    using search_finds [OF assms(1), of 0 1024] assms(2) by (simp add: length_starts)
  moreover have "map (\<lambda>i. stack (a + 1 + int i)) [0..<0 + length ss] = starts p ss"
    using process_stackD(3) [OF assms(1)] by (intro nth_equalityI) (simp_all add: length_starts)
  ultimately show ?thesis
    using print_from_block [OF assms(3,4), of stack "a + 1" 0] by (simp add: print_args_def get_args_def)
qed

end
