(* ===== verification/Spec2Isabelle.thy ===== *)
theory Spec2Isabelle
  imports Eg_Threads_Run Eg_Forks Ring_Buffer File_Appender Tcp_Connect_Rate Memcpy_Safe Watchseg Ld_Preload
    Punning Perf_Event Argv Secret Deadlock Accounting Autodaemonize
    Orphans Notifier Seccomp Hexdig Timewait Skimmer Pid1_Wrapper
    Eg_Reader Mmlog_Concurrent Nopeeking_Main
    Split_Ranges Lots_Of_Threads Maps_File Evil_Init Orphanizer Threaded_Forks Benchmark Clone_Fork Argv_Print
begin

text \<open>
  \<^bold>\<open>A verification of systems\_experiments\<close>

  The repository is a collection of experiments with Linux system interfaces. Its largest part is a
  library, a memory mapped log that several processes append to (\<^verbatim>\<open>fastlog\<close>); around it are
  programs that use it, and smaller experiments with a core of their own. This development models the
  parts that have logic to verify, each function as it is written with its guards and early returns,
  and proves what makes it correct, or what keeps it from being so.

  \<^bold>\<open>Parts and theories\<close>

  \<^item> \<^verbatim>\<open>fastlog/include/mmlog.h\<close>: a log is a metadata file and a data file. A writer reserves a range
    by advancing a shared cursor, grows the data file under a lock when needed, and writes through a ring of mapped
    chunks, or directly when the record spans several. \<open>Mmlog_Error\<close> has the error codes and
    messages, \<open>Mmlog_State\<close> the structs as records and the arithmetic on words,
    \<open>Mmlog_Wait\<close> the polling loop with its deadline, \<open>Mmlog_Files\<close> creating and opening the two files,
    \<open>Mmlog_Expand\<close> reserving and growing, \<open>Mmlog_Ring\<close> the chunks, \<open>Mmlog_Insert\<close> inserting and trimming.
    \<open>Mmlog_Api\<close> holds the properties of the public functions, \<open>Mmlog_Trim\<close> what goes wrong
    after a trim, \<open>Mmlog_Shared\<close> several handles on one log, and \<open>Mmlog_Concurrent\<close> the
    reservation as a relation of atomic steps of any number of callers.
  \<^item> \<^verbatim>\<open>fastlog/eg/threads\<close>, \<^verbatim>\<open>fastlog/eg/forks\<close> and \<^verbatim>\<open>fastlog/eg/vm_reader\<close>: programs that fill a log from threads, processes or
    alone and check the file. \<open>Eg_Threads\<close> (definitions, the validation), \<open>Eg_Threads_Run\<close> (all schedules), \<open>Eg_Forks\<close>,
    \<open>Eg_Reader\<close>.
  \<^item> \<^verbatim>\<open>write_append\<close>: a benchmark of six ways to append to a file, one of them the log: \<open>File_Appender\<close>; the driver that
    forks, waits, computes the figures and prints them: \<open>Benchmark\<close>.
  \<^item> \<^verbatim>\<open>simple_ringbuffer\<close>: batches in a ring buffer with a mirrored mapping, and its demonstration: \<open>Ring_Buffer\<close>.
  \<^item> \<^verbatim>\<open>nopeeking_registry\<close>: messages left in the queue of a multicast socket, and how another process
    reads them: \<open>Nopeeking\<close>; its demonstration: \<open>Nopeeking_Main\<close>.
  \<^item> \<^verbatim>\<open>autodaemonize\<close>: a class whose object is served by a background process: \<open>Autodaemonize\<close>, a relation of
    the steps of three processes.
  \<^item> \<^verbatim>\<open>tsc_time\<close>: a calibrated cycle counter, \<open>Cycle_Counter\<close>, and the accounting of latencies on it with a
    controller, \<open>Accounting\<close>, with the floating-point numbers of \<open>C_Double\<close>, whose rounding is a parameter.
  \<^item> \<^verbatim>\<open>sigaction_deadlock\<close>: faults in the handler of a fault: \<open>Deadlock\<close>.
  \<^item> \<^verbatim>\<open>unshare_orphans\<close>: the first process of a namespace waits for children and orphans: \<open>Orphans\<close>, a relation of
    the steps of all processes; \<^verbatim>\<open>pid_1_signals\<close>: a wrapper that passes signals on: \<open>Pid1_Wrapper\<close>.
  \<^item> \<^verbatim>\<open>seccomp_sigsys\<close>: a filter of system calls, run by an interpreter, and what becomes of the program: \<open>Seccomp\<close>.
  \<^item> \<^verbatim>\<open>here_and_gone/notifier.c\<close>: decoding file events: \<open>Notifier\<close>; \<^verbatim>\<open>skimmer\<close>: where the lines of a file end: \<open>Skimmer\<close>;
    \<^verbatim>\<open>faster_hexdig\<close>: three classifiers of digits: \<open>Hexdig\<close>.
  \<^item> \<^verbatim>\<open>tcp_close_timewait\<close>: a client and a server that close their sockets, or not: \<open>Timewait\<close>.
  \<^item> \<^verbatim>\<open>ld_preload_wrapper\<close>: a wrapper around the environment functions and its injection: \<open>Ld_Preload\<close>.
  \<^item> \<^verbatim>\<open>sigsegv_return_from_kill\<close>: raising and handling a fault signal in many variants: \<open>Watchseg\<close>.
  \<^item> \<^verbatim>\<open>not_my_segfault/memcpy_safe.h\<close>: copying from memory that may not be there: \<open>Memcpy_Safe\<close>.
  \<^item> \<^verbatim>\<open>perf_event_open\<close>: one event per processor, read from a ring that is mapped twice: \<open>Perf_Event\<close>.
  \<^item> \<^verbatim>\<open>type_punning\<close>: counting codes in a string by comparing words, and by comparing strings: \<open>Punning\<close>.
  \<^item> \<^verbatim>\<open>argv\<close> and \<^verbatim>\<open>argv0\<close>: finding the arguments of a process from its environment, and overwriting them: \<open>Argv\<close>;
    printing them: \<open>Argv_Print\<close>.
    On the same stack and memory, \<^verbatim>\<open>start_so\<close>, which scrubs them, \<open>Start_So\<close>, and \<^verbatim>\<open>memfd_secret/secret.c\<close>, which moves
    them into memory that the kernel does not read, \<open>Secret\<close>.
  \<^item> \<^verbatim>\<open>tcp_connect_rate\<close>: clients that share a number of connections, and their server: \<open>Tcp_Connect_Rate\<close>.
  \<^item> \<^verbatim>\<open>threaded_forks\<close>: two programs that fork while other threads use a mutex: \<open>Threaded_Forks\<close>, relations of the steps of
    all threads and processes; \<^verbatim>\<open>fork_without_handlers\<close>: which ways to make a child run the fork handlers: \<open>Clone_Fork\<close>;
    \<^verbatim>\<open>lotsathreads\<close>: a table of a thousand functions and a thread for each: \<open>Lots_Of_Threads\<close>.
  \<^item> \<^verbatim>\<open>reaping_orphans\<close>: making zombies and counting the states of processes: \<open>Orphanizer\<close>.
  \<^item> \<^verbatim>\<open>sofile_with_main\<close>: a library that finds its own file among the mappings: \<open>Maps_File\<close>; \<^verbatim>\<open>evil_static_init\<close>: an object whose
    constructor runs another program: \<open>Evil_Init\<close>; \<^verbatim>\<open>cxx20_split_with_ranges\<close>: splitting and trimming: \<open>Split_Ranges\<close>.

  \<open>Prelude\<close> has the shared types and lemmas; \<open>Posix\<close> models files, descriptors and mappings with an
  arbitrary pattern of failing calls; \<open>C_String\<close> and \<open>C_Stdio\<close> model what is used of the C library. These model
  no code of the repository.

  \<^bold>\<open>Interfaces\<close>

  Where a component relies on another, or several keep the same contract, the contract is a locale that is interpreted on the model's
  definitions: \<open>append_log\<close> and \<open>shared_log\<close> (\<open>Append_Log\<close>) for everything that appends records, met
  by the log with one handle, the log with many handles, and a plain file; \<open>bounded_fifo\<close> (\<open>Fifo\<close>) met by the ring buffer;
  \<open>environment\<close> (\<open>Ld_Preload\<close>) met by the C library and, for every environment, by the wrapper around it; \<open>polling_refused\<close> (\<open>Mmlog_Wait\<close>)
  for a condition that nobody ever makes true, met among others by a data file that is too short; \<open>leaking_loop\<close> (\<open>Timewait\<close>)
  for a loop that uses up descriptors, met by the client and the server; \<open>lost_lock\<close> (\<open>Threaded_Forks\<close>) for a mutex whose holder was
  not copied by a fork, met by the processes of both programs.

  \<^bold>\<open>How code is modelled\<close>

  Structs are records, enumerations datatypes, unsigned integers of the log words of 32 and 64 bits;
  where the code cannot overflow, or where an overflow is undefined, numbers are of type \<^typ>\<open>nat\<close> or \<^typ>\<open>int\<close>. State is passed explicitly.
  A result \<^const>\<open>None\<close> of a call stands for not returning (spinning for ever, waiting for
  ever, a signal, undefined behaviour); loops that may spin are partial functions into \<^typ>\<open>'a option\<close>,
  without fuel. So a theorem that a call yields \<^const>\<open>Some\<close> says that it returns. What other threads do while
  a function waits is a parameter \<open>env\<close> of the function; a theorem for all \<open>env\<close> covers all of them, one that
  needs more states it. The results of system calls come from lists of faults, random numbers, clocks and
  process numbers are parameters. A schedule of threads is a list of thread numbers.

  \<^bold>\<open>What is proved\<close>

  \<^item> The log: a session of open, inserts and trim leaves exactly the records (C1); inserting, reserving,
    getting a chunk and reopening do what they promise (C2, C3, C4, C17); growing always
    returns (C7), never on a panicked log (C8); every failing way to create the files gives back what it took (C14); a reservation that ends above 4 GiB
    shrinks the file (C11). Failures: C5, C15.
  \<^item> Concurrency: ranges are disjoint and backed, the lock excludes, the file never
    shrinks, in every interleaving, and the sequential function is a run of the steps (C18 to C21).
  \<^item> Programs on the log: the threads example passes under every schedule (C30), what its validation accepts (C29), the forks example passes for
    every \<open>rand\<close> (C40), the reader example passes once and never again (C10), and the ways to append agree (C38).
  \<^item> The ring buffer: batches round trip (C32), the ring is a queue (C34), the demonstration delivers (C33),
    all ways out of its constructor (\<open>failed_map_closes_twice\<close>).
  \<^item> The registry: framed messages come back (C24), and what its demonstration does (\<open>np_main_outcome\<close>).
  \<^item> Forks and threads: in every interleaving a child either can go on or was forked under a held mutex and waits for ever (C27), and so in the second program,
    which grows to at most 32 processes (\<open>spin_main_processes\<close>); \<open>only_fork_runs_handlers\<close>, \<open>threads_joined\<close>, \<open>orphan_states_counted\<close>.
  \<^item> The daemon receives what was sent, in order, and ends after its client, in every interleaving (C31).
  \<^item> The cycle counter is calibrated once, to the median (C22); the accounting keeps its types under all calls (C16); an
    update empties its short-term buckets (\<open>update_empties_short_term\<close>).
  \<^item> All orphans are waited for in every interleaving, and every run ends (C37); closing decides whether client and server
    end (C12). Further results of this kind: \<open>wrapper_outcome\<close>, \<open>secc_main_killed\<close>, \<open>notifier_prints\<close>, \<open>skimmer_rows\<close>,
    \<open>classifiers_never_disagree\<close>, \<open>secret_main_hides\<close>, \<open>foo_executes_own_file\<close>, \<open>innocent_outcome\<close>, \<open>split_lines_trims_left\<close>,
    \<open>found_arguments_printed\<close>; for the driver of the benchmark \<open>run_benchmark_forks_ok\<close>, \<open>exact_metrics\<close>, \<open>benchmark_rows\<close>.
  \<^item> The wrapper is transparent (C25), all ways out of the injection (C26), when a process dies of its fault (C6),
    what a safe copy delivers (C9),
    what becomes of the clients of a server (C36), how a program with faults in its handler ends (C23), which events are seen (C13), that comparing words counts the codes (C28),
    that the arguments are found and masked (C39) and scrubbed (C35).

  Bounds: the log is proved for a total below \<open>2 ^ 32\<close> bytes and chunk sizes that are powers of
  two or multiples of the page size as stated in each theorem; C11 shows that the first bound is one of the code.

  \<^bold>\<open>Not modelled\<close>

  Weak memory: atomic operations are sequentially consistent steps. The processes of \<open>Eg_Forks\<close>,
  \<open>File_Appender\<close> and \<open>Tcp_Connect_Rate\<close> run one after the other; interleavings are covered for the threads example,
  the reservation, \<open>Autodaemonize\<close>, \<open>Orphans\<close> and \<open>Threaded_Forks\<close>. Progress messages of the examples are left out, and clocks are
  parameters. The unit tests of the log, the generated glue of its library and the programs in other languages are not modelled. Of the other
  experiments, what is left triggers a single behaviour of the kernel, the linker or the compiler (a fault, a timer, a mapping, a symbol that is or
  is not found) and has no state or decision of its own: a model would consist of assumptions about the system only. The same holds for inline assembly,
  of which only the results are modelled (the halves of the cycle counter, the registers of a system call).
\<close>

end
